theory Spec2Isabelle
  imports Complex_Main "HOL-Library.Sublist"
begin

section \<open>Numeric arrays and Python errors\<close>

text \<open>
  The notebooks compute with Python floats and numpy arrays of floats. In the saving-rate
  cell, whose property does not depend on rounding, a float is a \<^typ>\<open>real\<close>; the figures
  of DiamondOLG are computed in an arithmetic that is a parameter of the model (see
  below). A one-dimensional array is a list, and a raised exception is the left summand
  of a sum type.
\<close>

datatype py_error = ValueError | IndexError | KeyError | TypeError | ZeroDivisionError
  | OverflowError | NameError | ToolkitError

text \<open>
  \<^verbatim>\<open>np.linspace(start, stop, num)\<close>: \<open>num\<close> evenly spaced samples with both end points.
  The notebook calls it with the default \<open>num = 50\<close>.
\<close>

definition linspace :: "real \<Rightarrow> real \<Rightarrow> nat \<Rightarrow> real list" where
  "linspace start stop num =
     (if num = 1 then [start]
      else map (\<lambda>i. start + real i * ((stop - start) / real (num - 1))) [0..<num])"

text \<open>
  numpy's broadcasting of a binary operation over two one-dimensional operands (a Python
  list operand is converted to an array first): equal lengths combine pointwise, an
  operand of length one is stretched, anything else raises \<^verbatim>\<open>ValueError\<close>.
\<close>

definition np_broadcast ::
  "(real \<Rightarrow> real \<Rightarrow> 'b) \<Rightarrow> real list \<Rightarrow> real list \<Rightarrow> py_error + 'b list" where
  "np_broadcast f xs ys =
     (if length xs = length ys then Inr (map (\<lambda>(x, y). f x y) (zip xs ys))
      else if length ys = 1 then Inr (map (\<lambda>x. f x (hd ys)) xs)
      else if length xs = 1 then Inr (map (\<lambda>y. f (hd xs) y) ys)
      else Inl ValueError)"

text \<open>
  Float division inside numpy does not raise on a zero divisor: it yields \<open>inf\<close> or
  \<open>nan\<close>. Those non-finite results are \<^const>\<open>None\<close> here.
\<close>

definition np_divide :: "real \<Rightarrow> real \<Rightarrow> real option" where
  "np_divide x y = (if y = 0 then None else Some (x / y))"

section \<open>PerfForesightCRRA-SavingRate: the saving-rate cell\<close>

text \<open>
  \<^verbatim>\<open>
  Rfree = 1.03
  PermGroFac = [1.01]          (also bound to the name Gamma)
  a_tm1 = np.linspace(-1,4)
  cap_income_t = a_tm1*(Rfree-1)/PermGroFac
  lab_income_t = 1
  m_t = a_tm1 * Rfree/PermGroFac + 1
  c_t = PFsavrate.solution[0].cFunc(m_t)
  sav_rate_t = (cap_income_t + lab_income_t - c_t) / (cap_income_t + lab_income_t)
  \<close>
  \<open>PermGroFac\<close> is a one-element list, so the two divisions by it broadcast. The
  consumption function is the external solver's output and is a parameter
  (\<open>consumption\<close>).
\<close>

definition savrate_Rfree :: real where
  "savrate_Rfree = 103 / 100"

definition savrate_PermGroFac :: "real list" where
  "savrate_PermGroFac = [101 / 100]"

definition a_tm1 :: "real list" where
  "a_tm1 = linspace (- 1) 4 50"

definition cap_income_t :: "py_error + real list" where
  "cap_income_t =
     np_broadcast (\<lambda>x y. x / y) (map (\<lambda>a. a * (savrate_Rfree - 1)) a_tm1) savrate_PermGroFac"

definition lab_income_t :: real where
  "lab_income_t = 1"

definition m_t :: "py_error + real list" where
  "m_t =
     (case np_broadcast (\<lambda>x y. x / y) (map (\<lambda>a. a * savrate_Rfree) a_tm1) savrate_PermGroFac of
        Inl e \<Rightarrow> Inl e
      | Inr q \<Rightarrow> Inr (map (\<lambda>x. x + 1) q))"

text \<open>The divisor array of the last statement, \<^verbatim>\<open>cap_income_t + lab_income_t\<close>.\<close>

definition sav_rate_denominator :: "py_error + real list" where
  "sav_rate_denominator =
     (case cap_income_t of Inl e \<Rightarrow> Inl e | Inr cap \<Rightarrow> Inr (map (\<lambda>c. c + lab_income_t) cap))"

definition sav_rate_t :: "(real \<Rightarrow> real) \<Rightarrow> py_error + real option list" where
  "sav_rate_t consumption =
     (case cap_income_t of Inl e \<Rightarrow> Inl e
      | Inr cap \<Rightarrow>
          (case m_t of Inl e \<Rightarrow> Inl e
           | Inr m \<Rightarrow>
               (let c_t = map consumption m;
                    income = map (\<lambda>c. c + lab_income_t) cap
                in case np_broadcast (\<lambda>x y. x - y) income c_t of
                     Inl e \<Rightarrow> Inl e
                   | Inr num \<Rightarrow> np_broadcast np_divide num income)))"

section \<open>Python float arithmetic used by DiamondOLG\<close>

text \<open>
  Sequencing of computations that may raise: the first error ends the computation.
\<close>

definition bind_err :: "py_error + 'a \<Rightarrow> ('a \<Rightarrow> py_error + 'b) \<Rightarrow> py_error + 'b" where
  "bind_err m f = (case m of Inl e \<Rightarrow> Inl e | Inr x \<Rightarrow> f x)"

text \<open>
  The numbers of DiamondOLG are Python floats, numpy \<open>float64\<close> scalars and arrays of
  them: IEEE 754 binary64 with the platform's \<^verbatim>\<open>pow\<close>, which rounds, overflows to
  infinity or to \<^verbatim>\<open>OverflowError\<close>, produces \<open>nan\<close> and, for a negative base with a
  fractional exponent, a complex number. The model fixes none of this. A number is a
  value of a type \<open>'f\<close>, and the operators the notebook applies are the fields of a
  record:
    \<^item> \<open>f_lit\<close>: the number denoted by a literal or an \<open>int\<close> (\<^verbatim>\<open>0.1\<close>, \<^verbatim>\<open>1\<close>);
    \<^item> \<open>f_add\<close>, \<open>f_sub\<close>, \<open>f_mul\<close>: \<^verbatim>\<open>+\<close>, \<^verbatim>\<open>-\<close>, \<^verbatim>\<open>*\<close>, on scalars and on the
      entries of an array, which never raise;
    \<^item> \<open>f_div\<close>, \<open>f_pow\<close>: \<^verbatim>\<open>/\<close> and \<^verbatim>\<open>**\<close> on scalars, which may raise
      (\<^verbatim>\<open>ZeroDivisionError\<close>, \<^verbatim>\<open>OverflowError\<close>);
    \<^item> \<open>np_pow\<close>: \<^verbatim>\<open>**\<close> on an entry of an array, which never raises;
    \<^item> \<open>np_abs\<close>, \<open>f_gt\<close>: \<^verbatim>\<open>np.abs\<close> and \<^verbatim>\<open>>\<close>;
    \<^item> \<open>np_linspace\<close>: \<^verbatim>\<open>np.linspace(start, stop, num)\<close>.
  The last two fields are not operators of the program: \<open>is_finite\<close> tells the finite
  floating-point numbers from the other values and \<open>real_of\<close> gives the real number that
  a finite one denotes.
\<close>

record 'f arith =
  f_lit :: "real \<Rightarrow> 'f"
  f_add :: "'f \<Rightarrow> 'f \<Rightarrow> 'f"
  f_sub :: "'f \<Rightarrow> 'f \<Rightarrow> 'f"
  f_mul :: "'f \<Rightarrow> 'f \<Rightarrow> 'f"
  f_div :: "'f \<Rightarrow> 'f \<Rightarrow> py_error + 'f"
  f_pow :: "'f \<Rightarrow> 'f \<Rightarrow> py_error + 'f"
  np_pow :: "'f \<Rightarrow> 'f \<Rightarrow> 'f"
  np_abs :: "'f \<Rightarrow> 'f"
  f_gt :: "'f \<Rightarrow> 'f \<Rightarrow> bool"
  np_linspace :: "'f \<Rightarrow> 'f \<Rightarrow> nat \<Rightarrow> 'f list"
  is_finite :: "'f \<Rightarrow> bool"
  real_of :: "'f \<Rightarrow> real"

section \<open>DiamondOLG: the agent, its solution and the figure\<close>

text \<open>
  The solved policy of one period exposes the consumption function \<open>cFunc\<close>. The agent
  object carries the attributes the notebook assigns and the list \<open>solution\<close> that the
  external \<^verbatim>\<open>solve()\<close> fills in.
\<close>

record 'f policy =
  cFunc :: "'f \<Rightarrow> 'f"

record 'f PFagent =
  attr_cycles :: int
  attr_T_cycle :: int
  attr_PermGroFac :: "'f list"
  attr_LivPrb :: "'f list"
  attr_DiscFac :: 'f
  attr_CRRA :: 'f
  solution :: "'f policy list"

text \<open>\<^verbatim>\<open>agent.solution[0].cFunc(m)\<close>: indexing an empty solution list raises.\<close>

definition eval_cFunc :: "'f PFagent \<Rightarrow> 'f \<Rightarrow> py_error + 'f" where
  "eval_cFunc ag m = (case solution ag of [] \<Rightarrow> Inl IndexError | s # _ \<Rightarrow> Inr (cFunc s m))"

text \<open>
  The two PerfForesightCRRA-SavingRate cells that use the solution. The first is
  \<^verbatim>\<open>
  PFsavrate.solve()
  test_m = 4
  test_c = PFsavrate.solution[0].cFunc(test_m)
  \<close>
  and returns the agent after the cell together with \<open>test_c\<close>; the second is the
  saving-rate cell above, which applies the solved consumption function to the array
  \<open>m_t\<close>.
\<close>

definition savrate_solve_cell ::
  "(real PFagent \<Rightarrow> py_error + real PFagent) \<Rightarrow> real PFagent \<Rightarrow>
   py_error + real PFagent \<times> real" where
  "savrate_solve_cell solve PFsavrate =
     bind_err (solve PFsavrate) (\<lambda>ag.
     bind_err (eval_cFunc ag 4) (\<lambda>test_c. Inr (ag, test_c)))"

definition savrate_plot_cell ::
  "real PFagent \<Rightarrow> py_error + real PFagent \<times> real option list" where
  "savrate_plot_cell PFsavrate =
     (case solution PFsavrate of
        [] \<Rightarrow> Inl IndexError
      | s # _ \<Rightarrow> bind_err (sav_rate_t (cFunc s)) (\<lambda>rates. Inr (PFsavrate, rates)))"

text \<open>What matplotlib is asked to draw, in call order.\<close>

datatype 'f artist =
    Curve "'f list" "'f list" string
  | Arrow 'f 'f 'f 'f
  | Point 'f 'f string

record 'f olg_parameters =
  Beta :: 'f
  xi :: 'f
  Q :: 'f
  kBar :: 'f

text \<open>
  The first four assignments of \<open>plot1\<close> (and of \<open>plot3\<close>, where \<open>PopGrowth = 1\<close>):
  \<^verbatim>\<open>
  Beta = DiscFac**YearsPerGeneration
  xi = PopGrowth**YearsPerGeneration
  Q = (1-Epsilon)*(Beta/(1+Beta))/xi
  kBar = Q**(1/(1-Epsilon))
  \<close>
  Operands are evaluated left to right, so \<^verbatim>\<open>1-Epsilon\<close> is computed before the
  quotient that may raise.
\<close>

definition plot_parameters ::
  "'f arith \<Rightarrow> 'f \<Rightarrow> 'f \<Rightarrow> 'f \<Rightarrow> 'f \<Rightarrow> py_error + 'f olg_parameters" where
  "plot_parameters A Epsilon DiscFac PopGrowth YearsPerGeneration =
     bind_err (f_pow A DiscFac YearsPerGeneration) (\<lambda>b.
     bind_err (f_pow A PopGrowth YearsPerGeneration) (\<lambda>x.
     bind_err (f_div A b (f_add A (f_lit A 1) b)) (\<lambda>t.
     bind_err (f_div A (f_mul A (f_sub A (f_lit A 1) Epsilon) t) x) (\<lambda>q.
     bind_err (f_div A (f_lit A 1) (f_sub A (f_lit A 1) Epsilon)) (\<lambda>e.
     bind_err (f_pow A q e) (\<lambda>kb.
       Inr \<lparr>Beta = b, xi = x, Q = q, kBar = kb\<rparr>))))))"

text \<open>
  The agent set-up shared by \<open>plot1\<close> and \<open>plot3\<close>, up to and including
  \<^verbatim>\<open>PFagent.solve()\<close>:
  \<^verbatim>\<open>
  PFagent = PerfForesightConsumerType(**init_perfect_foresight)
  PFagent.cycles = 1
  PFagent.T_cycle = 2
  PFagent.assign_parameters(PermGroFac = [0.000001])
  PFagent.LivPrb = [1.]
  PFagent.DiscFac = Beta
  PFagent.CRRA = 1.001
  PFagent.solve()
  \<close>
  The freshly constructed agent and the solver are the external toolkit's and are
  parameters.
\<close>

definition make_solved_agent ::
  "'f arith \<Rightarrow> ('f PFagent \<Rightarrow> py_error + 'f PFagent) \<Rightarrow> 'f PFagent \<Rightarrow> 'f \<Rightarrow>
   py_error + 'f PFagent" where
  "make_solved_agent A solve fresh b =
     solve (fresh\<lparr>attr_cycles := 1, attr_T_cycle := 2,
                   attr_PermGroFac := [f_lit A (1 / 1000000)],
                   attr_LivPrb := [f_lit A 1], attr_DiscFac := b,
                   attr_CRRA := f_lit A (1001 / 1000)\<rparr>)"

text \<open>The plotted capital accumulation map \<^verbatim>\<open>Q*kt_range**Epsilon\<close>, at one grid point.\<close>

definition accumulation :: "'f arith \<Rightarrow> 'f \<Rightarrow> 'f \<Rightarrow> 'f \<Rightarrow> 'f" where
  "accumulation A q Epsilon k = f_mul A q (np_pow A k Epsilon)"

text \<open>\<^verbatim>\<open>kMax = 0.1\<close> and \<^verbatim>\<open>kt_range = np.linspace(0, kMax, 300)\<close>.\<close>

definition kMax :: "'f arith \<Rightarrow> 'f" where
  "kMax A = f_lit A (1 / 10)"

definition kt_range :: "'f arith \<Rightarrow> 'f list" where
  "kt_range A = np_linspace A (f_lit A 0) (kMax A) 300"

text \<open>
  The variables that live across the arrow-drawing loops: the agent, the two arrow
  coordinates and the artists drawn so far.
\<close>

record 'f path_state =
  agent :: "'f PFagent"
  kt :: 'f
  ktp1 :: 'f
  drawn :: "'f artist list"

text \<open>
  One pass of the \<^verbatim>\<open>for i in range(3)\<close> loop of \<open>plot1\<close>:
  \<^verbatim>\<open>
  wage = (1-Epsilon)*kt_ar**Epsilon
  c = PFagent.solution[0].cFunc(wage)
  a = wage - c
  k1 = a/xi
  plt.arrow(kt_ar, ktp1_ar, 0., k1-ktp1_ar, ...)
  plt.arrow(kt_ar, k1, k1-kt_ar , 0., ...)
  kt_ar = k1
  ktp1_ar = kt_ar
  \<close>
\<close>

definition plot1_step :: "'f arith \<Rightarrow> 'f \<Rightarrow> 'f \<Rightarrow> 'f path_state \<Rightarrow> py_error + 'f path_state" where
  "plot1_step A Epsilon x st =
     bind_err (f_pow A (kt st) Epsilon) (\<lambda>p.
     let wage = f_mul A (f_sub A (f_lit A 1) Epsilon) p in
     bind_err (eval_cFunc (agent st) wage) (\<lambda>c.
     let a = f_sub A wage c in
     bind_err (f_div A a x) (\<lambda>k1.
       Inr (st\<lparr>kt := k1, ktp1 := k1,
                drawn := drawn st @
                  [Arrow (kt st) (ktp1 st) (f_lit A 0) (f_sub A k1 (ktp1 st)),
                   Arrow (kt st) k1 (f_sub A k1 (kt st)) (f_lit A 0)]\<rparr>))))"

fun plot1_path ::
  "nat \<Rightarrow> 'f arith \<Rightarrow> 'f \<Rightarrow> 'f \<Rightarrow> 'f path_state \<Rightarrow> py_error + 'f path_state" where
  "plot1_path 0 A Epsilon x st = Inr st"
| "plot1_path (Suc n) A Epsilon x st =
     bind_err (plot1_step A Epsilon x st) (\<lambda>st'. plot1_path n A Epsilon x st')"

text \<open>
  \<open>plot1\<close>: the parameters, the solved agent, the two curves
  \<^verbatim>\<open>
  ktp1 = Q*kt_range**Epsilon
  plt.plot(kt_range, ktp1, 'b-', label='Capital accumulation curve')
  plt.plot(kt_range, kt_range, 'k-', label='45 Degree line')
  \<close>
  then three passes of the arrow loop from \<^verbatim>\<open>kt_ar = Initialk\<close>, \<^verbatim>\<open>ktp1_ar = 0.\<close>, and
  the two markers
  \<^verbatim>\<open>
  plt.plot(kBar, kBar, 'ro', label=r'$\bar{k}$')
  plt.plot(Initialk, 0.0005, 'co', label = '$k_0$')
  \<close>
\<close>

definition plot1 ::
  "'f arith \<Rightarrow> ('f PFagent \<Rightarrow> py_error + 'f PFagent) \<Rightarrow> 'f PFagent \<Rightarrow>
   'f \<Rightarrow> 'f \<Rightarrow> 'f \<Rightarrow> 'f \<Rightarrow> 'f \<Rightarrow> py_error + 'f path_state" where
  "plot1 A solve fresh Epsilon DiscFac PopGrowth YearsPerGeneration Initialk =
     bind_err (plot_parameters A Epsilon DiscFac PopGrowth YearsPerGeneration) (\<lambda>p.
     bind_err (make_solved_agent A solve fresh (Beta p)) (\<lambda>ag.
     let curves = [Curve (kt_range A) (map (accumulation A (Q p) Epsilon) (kt_range A))
                      ''Capital accumulation curve'',
                   Curve (kt_range A) (kt_range A) ''45 Degree line'']
     in
     bind_err (plot1_path 3 A Epsilon (xi p)
                 \<lparr>agent = ag, kt = Initialk, ktp1 = f_lit A 0, drawn = curves\<rparr>) (\<lambda>st.
       Inr (st\<lparr>drawn := drawn st @ [Point (kBar p) (kBar p) ''ro'',
                                     Point Initialk (f_lit A (5 / 10000)) ''co'']\<rparr>))))"

text \<open>
  \<open>plot3\<close>, the pay-as-you-go figure. \<^verbatim>\<open>sp.optimize.root\<close> is external: it is a
  parameter that maps the residual function and the starting point to the reported
  \<^verbatim>\<open>solution.x\<close>.
  \<^verbatim>\<open>
  transfers = z * (1 + (Rfree * Beta) )/(Rfree * (1 + Beta))
  solution = sp.optimize.root(lambda k: k - Q*(k**Epsilon) + transfers, kBar_old)
  kBar_new = solution.x
  \<close>
  One pass of the \<^verbatim>\<open>while np.abs(kBar_new - kt_PAYG) > 0.0015\<close> loop:
  \<^verbatim>\<open>
  wage = (1-Epsilon)*kt_PAYG**Epsilon
  net_wage = (1 - z) * wage
  c = PFagent.solution[0].cFunc(net_wage)
  k1 = (wage * (Beta/(1 + Beta)) - transfers)/(xi)
  plt.arrow(kt_PAYG, k1, k1-kt_PAYG , 0., ...)
  plt.arrow(kt_PAYG, ktp1_PAYG, 0., k1-ktp1_PAYG, ...)
  kt_PAYG = k1
  ktp1_PAYG = kt_PAYG
  \<close>
  The root finder hands an array to the residual function, so its power is \<open>np_pow\<close>.
\<close>

definition residual :: "'f arith \<Rightarrow> 'f \<Rightarrow> 'f \<Rightarrow> 'f \<Rightarrow> 'f \<Rightarrow> 'f" where
  "residual A q Epsilon transfers k =
     f_add A (f_sub A k (f_mul A q (np_pow A k Epsilon))) transfers"

definition plot3_step ::
  "'f arith \<Rightarrow> 'f \<Rightarrow> 'f \<Rightarrow> 'f \<Rightarrow> 'f \<Rightarrow> 'f \<Rightarrow> 'f path_state \<Rightarrow> py_error + 'f path_state" where
  "plot3_step A Epsilon z b transfers x st =
     bind_err (f_pow A (kt st) Epsilon) (\<lambda>p.
     let wage = f_mul A (f_sub A (f_lit A 1) Epsilon) p;
         net_wage = f_mul A (f_sub A (f_lit A 1) z) wage in
     bind_err (eval_cFunc (agent st) net_wage) (\<lambda>c.
     bind_err (f_div A b (f_add A (f_lit A 1) b)) (\<lambda>t.
     bind_err (f_div A (f_sub A (f_mul A wage t) transfers) x) (\<lambda>k1.
       Inr (st\<lparr>kt := k1, ktp1 := k1,
                drawn := drawn st @
                  [Arrow (kt st) k1 (f_sub A k1 (kt st)) (f_lit A 0),
                   Arrow (kt st) (ktp1 st) (f_lit A 0) (f_sub A k1 (ktp1 st))]\<rparr>)))))"

text \<open>
  The while loop may run forever; the model counts iterations down from a bound and
  returns \<^const>\<open>None\<close> when the bound is used up before the loop condition fails.
\<close>

fun plot3_path ::
  "nat \<Rightarrow> 'f arith \<Rightarrow> 'f \<Rightarrow> 'f \<Rightarrow> 'f \<Rightarrow> 'f \<Rightarrow> 'f \<Rightarrow> 'f \<Rightarrow> 'f path_state \<Rightarrow>
   (py_error + 'f path_state) option" where
  "plot3_path 0 A kBar_new Epsilon z b transfers x st =
     (if f_gt A (np_abs A (f_sub A kBar_new (kt st))) (f_lit A (15 / 10000)) then None
      else Some (Inr st))"
| "plot3_path (Suc n) A kBar_new Epsilon z b transfers x st =
     (if f_gt A (np_abs A (f_sub A kBar_new (kt st))) (f_lit A (15 / 10000)) then
        (case plot3_step A Epsilon z b transfers x st of
           Inl e \<Rightarrow> Some (Inl e)
         | Inr st' \<Rightarrow> plot3_path n A kBar_new Epsilon z b transfers x st')
      else Some (Inr st))"

definition plot3 ::
  "'f arith \<Rightarrow> ('f PFagent \<Rightarrow> py_error + 'f PFagent) \<Rightarrow> 'f PFagent \<Rightarrow>
   (('f \<Rightarrow> 'f) \<Rightarrow> 'f \<Rightarrow> 'f) \<Rightarrow> nat \<Rightarrow> 'f \<Rightarrow> 'f \<Rightarrow> 'f \<Rightarrow> 'f \<Rightarrow> 'f \<Rightarrow>
   (py_error + 'f path_state) option" where
  "plot3 A solve fresh find_root fuel Epsilon DiscFac z Rfree YearsPerGeneration =
     (case plot_parameters A Epsilon DiscFac (f_lit A 1) YearsPerGeneration of
        Inl e \<Rightarrow> Some (Inl e)
      | Inr p \<Rightarrow>
     (case f_div A (f_mul A z (f_add A (f_lit A 1) (f_mul A Rfree (Beta p))))
                  (f_mul A Rfree (f_add A (f_lit A 1) (Beta p))) of
        Inl e \<Rightarrow> Some (Inl e)
      | Inr transfers \<Rightarrow>
     (let kBar_old = kBar p;
          kBar_new = find_root (residual A (Q p) Epsilon transfers) kBar_old
      in
     (case make_solved_agent A solve fresh (Beta p) of
        Inl e \<Rightarrow> Some (Inl e)
      | Inr ag \<Rightarrow>
     (let curves = [Curve (kt_range A) (map (accumulation A (Q p) Epsilon) (kt_range A))
                      ''Capital accumulation curve'',
                    Curve (kt_range A)
                      (map (\<lambda>k. f_sub A (accumulation A (Q p) Epsilon k) transfers) (kt_range A))
                      ''Capital accumulation curve with PAYG'',
                    Curve (kt_range A) (kt_range A) ''45 Degree line'']
      in
     (case plot3_path fuel A kBar_new Epsilon z (Beta p) transfers (xi p)
             \<lparr>agent = ag, kt = kBar_old, ktp1 = kBar_old, drawn = curves\<rparr> of
        None \<Rightarrow> None
      | Some (Inl e) \<Rightarrow> Some (Inl e)
      | Some (Inr st) \<Rightarrow>
          Some (Inr (st\<lparr>drawn := drawn st @ [Point kBar_old kBar_old ''co'',
                                             Point kBar_new kBar_new ''ro'']\<rparr>))))))))"

section \<open>The standard model of floating-point arithmetic\<close>

text \<open>
  What is assumed of the arithmetic when a property depends on it. A number is normal
  when it is finite and its magnitude lies between \<open>lo\<close> and \<open>hi\<close> (for binary64, the least
  positive normal number \<open>2^-1022\<close> and the largest finite number). A computed result \<open>z\<close>
  is close to the exact result \<open>r\<close> when it differs from it by at most the fraction \<open>u\<close> of
  \<open>r\<close> (for a correctly rounded binary64 operation \<open>u = 2^-53\<close>; the platform's \<^verbatim>\<open>pow\<close>
  has a somewhat larger error).
\<close>

definition normal :: "'f arith \<Rightarrow> real \<Rightarrow> real \<Rightarrow> 'f \<Rightarrow> bool" where
  "normal A lo hi x = (is_finite A x \<and> lo \<le> \<bar>real_of A x\<bar> \<and> \<bar>real_of A x\<bar> \<le> hi)"

definition close_to :: "real \<Rightarrow> real \<Rightarrow> real \<Rightarrow> bool" where
  "close_to u r z = (\<bar>z - r\<bar> \<le> u * \<bar>r\<bar>)"

text \<open>
  An operation on finite operands inside its domain neither overflows nor underflows
  when the exact result is within the normal range: it returns a finite number. And a
  finite number that it returns is close to the exact result when the exact result, or
  the returned number, is within the normal range.
\<close>

definition accurate ::
  "'f arith \<Rightarrow> real \<Rightarrow> real \<Rightarrow> real \<Rightarrow> ('f \<Rightarrow> 'f \<Rightarrow> py_error + 'f) \<Rightarrow>
   (real \<Rightarrow> real \<Rightarrow> bool) \<Rightarrow> (real \<Rightarrow> real \<Rightarrow> real) \<Rightarrow> bool" where
  "accurate A u lo hi oper inside exact =
     (\<forall>x y. is_finite A x \<and> is_finite A y \<and> inside (real_of A x) (real_of A y) \<longrightarrow>
        (lo \<le> \<bar>exact (real_of A x) (real_of A y)\<bar> \<and> \<bar>exact (real_of A x) (real_of A y)\<bar> \<le> hi \<longrightarrow>
           (\<exists>z. oper x y = Inr z \<and> is_finite A z)) \<and>
        (\<forall>z. oper x y = Inr z \<and> is_finite A z \<and>
             (lo \<le> \<bar>exact (real_of A x) (real_of A y)\<bar> \<and>
              \<bar>exact (real_of A x) (real_of A y)\<bar> \<le> hi \<or> normal A lo hi z) \<longrightarrow>
           close_to u (exact (real_of A x) (real_of A y)) (real_of A z)))"

text \<open>
  The standard model, for the five operators that the steady state involves. The side
  conditions on the range hold for binary64, where \<open>lo * hi\<close> is almost \<open>4\<close>.
\<close>

definition standard_model :: "'f arith \<Rightarrow> real \<Rightarrow> real \<Rightarrow> real \<Rightarrow> bool" where
  "standard_model A u lo hi =
     (0 \<le> u \<and> u < 1 \<and> 0 < lo \<and> lo \<le> 1 / 2 \<and> 1 \<le> (1 - u) * lo * hi \<and>
      is_finite A (f_lit A 1) \<and> real_of A (f_lit A 1) = 1 \<and>
      accurate A u lo hi (\<lambda>x y. Inr (f_sub A x y)) (\<lambda>x y. True) (\<lambda>x y. x - y) \<and>
      accurate A u lo hi (\<lambda>x y. Inr (f_mul A x y)) (\<lambda>x y. True) (\<lambda>x y. x * y) \<and>
      accurate A u lo hi (f_div A) (\<lambda>x y. y \<noteq> 0) (\<lambda>x y. x / y) \<and>
      accurate A u lo hi (f_pow A) (\<lambda>x y. 0 < x) (\<lambda>x y. x powr y) \<and>
      accurate A u lo hi (\<lambda>x y. Inr (np_pow A x y)) (\<lambda>x y. 0 < x) (\<lambda>x y. x powr y))"

section \<open>An arithmetic to run the figures on data\<close>

text \<open>
  Exact arithmetic on the real numbers, with \<^const>\<open>None\<close> for every value that is not a
  finite real number (an infinity, \<open>nan\<close>, a complex number), and with the range of
  binary64 for \<^verbatim>\<open>**\<close>, which raises \<^verbatim>\<open>OverflowError\<close> when the power is \<open>2^1024\<close> or
  more. It computes what binary64 computes as long as every intermediate result is
  representable, as in the examples below, and it meets the standard model.
\<close>

definition lift2 :: "(real \<Rightarrow> real \<Rightarrow> real) \<Rightarrow> real option \<Rightarrow> real option \<Rightarrow> real option" where
  "lift2 f a b =
     (case a of None \<Rightarrow> None | Some x \<Rightarrow> (case b of None \<Rightarrow> None | Some y \<Rightarrow> Some (f x y)))"

definition exact_div :: "real option \<Rightarrow> real option \<Rightarrow> py_error + real option" where
  "exact_div a b = (if b = Some 0 then Inl ZeroDivisionError else Inr (lift2 (\<lambda>x y. x / y) a b))"

definition real_power :: "real \<Rightarrow> real \<Rightarrow> real option" where
  "real_power x y =
     (if 0 < x then Some (x powr y)
      else if x = 0 then (if y = 0 then Some 1 else if 0 < y then Some 0 else None)
      else if y \<in> \<int> then Some (x powi \<lfloor>y\<rfloor>)
      else None)"

definition exact_np_pow :: "real option \<Rightarrow> real option \<Rightarrow> real option" where
  "exact_np_pow a b =
     (case a of None \<Rightarrow> None | Some x \<Rightarrow> (case b of None \<Rightarrow> None | Some y \<Rightarrow> real_power x y))"

definition overflow_threshold :: real where
  "overflow_threshold = 2 ^ 1024"

definition exact_pow :: "real option \<Rightarrow> real option \<Rightarrow> py_error + real option" where
  "exact_pow a b =
     (case a of
        None \<Rightarrow> Inr None
      | Some x \<Rightarrow>
          (case b of
             None \<Rightarrow> Inr None
           | Some y \<Rightarrow>
               if x = 0 \<and> y < 0 then Inl ZeroDivisionError
               else (case real_power x y of
                       None \<Rightarrow> Inr None
                     | Some r \<Rightarrow>
                         if overflow_threshold \<le> \<bar>r\<bar> then Inl OverflowError
                         else Inr (Some r))))"

definition exact_gt :: "real option \<Rightarrow> real option \<Rightarrow> bool" where
  "exact_gt a b = (case a of None \<Rightarrow> False | Some x \<Rightarrow> (case b of None \<Rightarrow> False | Some y \<Rightarrow> y < x))"

definition exact_linspace :: "real option \<Rightarrow> real option \<Rightarrow> nat \<Rightarrow> real option list" where
  "exact_linspace a b n =
     (case a of
        None \<Rightarrow> replicate n None
      | Some x \<Rightarrow> (case b of None \<Rightarrow> replicate n None | Some y \<Rightarrow> map Some (linspace x y n)))"

definition exact_arith :: "real option arith" where
  "exact_arith =
     \<lparr>f_lit = Some, f_add = lift2 (\<lambda>x y. x + y), f_sub = lift2 (\<lambda>x y. x - y),
      f_mul = lift2 (\<lambda>x y. x * y), f_div = exact_div, f_pow = exact_pow,
      np_pow = exact_np_pow, np_abs = map_option abs, f_gt = exact_gt,
      np_linspace = exact_linspace,
      is_finite = (\<lambda>a. a \<noteq> None), real_of = (\<lambda>a. case a of None \<Rightarrow> 0 | Some x \<Rightarrow> x)\<rparr>"

text \<open>
  The same arithmetic with an inexact power for arrays: every finite result of numpy's
  \<^verbatim>\<open>**\<close> is too large by one part in \<open>1024\<close>. It stands in for a platform whose
  \<^verbatim>\<open>pow\<close> rounds.
\<close>

definition pow_excess :: real where
  "pow_excess = 1 + 1 / 1024"

definition inexact_np_pow :: "real option \<Rightarrow> real option \<Rightarrow> real option" where
  "inexact_np_pow a b = map_option (\<lambda>r. r * pow_excess) (exact_np_pow a b)"

definition inexact_arith :: "real option arith" where
  "inexact_arith = exact_arith\<lparr>np_pow := inexact_np_pow\<rparr>"

section \<open>Alternative-Combos-Of-Parameter-Values: distribution summaries\<close>

text \<open>
  Of a simulated agent type the two summary functions read the attributes \<open>aLvl\<close> and
  \<open>MPCnow\<close>, arrays with one entry per simulated consumer.
\<close>

record AgentType =
  aLvl :: "real list"
  MPCnow :: "real list"

text \<open>\<^verbatim>\<open>np.concatenate\<close> of a list of arrays raises on the empty list.\<close>

definition np_concatenate :: "real list list \<Rightarrow> py_error + real list" where
  "np_concatenate arrays = (if arrays = [] then Inl ValueError else Inr (concat arrays))"

definition lorenz_SCF :: "real list" where
  "lorenz_SCF = [- 183091 / 100000000, 104425 / 10000000, 552605 / 10000000, 1751907 / 10000000]"

text \<open>
  \<^verbatim>\<open>
  def calcLorenzDistance(SomeTypes):
      lorenz_SCF = np.array([-0.00183091,  0.0104425 ,  0.0552605 ,  0.1751907 ])
      aLvl_sim = np.concatenate([ThisType.aLvl for ThisType in MyTypes])
      lorenz_sim = get_lorenz_shares(aLvl_sim,percentiles=[0.2,0.4,0.6,0.8])
      lorenz_distance = np.sqrt(np.sum((lorenz_SCF - lorenz_sim)**2))
      return lorenz_distance
  \<close>
  The body reads the notebook's global \<open>MyTypes\<close>, so the global is an argument of the
  model next to the function's own parameter \<open>SomeTypes\<close>. The toolkit's
  \<open>get_lorenz_shares\<close> is a parameter.
\<close>

definition calcLorenzDistance ::
  "(real list \<Rightarrow> real list \<Rightarrow> real list) \<Rightarrow> AgentType list \<Rightarrow> AgentType list \<Rightarrow> py_error + real" where
  "calcLorenzDistance get_lorenz_shares MyTypes SomeTypes =
     bind_err (np_concatenate (map aLvl MyTypes)) (\<lambda>aLvl_sim.
     let lorenz_sim = get_lorenz_shares aLvl_sim [2 / 10, 4 / 10, 6 / 10, 8 / 10] in
     bind_err (np_broadcast (\<lambda>x y. x - y) lorenz_SCF lorenz_sim) (\<lambda>d.
       Inr (sqrt (sum_list (map (\<lambda>x. x ^ 2) d)))))"





section \<open>Calls into the external toolkit and their order\<close>

text \<open>
  The three toolkit methods the notebooks call on an agent. The toolkit is a parameter
  that, for a method and the agent's current state, either raises or returns the
  agent's next state. Every call is logged: an \<open>Invoke\<close> event when it starts, then
  \<open>Return\<close> when it completes or \<open>Raise\<close> with the exception. Agents are named in the
  log by an identifier: the position in \<open>MyTypes\<close>, or the notebook variable.
\<close>

datatype tk_method = Solve | InitializeSim | Simulate

datatype 'id event =
    Invoke 'id tk_method
  | Return 'id tk_method
  | Raise 'id tk_method py_error

definition method_call ::
  "(tk_method \<Rightarrow> 'ag \<Rightarrow> py_error + 'ag) \<Rightarrow> 'id \<Rightarrow> tk_method \<Rightarrow> 'ag \<Rightarrow> 'id event list \<Rightarrow>
   (py_error + 'ag) \<times> 'id event list" where
  "method_call toolkit i m ag evs =
     (case toolkit m ag of
        Inl e \<Rightarrow> (Inl e, evs @ [Invoke i m, Raise i m e])
      | Inr ag' \<Rightarrow> (Inr ag', evs @ [Invoke i m, Return i m]))"

text \<open>
  Three statements in a row, with no \<^verbatim>\<open>try\<close> around them:
  \<^verbatim>\<open>
  ThisType.solve()
  ThisType.initialize_sim()
  ThisType.simulate()
  \<close>
\<close>

definition solve_and_simulate ::
  "(tk_method \<Rightarrow> 'ag \<Rightarrow> py_error + 'ag) \<Rightarrow> 'id \<Rightarrow> 'ag \<Rightarrow> 'id event list \<Rightarrow>
   (py_error + 'ag) \<times> 'id event list" where
  "solve_and_simulate toolkit i ag evs =
     (case method_call toolkit i Solve ag evs of
        (Inl e, evs1) \<Rightarrow> (Inl e, evs1)
      | (Inr ag1, evs1) \<Rightarrow>
          (case method_call toolkit i InitializeSim ag1 evs1 of
             (Inl e, evs2) \<Rightarrow> (Inl e, evs2)
           | (Inr ag2, evs2) \<Rightarrow> method_call toolkit i Simulate ag2 evs2))"

text \<open>
  \<^verbatim>\<open>
  for ThisType in tqdm(MyTypes):
      ThisType.solve()
      ThisType.initialize_sim()
      ThisType.simulate()
  \<close>
  \<open>tqdm\<close> yields the list's elements in order and draws a progress bar, which is not
  modelled. The entries of \<open>MyTypes\<close> are taken to be distinct objects, named by their
  position; the loop returns the list of the agents' states after the calls.
\<close>

fun for_ThisType ::
  "(tk_method \<Rightarrow> 'ag \<Rightarrow> py_error + 'ag) \<Rightarrow> nat \<Rightarrow> 'ag list \<Rightarrow> nat event list \<Rightarrow>
   (py_error + 'ag list) \<times> nat event list" where
  "for_ThisType toolkit i [] evs = (Inr [], evs)"
| "for_ThisType toolkit i (ThisType # rest) evs =
     (case solve_and_simulate toolkit i ThisType evs of
        (Inl e, evs1) \<Rightarrow> (Inl e, evs1)
      | (Inr ag, evs1) \<Rightarrow>
          (case for_ThisType toolkit (Suc i) rest evs1 of
             (Inl e, evs2) \<Rightarrow> (Inl e, evs2)
           | (Inr rest', evs2) \<Rightarrow> (Inr (ag # rest'), evs2)))"

definition simulate_cell ::
  "(tk_method \<Rightarrow> 'ag \<Rightarrow> py_error + 'ag) \<Rightarrow> 'ag list \<Rightarrow> (py_error + 'ag list) \<times> nat event list" where
  "simulate_cell toolkit MyTypes = for_ThisType toolkit 0 MyTypes []"

text \<open>The events one agent contributes when all three calls complete.\<close>

definition completed_calls :: "'id \<Rightarrow> 'id event list" where
  "completed_calls i =
     [Invoke i Solve, Return i Solve, Invoke i InitializeSim, Return i InitializeSim,
      Invoke i Simulate, Return i Simulate]"

text \<open>The methods invoked on agent \<open>i\<close>, in log order.\<close>

fun invoked_on :: "'id \<Rightarrow> 'id event list \<Rightarrow> tk_method list" where
  "invoked_on i [] = []"
| "invoked_on i (Invoke j m # es) = (if i = j then m # invoked_on i es else invoked_on i es)"
| "invoked_on i (_ # es) = invoked_on i es"

fun is_Raise :: "'id event \<Rightarrow> bool" where
  "is_Raise (Raise i m e) = True"
| "is_Raise _ = False"


definition solve_before_simulate :: "'id event list \<Rightarrow> bool" where
  "solve_before_simulate evs =
     (\<forall>pre post i. evs = pre @ Invoke i Simulate # post \<longrightarrow> Return i Solve \<in> set pre)"

text \<open>The exception a computation ended with, if any.\<close>

definition failure :: "py_error + 'a \<Rightarrow> py_error option" where
  "failure r = (case r of Inl e \<Rightarrow> Some e | Inr x \<Rightarrow> None)"

text \<open>The agent an event is about.\<close>

fun agent_of :: "'id event \<Rightarrow> 'id" where
  "agent_of (Invoke i m) = i"
| "agent_of (Return i m) = i"
| "agent_of (Raise i m e) = i"

text \<open>The events of three calls in a row, by outcome.\<close>

definition run_shape :: "'id \<Rightarrow> py_error option \<Rightarrow> 'id event list \<Rightarrow> bool" where
  "run_shape i f sfx =
     (case f of
        None \<Rightarrow> sfx = completed_calls i
      | Some e \<Rightarrow>
          sfx = [Invoke i Solve, Raise i Solve e] \<or>
          sfx = [Invoke i Solve, Return i Solve, Invoke i InitializeSim, Raise i InitializeSim e] \<or>
          sfx = [Invoke i Solve, Return i Solve, Invoke i InitializeSim, Return i InitializeSim,
                 Invoke i Simulate, Raise i Simulate e])"

text \<open>A raised exception is the last event of a run and is the run's outcome.\<close>

definition raise_ends_run :: "py_error option \<Rightarrow> 'id event list \<Rightarrow> bool" where
  "raise_ends_run f sfx =
     (\<forall>pre post j m e. sfx = pre @ Raise j m e # post \<longrightarrow> post = [] \<and> f = Some e)"

section \<open>LC-Model-Expected-Vs-Realized-Income-Growth: parameter dictionaries and agents\<close>

text \<open>
  Python values that occur in a parameter dictionary, and dictionaries as finite maps
  from keys to values. Dictionaries are objects: a variable holds the address of one in
  a store, so that a shallow \<^verbatim>\<open>copy\<close> (a new object with the same entries) and an
  alias (the same address) differ. Lists inside a dictionary are values here: no
  notebook statement changes a list in place, and the toolkit is taken not to do so.
\<close>

datatype pyval =
    PyFloat real
  | PyInt int
  | PyStr string
  | PyBool bool
  | PyNone
  | PyList "pyval list"

type_synonym dict = "string \<rightharpoonup> pyval"

definition copy_dict :: "nat \<Rightarrow> dict list \<Rightarrow> nat \<times> dict list" where
  "copy_dict a store = (length store, store @ [store ! a])"

definition update_dict :: "nat \<Rightarrow> string \<Rightarrow> pyval \<Rightarrow> dict list \<Rightarrow> dict list" where
  "update_dict a k v store = store[a := (store ! a)(k \<mapsto> v)]"

definition dict_get :: "dict \<Rightarrow> string \<Rightarrow> py_error + pyval" where
  "dict_get d k = (case d k of None \<Rightarrow> Inl KeyError | Some v \<Rightarrow> Inr v)"

fun py_len :: "pyval \<Rightarrow> py_error + nat" where
  "py_len (PyList xs) = Inr (length xs)"
| "py_len (PyStr s) = Inr (length s)"
| "py_len _ = Inl TypeError"

datatype lc_agent = Agent | Agent_nt

text \<open>
  The notebook's variables that matter here: the store of dictionary objects, the
  addresses bound to \<open>params_no_transitory\<close>, the two agents, and the log of toolkit
  calls. The address bound to \<open>params\<close> never changes and is a parameter of the cells.
  The last field collects the exceptions that ended the body of a \<^verbatim>\<open>%%capture\<close> cell;
  their tracebacks go to the captured output, which these cells discard.
\<close>

record 'ag lc_state =
  dict_objects :: "dict list"
  params_no_transitory :: "nat option"
  Agent_obj :: "'ag option"
  Agent_nt_obj :: "'ag option"
  lc_events :: "lc_agent event list"
  captured :: "py_error list"

text \<open>
  The end of the calibration cell. The constructor receives the dictionary's entries as
  keyword arguments (\<^verbatim>\<open>**params\<close>), not the dictionary object; it is the toolkit's
  and is a parameter.
  \<^verbatim>\<open>
  Agent = IndShockConsumerType(**params)
  Agent.solve()
  \<close>
\<close>

definition solve_cell ::
  "(dict \<Rightarrow> py_error + 'ag) \<Rightarrow> (tk_method \<Rightarrow> 'ag \<Rightarrow> py_error + 'ag) \<Rightarrow> nat \<Rightarrow>
   'ag lc_state \<Rightarrow> (py_error + unit) \<times> 'ag lc_state" where
  "solve_cell new_agent toolkit params st =
     (case new_agent (dict_objects st ! params) of
        Inl e \<Rightarrow> (Inl e, st)
      | Inr ag \<Rightarrow>
          (case method_call toolkit Agent Solve ag (lc_events st) of
             (Inl e, evs) \<Rightarrow> (Inl e, st\<lparr>Agent_obj := Some ag, lc_events := evs\<rparr>)
           | (Inr ag', evs) \<Rightarrow> (Inr (), st\<lparr>Agent_obj := Some ag', lc_events := evs\<rparr>)))"

text \<open>
  The body of the simulation cell, which is headed by \<^verbatim>\<open>%%capture\<close>:
  \<^verbatim>\<open>
  Agent.initialize_sim()
  Agent.simulate()
  \<close>
\<close>

definition simulate_Agent_cell ::
  "(tk_method \<Rightarrow> 'ag \<Rightarrow> py_error + 'ag) \<Rightarrow> 'ag lc_state \<Rightarrow> (py_error + unit) \<times> 'ag lc_state" where
  "simulate_Agent_cell toolkit st =
     (case Agent_obj st of
        None \<Rightarrow> (Inl NameError, st)
      | Some ag \<Rightarrow>
          (case method_call toolkit Agent InitializeSim ag (lc_events st) of
             (Inl e, evs1) \<Rightarrow> (Inl e, st\<lparr>lc_events := evs1\<rparr>)
           | (Inr ag1, evs1) \<Rightarrow>
               (case method_call toolkit Agent Simulate ag1 evs1 of
                  (Inl e, evs2) \<Rightarrow> (Inl e, st\<lparr>Agent_obj := Some ag1, lc_events := evs2\<rparr>)
                | (Inr ag2, evs2) \<Rightarrow>
                    (Inr (), st\<lparr>Agent_obj := Some ag2, lc_events := evs2\<rparr>))))"

text \<open>
  The body of the cell without transitory shocks, also headed by \<^verbatim>\<open>%%capture\<close>:
  \<^verbatim>\<open>
  params_no_transitory = copy(params)
  params_no_transitory.update({"TranShkStd": [0.0] * len(params["TranShkStd"])})
  Agent_nt = IndShockConsumerType(**params_no_transitory)
  Agent_nt.solve()
  Agent_nt.initialize_sim()
  Agent_nt.simulate()
  \<close>
\<close>

definition no_transitory_cell ::
  "(dict \<Rightarrow> py_error + 'ag) \<Rightarrow> (tk_method \<Rightarrow> 'ag \<Rightarrow> py_error + 'ag) \<Rightarrow> nat \<Rightarrow>
   'ag lc_state \<Rightarrow> (py_error + unit) \<times> 'ag lc_state" where
  "no_transitory_cell new_agent toolkit params st =
     (let (a, store1) = copy_dict params (dict_objects st);
          st1 = st\<lparr>dict_objects := store1, params_no_transitory := Some a\<rparr>
      in case bind_err (dict_get (store1 ! params) ''TranShkStd'') py_len of
           Inl e \<Rightarrow> (Inl e, st1)
         | Inr n \<Rightarrow>
             (let st2 = st1\<lparr>dict_objects :=
                          update_dict a ''TranShkStd'' (PyList (replicate n (PyFloat 0))) store1\<rparr>
              in case new_agent (dict_objects st2 ! a) of
                   Inl e \<Rightarrow> (Inl e, st2)
                 | Inr ag \<Rightarrow>
                     (case solve_and_simulate toolkit Agent_nt ag (lc_events st2) of
                        (Inl e, evs) \<Rightarrow>
                          (Inl e, st2\<lparr>Agent_nt_obj := Some ag, lc_events := evs\<rparr>)
                      | (Inr ag', evs) \<Rightarrow>
                          (Inr (), st2\<lparr>Agent_nt_obj := Some ag', lc_events := evs\<rparr>))))"

text \<open>
  The cell magic \<^verbatim>\<open>%%capture\<close> hands the body to a nested \<open>run_cell\<close>. That call
  runs the body's statements in order up to the first one that raises, sends the
  traceback to the captured output and returns: the cell itself completes, whatever its
  body did.
\<close>

definition capture ::
  "('ag lc_state \<Rightarrow> (py_error + unit) \<times> 'ag lc_state) \<Rightarrow>
   'ag lc_state \<Rightarrow> (py_error + unit) \<times> 'ag lc_state" where
  "capture body st =
     (case body st of
        (Inl e, st') \<Rightarrow> (Inr (), st'\<lparr>captured := captured st' @ [e]\<rparr>)
      | (Inr u, st') \<Rightarrow> (Inr u, st'))"

text \<open>
  The cells that build the regression data and fit the panel regressions call none of
  the three methods and write to neither dictionary; they read what the simulation left
  and may raise. Whether they do is a parameter.
\<close>

definition regression_cells ::
  "('ag lc_state \<Rightarrow> py_error + unit) \<Rightarrow> 'ag lc_state \<Rightarrow> (py_error + unit) \<times> 'ag lc_state" where
  "regression_cells outcome st = (outcome st, st)"

text \<open>
  Cells run top to bottom, and a run stops at the first cell that does not complete.
  The calibration statements that build \<open>params\<close> are taken as done.
\<close>

fun run_cells :: "('s \<Rightarrow> (py_error + unit) \<times> 's) list \<Rightarrow> 's \<Rightarrow> (py_error + unit) \<times> 's" where
  "run_cells [] st = (Inr (), st)"
| "run_cells (c # cs) st =
     (case c st of (Inl e, st') \<Rightarrow> (Inl e, st') | (Inr u, st') \<Rightarrow> run_cells cs st')"

definition lc_notebook ::
  "(dict \<Rightarrow> py_error + 'ag) \<Rightarrow> (tk_method \<Rightarrow> 'ag \<Rightarrow> py_error + 'ag) \<Rightarrow>
   ('ag lc_state \<Rightarrow> py_error + unit) \<Rightarrow> ('ag lc_state \<Rightarrow> py_error + unit) \<Rightarrow> nat \<Rightarrow>
   'ag lc_state \<Rightarrow> (py_error + unit) \<times> 'ag lc_state" where
  "lc_notebook new_agent toolkit regressions regressions_nt params st =
     run_cells [solve_cell new_agent toolkit params,
                capture (simulate_Agent_cell toolkit),
                regression_cells regressions,
                capture (no_transitory_cell new_agent toolkit params),
                regression_cells regressions_nt] st"

text \<open>
  A start state for running the notebook on concrete data: one dictionary object at
  address \<open>0\<close> (bound to \<open>params\<close>), no agents yet, an empty log, nothing captured.
  As stand-ins for the toolkit, an agent is the dictionary it was built from, and the
  second toolkit fails in \<open>simulate\<close> for an agent with transitory shocks.
\<close>

definition lc_start :: "'ag lc_state" where
  "lc_start = \<lparr>dict_objects = [[''TranShkStd'' \<mapsto> PyList [PyFloat (1 / 10), PyFloat (2 / 10)],
                                 ''AgentCount'' \<mapsto> PyInt 200]],
               params_no_transitory = None, Agent_obj = None, Agent_nt_obj = None,
               lc_events = [], captured = []\<rparr>"

definition example_new_agent :: "dict \<Rightarrow> py_error + dict" where
  "example_new_agent d = Inr d"


definition failing_toolkit :: "tk_method \<Rightarrow> dict \<Rightarrow> py_error + dict" where
  "failing_toolkit m ag =
     (if m = Simulate \<and> ag ''TranShkStd'' \<noteq> Some (PyList [PyFloat 0, PyFloat 0])
      then Inl ToolkitError else Inr ag)"

definition no_failure :: "'s \<Rightarrow> py_error + unit" where
  "no_failure st = Inr ()"

text \<open>
  Concrete agents and solvers for running the cells on data. In the saving-rate notebook
  the solver installs the consumption function \<open>m \<mapsto> m / 2\<close>; for the figures of
  DiamondOLG it installs \<open>m \<mapsto> m - 1\<close> in the exact arithmetic.
\<close>

definition fresh_example :: "real PFagent" where
  "fresh_example = \<lparr>attr_cycles = 0, attr_T_cycle = 1, attr_PermGroFac = [1], attr_LivPrb = [1],
                     attr_DiscFac = 1, attr_CRRA = 2, solution = []\<rparr>"

definition solve_example :: "real PFagent \<Rightarrow> py_error + real PFagent" where
  "solve_example ag = Inr (ag\<lparr>solution := [\<lparr>cFunc = \<lambda>m. m / 2\<rparr>]\<rparr>)"

definition fresh_olg :: "real option PFagent" where
  "fresh_olg = \<lparr>attr_cycles = 0, attr_T_cycle = 1, attr_PermGroFac = [Some 1],
                 attr_LivPrb = [Some 1], attr_DiscFac = Some 1, attr_CRRA = Some 2,
                 solution = []\<rparr>"

definition solve_olg :: "real option PFagent \<Rightarrow> py_error + real option PFagent" where
  "solve_olg ag = Inr (ag\<lparr>solution := [\<lparr>cFunc = map_option (\<lambda>m. m - 1)\<rparr>]\<rparr>)"

section \<open>Properties of the saving-rate cell\<close>

lemma length_linspace: "linspace a b n = xs \<Longrightarrow> length xs = n"
  by (auto simp: linspace_def)

lemma a_tm1_nth: "i < 50 \<Longrightarrow> a_tm1 ! i = - 1 + real i * (5 / 49)"
  by (simp add: a_tm1_def linspace_def)

lemma length_a_tm1: "length a_tm1 = 50"
  by (simp add: a_tm1_def linspace_def)

lemma a_tm1_lower: "a \<in> set a_tm1 \<Longrightarrow> - 1 \<le> a"
  by (auto simp: a_tm1_def linspace_def)

lemma length_PermGroFac: "length savrate_PermGroFac = 1"
  by (simp add: savrate_PermGroFac_def)

lemma broadcast_scalar_list:
  "length ys = 1 \<Longrightarrow> length xs = 50 \<Longrightarrow> np_broadcast f xs ys = Inr (map (\<lambda>x. f x (hd ys)) xs)"
  by (simp add: np_broadcast_def)

lemma broadcast_same_length:
  "length xs = length ys \<Longrightarrow> np_broadcast f xs ys = Inr (map (\<lambda>(x, y). f x y) (zip xs ys))"
  by (simp add: np_broadcast_def)

lemma cap_income_t_eq:
  "cap_income_t = Inr (map (\<lambda>a. a * (savrate_Rfree - 1) / hd savrate_PermGroFac) a_tm1)"
  unfolding cap_income_t_def
  by (subst broadcast_scalar_list) (simp_all add: length_PermGroFac length_a_tm1 comp_def)

lemma m_t_eq:
  "m_t = Inr (map (\<lambda>a. a * savrate_Rfree / hd savrate_PermGroFac + 1) a_tm1)"
  unfolding m_t_def
  by (subst broadcast_scalar_list) (simp_all add: length_PermGroFac length_a_tm1 comp_def)

lemma sav_rate_denominator_eq:
  "sav_rate_denominator =
     Inr (map (\<lambda>a. a * (savrate_Rfree - 1) / hd savrate_PermGroFac + 1) a_tm1)"
  by (simp add: sav_rate_denominator_def cap_income_t_eq lab_income_t_def comp_def)

lemma denominator_positive:
  assumes "- 1 \<le> (a::real)"
  shows "0 < a * (savrate_Rfree - 1) / hd savrate_PermGroFac + 1"
proof -
  have r: "savrate_Rfree - 1 = 3 / 100"
    by (simp add: savrate_Rfree_def)
  have g: "hd savrate_PermGroFac = 101 / 100"
    by (simp add: savrate_PermGroFac_def)
  have eq: "a * (savrate_Rfree - 1) / hd savrate_PermGroFac + 1 = (3 * a + 101) / 101"
    unfolding r g by (simp add: field_simps)
  have "0 < (3 * a + 101) / 101"
    using assms by simp
  then show ?thesis
    unfolding eq .
qed

text \<open>
  C10. For every grid point \<open>a\<close> of \<^verbatim>\<open>np.linspace(-1, 4)\<close>, with \<open>Rfree = 1.03\<close> and
  \<open>PermGroFac = 1.01\<close>, the divisor \<^verbatim>\<open>cap_income_t + lab_income_t\<close> of the saving-rate
  expression is \<open>a * (Rfree - 1) / PermGroFac + 1\<close> and is strictly positive, so no entry of
  the saving rate is the result of a division by zero, whatever the consumption function.
\<close>

theorem sav_rate_no_division_by_zero:
  "\<exists>den. sav_rate_denominator = Inr den \<and> length den = length a_tm1 \<and>
     (\<forall>i < length a_tm1.
        den ! i = a_tm1 ! i * (savrate_Rfree - 1) / hd savrate_PermGroFac + 1 \<and> 0 < den ! i) \<and>
     (\<exists>rates. sav_rate_t consumption = Inr rates \<and> length rates = length a_tm1 \<and>
        (\<forall>i < length a_tm1. rates ! i \<noteq> None))"
proof -
  define den where "den = map (\<lambda>a. a * (savrate_Rfree - 1) / hd savrate_PermGroFac + 1) a_tm1"
  define m where "m = map (\<lambda>a. a * savrate_Rfree / hd savrate_PermGroFac + 1) a_tm1"
  define num where "num = map (\<lambda>(x, y). x - y) (zip den (map consumption m))"
  define rates where "rates = map (\<lambda>(x, y). np_divide x y) (zip num den)"
  have len: "length den = length a_tm1" "length m = length a_tm1"
    "length num = length a_tm1" "length rates = length a_tm1"
    by (simp_all add: den_def m_def num_def rates_def)
  have den_nth: "den ! i = a_tm1 ! i * (savrate_Rfree - 1) / hd savrate_PermGroFac + 1"
    if "i < length a_tm1" for i
    using that by (simp add: den_def)
  have pos: "0 < den ! i" if "i < length a_tm1" for i
    unfolding den_nth [OF that]
    by (rule denominator_positive [OF a_tm1_lower [OF nth_mem [OF that]]])
  have D: "sav_rate_denominator = Inr den"
    by (simp add: sav_rate_denominator_eq den_def)
  have "np_broadcast (\<lambda>x y. x - y) den (map consumption m) = Inr num"
    unfolding num_def by (rule broadcast_same_length) (simp add: len)
  moreover have "np_broadcast np_divide num den = Inr rates"
    unfolding rates_def by (rule broadcast_same_length) (simp add: len)
  ultimately have R: "sav_rate_t consumption = Inr rates"
    by (simp add: sav_rate_t_def cap_income_t_eq m_t_eq lab_income_t_def comp_def Let_def
        den_def [symmetric] m_def [symmetric])
  have "rates ! i \<noteq> None" if "i < length a_tm1" for i
  proof -
    have "rates ! i = np_divide (num ! i) (den ! i)"
      using that len by (simp add: rates_def)
    moreover have "den ! i \<noteq> 0" using pos [OF that] by simp
    ultimately show ?thesis by (simp add: np_divide_def)
  qed
  with D R len den_nth pos show ?thesis by blast
qed

theorem sav_rate_no_division_by_zero_witness:
  "(0::nat) < length a_tm1 \<and>
   (\<exists>den. sav_rate_denominator = Inr den \<and>
      den ! 0 = a_tm1 ! 0 * (savrate_Rfree - 1) / hd savrate_PermGroFac + 1 \<and> 0 < den ! 0 \<and>
      (\<exists>rates. sav_rate_t (\<lambda>m. m / 2) = Inr rates \<and> rates ! 0 \<noteq> None))"
proof -
  have h: "(0::nat) < length a_tm1"
    by (simp add: length_a_tm1)
  from sav_rate_no_division_by_zero [of "\<lambda>m. m / 2"] h show ?thesis
    by blast
qed

section \<open>DiamondOLG: the steady state marker\<close>

subsection \<open>Accumulated rounding error\<close>

lemma close_to_pos:
  assumes "close_to u r z" "0 < r" "0 \<le> u" "u < 1"
  shows "0 < z" "\<bar>ln (z / r)\<bar> \<le> u / (1 - u)"
proof -
  from assms(1) have d: "\<bar>z - r\<bar> \<le> u * r"
    using assms(2) by (simp add: close_to_def)
  then have lo: "(1 - u) * r \<le> z" and hi: "z \<le> (1 + u) * r"
    by (simp_all add: algebra_simps abs_le_iff)
  have "0 < (1 - u) * r"
    using assms by simp
  with lo show z: "0 < z" by linarith
  define t where "t = z / r"
  have t: "0 < t" "1 - u \<le> t" "t \<le> 1 + u"
    using z assms(2) lo hi by (simp_all add: t_def field_simps)
  have up: "ln t \<le> u"
    using ln_le_minus_one [OF t(1)] t(3) by linarith
  have "ln (1 / t) \<le> 1 / t - 1"
    using ln_le_minus_one [of "1 / t"] t(1) by simp
  moreover have "1 / t \<le> 1 / (1 - u)"
    using t assms by (simp add: field_simps)
  moreover have "1 / (1 - u) - 1 = u / (1 - u)"
    using assms by (simp add: field_simps)
  moreover have "ln (1 / t) = - ln t"
    using t(1) by (simp add: ln_div)
  ultimately have dn: "- ln t \<le> u / (1 - u)"
    by linarith
  have "u \<le> u / (1 - u)"
    using assms by (simp add: field_simps mult_left_le)
  with up dn show "\<bar>ln (z / r)\<bar> \<le> u / (1 - u)"
    unfolding t_def [symmetric] by linarith
qed

lemma reciprocal_error:
  assumes u: "0 \<le> u" "u < 1" and a: "0 < a"
    and s: "close_to u a s" and e: "close_to u (1 / s) e"
  shows "\<bar>1 - a * e\<bar> \<le> 2 * (u / (1 - u))"
proof -
  from close_to_pos(1) [OF s a u] have sp: "0 < s" .
  from s a have sa: "\<bar>s - a\<bar> \<le> u * a"
    by (simp add: close_to_def)
  then have lo: "(1 - u) * a \<le> s"
    by (simp add: algebra_simps abs_le_iff)
  from e sp have "\<bar>e - 1 / s\<bar> \<le> u * (1 / s)"
    by (simp add: close_to_def)
  then have "\<bar>e - 1 / s\<bar> * s \<le> u * (1 / s) * s"
    using sp by (intro mult_right_mono) auto
  moreover have "\<bar>e - 1 / s\<bar> * s = \<bar>(e - 1 / s) * s\<bar>"
    using sp by (simp add: abs_mult)
  moreover have "(e - 1 / s) * s = e * s - 1"
    using sp by (simp add: algebra_simps)
  moreover have "u * (1 / s) * s = u"
    using sp by simp
  ultimately have es: "\<bar>e * s - 1\<bar> \<le> u"
    by simp
  have ratio: "a / s \<le> 1 / (1 - u)"
    using lo sp u a by (simp add: field_simps)
  have ratio0: "0 \<le> a / s"
    using a sp by simp
  define t1 where "t1 = (e * s - 1) * (a / s)"
  define t2 where "t2 = (a - s) / s"
  have "a * e - 1 = t1 + t2"
    using sp by (simp add: t1_def t2_def field_simps)
  then have tri: "\<bar>a * e - 1\<bar> \<le> \<bar>t1\<bar> + \<bar>t2\<bar>"
    using abs_triangle_ineq [of t1 t2] by simp
  have "\<bar>t1\<bar> = \<bar>e * s - 1\<bar> * (a / s)"
    unfolding t1_def abs_mult using a sp by simp
  also have "\<bar>e * s - 1\<bar> * (a / s) \<le> u * (1 / (1 - u))"
    using es ratio ratio0 u by (intro mult_mono) auto
  finally have b1: "\<bar>t1\<bar> \<le> u * (1 / (1 - u))" .
  have "\<bar>t2\<bar> = \<bar>s - a\<bar> * (1 / s)"
    unfolding t2_def using sp by (simp add: abs_minus_commute)
  also have "\<bar>s - a\<bar> * (1 / s) \<le> (u * a) * (1 / s)"
    using sa sp by (intro mult_right_mono) auto
  also have "(u * a) * (1 / s) = u * (a / s)"
    by simp
  also have "u * (a / s) \<le> u * (1 / (1 - u))"
    using ratio u by (intro mult_left_mono) auto
  finally have b2: "\<bar>t2\<bar> \<le> u * (1 / (1 - u))" .
  from tri b1 b2 have "\<bar>a * e - 1\<bar> \<le> u * (1 / (1 - u)) + u * (1 / (1 - u))"
    by linarith
  then show ?thesis
    by (simp add: abs_minus_commute)
qed

lemma fixed_point_error:
  assumes u: "0 \<le> u" "u < 1"
    and eps: "0 < eps" "eps < 1"
    and q: "0 < q"
    and s: "close_to u (1 - eps) s"
    and e: "close_to u (1 / s) e"
    and kb: "close_to u (q powr e) kb"
    and w: "close_to u (kb powr eps) w"
    and y: "close_to u (q * w) y"
  shows "0 < kb" "0 < y" "\<bar>ln (y / kb)\<bar> \<le> (2 * \<bar>ln q\<bar> + 3) * (u / (1 - u))"
proof -
  define c where "c = u / (1 - u)"
  have c: "0 \<le> c"
    using u by (simp add: c_def)
  have a: "0 < 1 - eps"
    using eps by simp
  have qe: "0 < q powr e"
    using q by simp
  note k = close_to_pos [OF kb qe u]
  show kbp: "0 < kb" by (rule k(1))
  have ke: "0 < kb powr eps"
    using kbp by simp
  note ww = close_to_pos [OF w ke u]
  have qw: "0 < q * w"
    using q ww(1) by simp
  note yy = close_to_pos [OF y qw u]
  show yp: "0 < y" by (rule yy(1))
  define d3 where "d3 = ln (kb / q powr e)"
  define d4 where "d4 = ln (w / kb powr eps)"
  define d5 where "d5 = ln (y / (q * w))"
  have b3: "\<bar>d3\<bar> \<le> c" and b4: "\<bar>d4\<bar> \<le> c" and b5: "\<bar>d5\<bar> \<le> c"
    using k(2) ww(2) yy(2) by (simp_all add: d3_def d4_def d5_def c_def)
  have l3: "ln kb = e * ln q + d3"
    using kbp q qe by (simp add: d3_def ln_div ln_powr)
  have l4: "ln w = eps * ln kb + d4"
    using ww(1) kbp ke by (simp add: d4_def ln_div ln_powr)
  have l5: "ln y = ln q + ln w + d5"
    using yp q ww(1) qw by (simp add: d5_def ln_div ln_mult)
  have "ln (y / kb) = ln y - ln kb"
    using yp kbp by (simp add: ln_div)
  also have "\<dots> = (1 - (1 - eps) * e) * ln q - (1 - eps) * d3 + d4 + d5"
    unfolding l5 l4 l3 by (simp add: algebra_simps)
  finally have eq: "ln (y / kb) = (1 - (1 - eps) * e) * ln q - (1 - eps) * d3 + d4 + d5" .
  have r: "\<bar>1 - (1 - eps) * e\<bar> \<le> 2 * c"
    unfolding c_def by (rule reciprocal_error [OF u a s e])
  have t1: "\<bar>(1 - (1 - eps) * e) * ln q\<bar> \<le> 2 * c * \<bar>ln q\<bar>"
    unfolding abs_mult using r by (intro mult_right_mono) auto
  have "\<bar>(1 - eps) * d3\<bar> = (1 - eps) * \<bar>d3\<bar>"
    using a by (simp add: abs_mult)
  also have "\<dots> \<le> 1 * c"
    using b3 a eps c by (intro mult_mono) auto
  finally have t2: "\<bar>(1 - eps) * d3\<bar> \<le> c" by simp
  have "\<bar>ln (y / kb)\<bar> \<le> 2 * c * \<bar>ln q\<bar> + c + c + c"
    unfolding eq using t1 t2 b4 b5 by linarith
  also have "\<dots> = (2 * \<bar>ln q\<bar> + 3) * c"
    by (simp add: algebra_simps)
  finally show "\<bar>ln (y / kb)\<bar> \<le> (2 * \<bar>ln q\<bar> + 3) * (u / (1 - u))"
    unfolding c_def .
qed

subsection \<open>The marker of \<open>plot1\<close>\<close>

lemma accurate_returns:
  assumes "accurate A u lo hi oper inside exact"
    and "is_finite A x" "is_finite A y" "inside (real_of A x) (real_of A y)"
    and "lo \<le> \<bar>exact (real_of A x) (real_of A y)\<bar>" "\<bar>exact (real_of A x) (real_of A y)\<bar> \<le> hi"
  shows "\<exists>z. oper x y = Inr z \<and> is_finite A z \<and>
           close_to u (exact (real_of A x) (real_of A y)) (real_of A z)"
proof -
  from assms(1) [unfolded accurate_def, rule_format, of x y] assms(2-4)
  have c: "lo \<le> \<bar>exact (real_of A x) (real_of A y)\<bar> \<and> \<bar>exact (real_of A x) (real_of A y)\<bar> \<le> hi \<longrightarrow>
           (\<exists>z. oper x y = Inr z \<and> is_finite A z)"
    and d: "\<forall>z. oper x y = Inr z \<and> is_finite A z \<and>
             (lo \<le> \<bar>exact (real_of A x) (real_of A y)\<bar> \<and>
              \<bar>exact (real_of A x) (real_of A y)\<bar> \<le> hi \<or> normal A lo hi z) \<longrightarrow>
           close_to u (exact (real_of A x) (real_of A y)) (real_of A z)"
    by blast+
  from c assms(5,6) obtain z where "oper x y = Inr z" "is_finite A z"
    by blast
  with d assms(5,6) show ?thesis
    by blast
qed

lemma accurate_close:
  assumes "accurate A u lo hi oper inside exact"
    and "is_finite A x" "is_finite A y" "inside (real_of A x) (real_of A y)"
    and "oper x y = Inr z" "normal A lo hi z"
  shows "close_to u (exact (real_of A x) (real_of A y)) (real_of A z)"
proof -
  from assms(6) have "is_finite A z"
    by (simp add: normal_def)
  with assms(1) [unfolded accurate_def, rule_format, of x y] assms(2-6) show ?thesis
    by blast
qed

lemma plot_parameters_code:
  assumes "plot_parameters A Epsilon DiscFac PopGrowth YearsPerGeneration = Inr p"
  shows "\<exists>t e. f_pow A DiscFac YearsPerGeneration = Inr (Beta p) \<and>
           f_pow A PopGrowth YearsPerGeneration = Inr (xi p) \<and>
           f_div A (Beta p) (f_add A (f_lit A 1) (Beta p)) = Inr t \<and>
           f_div A (f_mul A (f_sub A (f_lit A 1) Epsilon) t) (xi p) = Inr (Q p) \<and>
           f_div A (f_lit A 1) (f_sub A (f_lit A 1) Epsilon) = Inr e \<and>
           f_pow A (Q p) e = Inr (kBar p)"
  using assms
  by (auto simp: plot_parameters_def bind_err_def split: sum.splits)

lemma powr_in_range:
  fixes lo hi k eps :: real
  assumes "0 < lo" "lo \<le> 1" "1 \<le> hi" "lo \<le> k" "k \<le> hi" "0 \<le> eps" "eps \<le> 1"
  shows "lo \<le> k powr eps" "k powr eps \<le> hi"
proof -
  have k: "0 < k" using assms by linarith
  show "lo \<le> k powr eps"
  proof (cases "1 \<le> k")
    case True
    then have "1 \<le> k powr eps"
      using assms by (simp add: ge_one_powr_ge_zero)
    with assms show ?thesis by linarith
  next
    case False
    then have "k powr 1 \<le> k powr eps"
      using k assms by (intro powr_mono') auto
    with k assms show ?thesis by simp
  qed
  show "k powr eps \<le> hi"
  proof (cases "1 \<le> k")
    case True
    then have "k powr eps \<le> k powr 1"
      using assms by (intro powr_mono) auto
    with k assms show ?thesis by simp
  next
    case False
    then have "k powr eps \<le> 1"
      using k assms by (intro powr_le1) auto
    with assms show ?thesis by linarith
  qed
qed

lemma plot1_step_drawn:
  "plot1_step A Epsilon x st = Inr st' \<Longrightarrow> \<exists>arrows. drawn st' = drawn st @ arrows"
  by (auto simp: plot1_step_def bind_err_def Let_def split: sum.splits)

lemma plot1_path_drawn:
  "plot1_path n A Epsilon x st = Inr st' \<Longrightarrow> \<exists>arrows. drawn st' = drawn st @ arrows"
proof (induction n arbitrary: st)
  case 0
  then show ?case by simp
next
  case (Suc n)
  then obtain st1 where s: "plot1_step A Epsilon x st = Inr st1"
    "plot1_path n A Epsilon x st1 = Inr st'"
    by (auto simp: bind_err_def split: sum.splits)
  from plot1_step_drawn [OF s(1)] Suc.IH [OF s(2)] show ?case
    by auto
qed

lemma plot1_drawn:
  assumes "plot1 A solve fresh Epsilon DiscFac PopGrowth YearsPerGeneration Initialk = Inr st"
    and "plot_parameters A Epsilon DiscFac PopGrowth YearsPerGeneration = Inr p"
  shows "\<exists>arrows. drawn st =
           [Curve (kt_range A) (map (accumulation A (Q p) Epsilon) (kt_range A))
              ''Capital accumulation curve'',
            Curve (kt_range A) (kt_range A) ''45 Degree line''] @ arrows @
           [Point (kBar p) (kBar p) ''ro'', Point Initialk (f_lit A (5 / 10000)) ''co'']"
proof -
  let ?curves = "[Curve (kt_range A) (map (accumulation A (Q p) Epsilon) (kt_range A))
              ''Capital accumulation curve'',
            Curve (kt_range A) (kt_range A) ''45 Degree line'']"
  from assms obtain ag st1 where
    path: "plot1_path 3 A Epsilon (xi p)
             \<lparr>agent = ag, kt = Initialk, ktp1 = f_lit A 0, drawn = ?curves\<rparr> = Inr st1"
    and st: "st = st1\<lparr>drawn := drawn st1 @ [Point (kBar p) (kBar p) ''ro'',
                                           Point Initialk (f_lit A (5 / 10000)) ''co'']\<rparr>"
    unfolding plot1_def bind_err_def Let_def by (auto split: sum.splits)
  from plot1_path_drawn [OF path] obtain arrows where "drawn st1 = ?curves @ arrows"
    by auto
  with st show ?thesis
    by simp
qed

text \<open>
  C8. In \<open>plot1\<close> the steady state is computed as \<^verbatim>\<open>kBar = Q**(1/(1-Epsilon))\<close>, with \<open>Q\<close>,
  \<open>Beta\<close> and \<open>xi\<close> as in the four assignments. Let the arithmetic follow the standard model
  with unit roundoff \<open>u\<close>, and let the parameter block return, with \<open>Epsilon\<close> a finite number
  strictly between \<open>0\<close> and \<open>1\<close> (and \<open>1 - Epsilon\<close> not below the normal range), \<open>Q\<close> finite
  and positive, and \<open>kBar\<close> and the value \<^verbatim>\<open>Q*kBar**Epsilon\<close> of the plotted accumulation
  map at \<open>kBar\<close> normal numbers. Then \<open>kBar\<close> is a fixed point of the plotted map up to
  rounding: both numbers are positive, and the logarithm of the ratio of
  \<^verbatim>\<open>Q*kBar**Epsilon\<close> to \<open>kBar\<close> is at most \<open>(2 |ln Q| + 3) u / (1 - u)\<close> in magnitude. Every
  completed call of \<open>plot1\<close> draws the accumulation curve \<^verbatim>\<open>Q*kt_range**Epsilon\<close> and the
  45 degree line over \<open>kt_range\<close>, then its arrows, then the red marker at \<open>(kBar, kBar)\<close>
  and the marker of the initial capital.
\<close>

theorem steady_state_marker_is_near_fixed_point:
  assumes "standard_model A u lo hi"
    and "plot_parameters A Epsilon DiscFac PopGrowth YearsPerGeneration = Inr p"
    and "is_finite A Epsilon" and "0 < real_of A Epsilon" and "real_of A Epsilon \<le> 1 - lo"
    and "is_finite A (Q p)" and "0 < real_of A (Q p)"
    and "normal A lo hi (kBar p)"
    and "normal A lo hi (accumulation A (Q p) Epsilon (kBar p))"
  shows "(\<exists>t e. f_pow A DiscFac YearsPerGeneration = Inr (Beta p) \<and>
              f_pow A PopGrowth YearsPerGeneration = Inr (xi p) \<and>
              f_div A (Beta p) (f_add A (f_lit A 1) (Beta p)) = Inr t \<and>
              f_div A (f_mul A (f_sub A (f_lit A 1) Epsilon) t) (xi p) = Inr (Q p) \<and>
              f_div A (f_lit A 1) (f_sub A (f_lit A 1) Epsilon) = Inr e \<and>
              f_pow A (Q p) e = Inr (kBar p)) \<and>
         accumulation A (Q p) Epsilon (kBar p) = f_mul A (Q p) (np_pow A (kBar p) Epsilon) \<and>
         0 < real_of A (kBar p) \<and>
         0 < real_of A (accumulation A (Q p) Epsilon (kBar p)) \<and>
         \<bar>ln (real_of A (accumulation A (Q p) Epsilon (kBar p)) / real_of A (kBar p))\<bar>
           \<le> (2 * \<bar>ln (real_of A (Q p))\<bar> + 3) * (u / (1 - u)) \<and>
         (\<forall>st. plot1 A solve fresh Epsilon DiscFac PopGrowth YearsPerGeneration Initialk = Inr st \<longrightarrow>
            (\<exists>arrows. drawn st =
               [Curve (kt_range A) (map (accumulation A (Q p) Epsilon) (kt_range A))
                  ''Capital accumulation curve'',
                Curve (kt_range A) (kt_range A) ''45 Degree line''] @ arrows @
               [Point (kBar p) (kBar p) ''ro'', Point Initialk (f_lit A (5 / 10000)) ''co'']))"
proof -
  note sm = assms(1) [unfolded standard_model_def]
  from sm have u: "0 \<le> u" "u < 1" and lo: "0 < lo" "lo \<le> 1 / 2"
    and lohi: "1 \<le> (1 - u) * lo * hi"
    and one: "is_finite A (f_lit A 1)" "real_of A (f_lit A 1) = 1"
    by simp_all
  from sm have a_sub: "accurate A u lo hi (\<lambda>x y. Inr (f_sub A x y)) (\<lambda>x y. True) (\<lambda>x y. x - y)"
    and a_mul: "accurate A u lo hi (\<lambda>x y. Inr (f_mul A x y)) (\<lambda>x y. True) (\<lambda>x y. x * y)"
    and a_div: "accurate A u lo hi (f_div A) (\<lambda>x y. y \<noteq> 0) (\<lambda>x y. x / y)"
    and a_pow: "accurate A u lo hi (f_pow A) (\<lambda>x y. 0 < x) (\<lambda>x y. x powr y)"
    and a_np: "accurate A u lo hi (\<lambda>x y. Inr (np_pow A x y)) (\<lambda>x y. 0 < x) (\<lambda>x y. x powr y)"
    by simp_all
  have ul: "0 < (1 - u) * lo"
    using u lo by simp
  have hi_lo: "1 / ((1 - u) * lo) \<le> hi"
  proof -
    have "1 \<le> hi * ((1 - u) * lo)"
      using lohi by (simp add: mult.commute mult.left_commute)
    then show ?thesis
      using ul by (simp add: divide_le_eq)
  qed
  have hi: "2 \<le> hi"
  proof -
    have "(1 - u) * lo \<le> 1 * (1 / 2)"
      using u lo by (intro mult_mono) auto
    then have "2 \<le> 1 / ((1 - u) * lo)"
      using ul by (simp add: le_divide_eq)
    with hi_lo show ?thesis by linarith
  qed
  define eps where "eps = real_of A Epsilon"
  have eps: "0 < eps" "eps < 1" "lo \<le> 1 - eps"
    using assms(4,5) lo(1) by (simp_all add: eps_def)
  define s where "s = f_sub A (f_lit A 1) Epsilon"
  have r1: "lo \<le> \<bar>real_of A (f_lit A 1) - real_of A Epsilon\<bar>"
    and r2: "\<bar>real_of A (f_lit A 1) - real_of A Epsilon\<bar> \<le> hi"
    using eps hi by (simp_all add: one eps_def)
  from accurate_returns [OF a_sub one(1) assms(3) TrueI r1 r2]
  have fs: "is_finite A s" and cs: "close_to u (1 - eps) (real_of A s)"
    by (simp_all add: s_def one eps_def)
  have sp: "0 < real_of A s"
    using close_to_pos(1) [OF cs _ u] eps by simp
  have s_lo: "(1 - u) * lo \<le> real_of A s" and s_hi: "real_of A s \<le> 2"
  proof -
    from cs have d: "\<bar>real_of A s - (1 - eps)\<bar> \<le> u * (1 - eps)"
      using eps by (simp add: close_to_def)
    then have "(1 - u) * (1 - eps) \<le> real_of A s"
      by (simp add: algebra_simps abs_le_iff)
    moreover have "(1 - u) * lo \<le> (1 - u) * (1 - eps)"
      using u eps by (intro mult_left_mono) auto
    ultimately show "(1 - u) * lo \<le> real_of A s"
      by linarith
    from d have "real_of A s \<le> (1 + u) * (1 - eps)"
      by (simp add: algebra_simps abs_le_iff)
    also have "\<dots> \<le> 2 * 1"
      using u eps by (intro mult_mono) auto
    finally show "real_of A s \<le> 2" by simp
  qed
  have r_lo: "lo \<le> 1 / real_of A s"
  proof -
    have "1 / 2 \<le> 1 / real_of A s"
      using sp s_hi by (simp add: field_simps)
    with lo show ?thesis by linarith
  qed
  have r_hi: "1 / real_of A s \<le> hi"
  proof -
    have "1 / real_of A s \<le> 1 / ((1 - u) * lo)"
      using s_lo ul sp by (intro divide_left_mono) auto
    with hi_lo show ?thesis by linarith
  qed
  have rp: "0 < 1 / real_of A s"
    using sp by simp
  have r3: "lo \<le> \<bar>real_of A (f_lit A 1) / real_of A s\<bar>"
    and r4: "\<bar>real_of A (f_lit A 1) / real_of A s\<bar> \<le> hi"
    using r_lo r_hi rp by (simp_all add: one)
  have s0: "real_of A s \<noteq> 0"
    using sp by simp
  from accurate_returns [OF a_div one(1) fs s0 r3 r4]
  obtain e where e: "f_div A (f_lit A 1) s = Inr e" and fe: "is_finite A e"
    and ce: "close_to u (1 / real_of A s) (real_of A e)"
    by (auto simp: one)
  from plot_parameters_code [OF assms(2)] e
  have code: "f_div A (f_lit A 1) (f_sub A (f_lit A 1) Epsilon) = Inr e"
    "f_pow A (Q p) e = Inr (kBar p)"
    by (auto simp: s_def)
  have ck: "close_to u (real_of A (Q p) powr real_of A e) (real_of A (kBar p))"
    by (rule accurate_close [OF a_pow assms(6) fe assms(7) code(2) assms(8)])
  have kp: "0 < real_of A (kBar p)"
    using close_to_pos(1) [OF ck _ u] assms(7) by simp
  have fk: "is_finite A (kBar p)"
    using assms(8) by (simp add: normal_def)
  have k_range: "lo \<le> real_of A (kBar p)" "real_of A (kBar p) \<le> hi"
    using assms(8) kp by (simp_all add: normal_def)
  define w where "w = np_pow A (kBar p) Epsilon"
  have lo1: "lo \<le> 1" and hi1: "1 \<le> hi"
    using lo hi by simp_all
  note pr = powr_in_range [OF lo(1) lo1 hi1 k_range, of eps]
  have r5: "lo \<le> \<bar>real_of A (kBar p) powr real_of A Epsilon\<bar>"
    and r6: "\<bar>real_of A (kBar p) powr real_of A Epsilon\<bar> \<le> hi"
    using pr eps by (simp_all add: eps_def)
  from accurate_returns [OF a_np fk assms(3) kp r5 r6]
  have fw: "is_finite A w"
    and cw: "close_to u (real_of A (kBar p) powr eps) (real_of A w)"
    by (simp_all add: w_def eps_def)
  have acc: "accumulation A (Q p) Epsilon (kBar p) = f_mul A (Q p) w"
    by (simp add: accumulation_def w_def)
  have ny: "normal A lo hi (f_mul A (Q p) w)"
    using assms(9) by (simp add: acc)
  have cy: "close_to u (real_of A (Q p) * real_of A w) (real_of A (f_mul A (Q p) w))"
    by (rule accurate_close [OF a_mul assms(6) fw _ _ ny]) simp_all
  note fp = fixed_point_error [OF u eps(1,2) assms(7) cs ce ck cw cy]
  note c1 = plot_parameters_code [OF assms(2)]
  have c2: "accumulation A (Q p) Epsilon (kBar p) = f_mul A (Q p) (np_pow A (kBar p) Epsilon)"
    by (simp add: accumulation_def)
  have c3: "0 < real_of A (kBar p)"
    by (rule fp(1))
  have c4: "0 < real_of A (accumulation A (Q p) Epsilon (kBar p))"
    unfolding acc by (rule fp(2))
  have c5: "\<bar>ln (real_of A (accumulation A (Q p) Epsilon (kBar p)) / real_of A (kBar p))\<bar>
           \<le> (2 * \<bar>ln (real_of A (Q p))\<bar> + 3) * (u / (1 - u))"
    unfolding acc by (rule fp(3))
  have c6: "\<forall>st. plot1 A solve fresh Epsilon DiscFac PopGrowth YearsPerGeneration Initialk = Inr st \<longrightarrow>
            (\<exists>arrows. drawn st =
               [Curve (kt_range A) (map (accumulation A (Q p) Epsilon) (kt_range A))
                  ''Capital accumulation curve'',
                Curve (kt_range A) (kt_range A) ''45 Degree line''] @ arrows @
               [Point (kBar p) (kBar p) ''ro'', Point Initialk (f_lit A (5 / 10000)) ''co''])"
    using plot1_drawn [OF _ assms(2)] by blast
  show ?thesis
    by (intro conjI c1 c2 c3 c4 c5 c6)
qed

subsection \<open>The example arithmetics meet the standard model\<close>

lemma exact_arith_fields:
  "f_lit exact_arith = Some"
  "f_add exact_arith = lift2 (\<lambda>x y. x + y)"
  "f_sub exact_arith = lift2 (\<lambda>x y. x - y)"
  "f_mul exact_arith = lift2 (\<lambda>x y. x * y)"
  "f_div exact_arith = exact_div"
  "f_pow exact_arith = exact_pow"
  "np_pow exact_arith = exact_np_pow"
  "np_abs exact_arith = map_option abs"
  "f_gt exact_arith = exact_gt"
  "np_linspace exact_arith = exact_linspace"
  by (simp_all add: exact_arith_def)

lemma exact_finite: "is_finite exact_arith x = (\<exists>r. x = Some r)"
  by (cases x) (simp_all add: exact_arith_def)

lemma exact_finite_Some: "is_finite exact_arith (Some r)"
  by (simp add: exact_arith_def)

lemma exact_real_of: "real_of exact_arith (Some r) = r"
  by (simp add: exact_arith_def)

lemma exact_normal:
  "normal exact_arith lo hi x = (\<exists>r. x = Some r \<and> lo \<le> \<bar>r\<bar> \<and> \<bar>r\<bar> \<le> hi)"
  by (cases x) (simp_all add: normal_def exact_arith_def)

lemma close_to_refl: "0 \<le> u \<Longrightarrow> close_to u r r"
  by (simp add: close_to_def)

lemma exact_arith_standard_model:
  assumes "0 \<le> u" "u < 1" "0 < lo" "lo \<le> 1 / 2" "1 \<le> (1 - u) * lo * hi"
    and "hi < overflow_threshold"
  shows "standard_model exact_arith u lo hi"
proof -
  have sub: "accurate exact_arith u lo hi (\<lambda>x y. Inr (f_sub exact_arith x y)) (\<lambda>x y. True)
               (\<lambda>x y. x - y)"
    unfolding accurate_def exact_finite using assms(1)
    by (auto simp: exact_arith_fields exact_real_of lift2_def close_to_refl)
  have mul: "accurate exact_arith u lo hi (\<lambda>x y. Inr (f_mul exact_arith x y)) (\<lambda>x y. True)
               (\<lambda>x y. x * y)"
    unfolding accurate_def exact_finite using assms(1)
    by (auto simp: exact_arith_fields exact_real_of lift2_def close_to_refl)
  have dv: "accurate exact_arith u lo hi (f_div exact_arith) (\<lambda>x y. y \<noteq> 0) (\<lambda>x y. x / y)"
    unfolding accurate_def exact_finite using assms(1)
    by (auto simp: exact_arith_fields exact_real_of exact_div_def lift2_def close_to_refl)
  have pw: "accurate exact_arith u lo hi (f_pow exact_arith) (\<lambda>x y. 0 < x) (\<lambda>x y. x powr y)"
    unfolding accurate_def exact_finite using assms(1,6)
    by (auto simp: exact_arith_fields exact_real_of exact_pow_def real_power_def close_to_refl
        split: if_splits)
  have np: "accurate exact_arith u lo hi (\<lambda>x y. Inr (np_pow exact_arith x y)) (\<lambda>x y. 0 < x)
               (\<lambda>x y. x powr y)"
    unfolding accurate_def exact_finite using assms(1)
    by (auto simp: exact_arith_fields exact_real_of exact_np_pow_def real_power_def close_to_refl)
  have one: "is_finite exact_arith (f_lit exact_arith 1)" "real_of exact_arith (f_lit exact_arith 1) = 1"
    by (simp_all add: exact_arith_def)
  show ?thesis
    unfolding standard_model_def
    by (intro conjI assms(1-5) one sub mul dv pw np)
qed

lemma exact_pow_pos:
  "0 < x \<Longrightarrow> x powr y < overflow_threshold \<Longrightarrow> exact_pow (Some x) (Some y) = Inr (Some (x powr y))"
  by (simp add: exact_pow_def real_power_def)

lemma exact_pow_overflow:
  "0 < x \<Longrightarrow> overflow_threshold \<le> x powr y \<Longrightarrow> exact_pow (Some x) (Some y) = Inl OverflowError"
  by (simp add: exact_pow_def real_power_def)

lemma exact_div_Some:
  "y \<noteq> 0 \<Longrightarrow> exact_div (Some x) (Some y) = Inr (Some (x / y))"
  by (simp add: exact_div_def lift2_def)

lemma below_threshold: "x \<le> 1 \<Longrightarrow> x < overflow_threshold"
proof -
  have "(1::real) < 2 ^ 1024"
    by (rule one_less_power) simp_all
  then show "x \<le> 1 \<Longrightarrow> x < overflow_threshold"
    by (simp add: overflow_threshold_def)
qed

lemma sqrt_sixteenth: "(1 / 16 :: real) powr (1 / 2) = 1 / 4"
proof -
  have "(1 / 16 :: real) powr (1 / 2) = sqrt (1 / 16)"
    by (simp add: powr_half_sqrt)
  also have "sqrt (1 / 16 :: real) = 1 / 4"
    by (rule real_sqrt_unique) (simp_all add: power2_eq_square)
  finally show ?thesis .
qed

lemma example_parameters:
  "plot_parameters exact_arith (Some (1 / 2)) (Some 1) (Some 1) (Some 1) =
     Inr \<lparr>Beta = Some 1, xi = Some 1, Q = Some (1 / 4), kBar = Some (1 / 16)\<rparr>"
proof -
  have s1: "exact_pow (Some 1) (Some 1) = Inr (Some 1)"
    using exact_pow_pos [of 1 1] below_threshold [of 1] by simp
  have s3: "exact_div (Some 1) (Some (1 + 1)) = Inr (Some (1 / 2))"
    using exact_div_Some [of "1 + 1" 1] by simp
  have s4: "exact_div (Some ((1 - 1 / 2) * (1 / 2))) (Some 1) = Inr (Some (1 / 4))"
    using exact_div_Some [of 1 "(1 - 1 / 2) * (1 / 2)"] by simp
  have s5: "exact_div (Some 1) (Some (1 - 1 / 2)) = Inr (Some 2)"
    using exact_div_Some [of "1 - 1 / 2" 1] by simp
  have "(1 / 4 :: real) powr 2 = 1 / 16"
    by (simp add: power2_eq_square)
  then have s6: "exact_pow (Some (1 / 4)) (Some 2) = Inr (Some (1 / 16))"
    using exact_pow_pos [of "1 / 4" 2] below_threshold [of "1 / 16"] by simp
  show ?thesis
    unfolding plot_parameters_def exact_arith_fields lift2_def
    by (simp only: option.case s1 s3 s4 s5 s6 bind_err_def sum.case)
qed

lemma example_accumulation:
  "accumulation exact_arith (Some (1 / 4)) (Some (1 / 2)) (Some (1 / 16)) = Some (1 / 16)"
  by (simp add: accumulation_def exact_arith_fields exact_np_pow_def real_power_def lift2_def
      sqrt_sixteenth)

lemma exact_step:
  "plot1_step exact_arith (Some (1 / 2)) (Some 1)
     \<lparr>agent = ag\<lparr>solution := [\<lparr>cFunc = map_option (\<lambda>m. m - 1)\<rparr>]\<rparr>, kt = Some 1, ktp1 = k,
      drawn = ds\<rparr> =
   Inr \<lparr>agent = ag\<lparr>solution := [\<lparr>cFunc = map_option (\<lambda>m. m - 1)\<rparr>]\<rparr>, kt = Some 1,
        ktp1 = Some 1,
        drawn = ds @ [Arrow (Some 1) k (Some 0) (lift2 (\<lambda>x y. x - y) (Some 1) k),
                      Arrow (Some 1) (Some 1) (Some 0) (Some 0)]\<rparr>"
proof -
  have s1: "exact_pow (Some 1) (Some (1 / 2)) = Inr (Some 1)"
    using exact_pow_pos [of 1 "1 / 2"] below_threshold [of 1] by simp
  have s2: "exact_div (Some 1) (Some 1) = Inr (Some 1)"
    using exact_div_Some [of 1 1] by simp
  show ?thesis
    by (simp add: plot1_step_def exact_arith_fields s1 s2 bind_err_def eval_cFunc_def Let_def
        lift2_def)
qed

lemma plot1_example_runs:
  "\<exists>st. plot1 exact_arith solve_olg fresh_olg (Some (1 / 2)) (Some 1) (Some 1) (Some 1) (Some 1) =
     Inr st"
  by (simp add: plot1_def example_parameters bind_err_def make_solved_agent_def solve_olg_def
      Let_def eval_nat_numeral exact_step exact_arith_fields)

lemma overflow_example:
  "plot_parameters exact_arith (Some (63 / 64)) (Some 1) (Some (1 / 2)) (Some 30) =
     Inl OverflowError"
proof -
  have s1: "exact_pow (Some 1) (Some 30) = Inr (Some 1)"
    using exact_pow_pos [of 1 30] below_threshold [of 1] by simp
  have p2: "(1 / 2 :: real) powr 30 = 1 / 2 ^ 30"
    by (simp add: power_one_over)
  have "(1 / 2 ^ 30 :: real) \<le> 1"
    by simp
  then have s2: "exact_pow (Some (1 / 2)) (Some 30) = Inr (Some (1 / 2 ^ 30))"
    using exact_pow_pos [of "1 / 2" 30] below_threshold [of "1 / 2 ^ 30"] p2 by simp
  have s3: "exact_div (Some 1) (Some (1 + 1)) = Inr (Some (1 / 2))"
    using exact_div_Some [of "1 + 1" 1] by simp
  have "(1 - 63 / 64) * (1 / 2) / (1 / 2 ^ 30) = (2 ^ 23 :: real)"
    by simp
  then have s4: "exact_div (Some ((1 - 63 / 64) * (1 / 2))) (Some (1 / 2 ^ 30)) = Inr (Some (2 ^ 23))"
    using exact_div_Some [of "1 / 2 ^ 30" "(1 - 63 / 64) * (1 / 2)"] by simp
  have s5: "exact_div (Some 1) (Some (1 - 63 / 64)) = Inr (Some 64)"
    using exact_div_Some [of "1 - 63 / 64" 1] by simp
  have "((2::real) ^ 23) powr 64 = (2 ^ 23) ^ 64"
    by (rule powr_numeral) simp
  also have "\<dots> = (2::real) ^ (23 * 64)"
    by (rule power_mult [symmetric])
  finally have big: "((2::real) ^ 23) powr 64 = 2 ^ (23 * 64)" .
  have "(2::real) ^ 1024 \<le> 2 ^ (23 * 64)"
    by (rule power_increasing) simp_all
  then have "overflow_threshold \<le> ((2::real) ^ 23) powr 64"
    unfolding big overflow_threshold_def .
  then have s6: "exact_pow (Some (2 ^ 23)) (Some 64) = Inl OverflowError"
    by (intro exact_pow_overflow) simp_all
  show ?thesis
    unfolding plot_parameters_def exact_arith_fields lift2_def
    by (simp only: option.case s1 s2 s3 s4 s5 s6 bind_err_def sum.case)
qed

lemma binary64_range:
  "(0::real) \<le> 1 / 2 ^ 53" "(1 / 2 ^ 53 :: real) < 1" "(0::real) < 1 / 2 ^ 1022"
  "(1 / 2 ^ 1022 :: real) \<le> 1 / 2" "(1::real) \<le> (1 - 1 / 2 ^ 53) * (1 / 2 ^ 1022) * 2 ^ 1023"
  "(2 ^ 1023 :: real) < overflow_threshold"
proof -
  show "(0::real) \<le> 1 / 2 ^ 53" "(0::real) < 1 / 2 ^ 1022"
    by simp_all
  have "(1::real) < 2 ^ 53"
    by (rule one_less_power) simp_all
  then show "(1 / 2 ^ 53 :: real) < 1"
    by simp
  have "(2::real) ^ 1 \<le> 2 ^ 1022"
    by (rule power_increasing) simp_all
  then show "(1 / 2 ^ 1022 :: real) \<le> 1 / 2"
    by (simp add: field_simps)
  have "(2::real) ^ 1 \<le> 2 ^ 53"
    by (rule power_increasing) simp_all
  then have h: "(1 / 2 :: real) \<le> 1 - 1 / 2 ^ 53"
    by (simp add: field_simps)
  have e: "(2::real) ^ 1023 = 2 ^ 1022 * 2"
    by (simp only: power_Suc2 [symmetric]) simp
  define a :: real where "a = 1 - 1 / 2 ^ 53"
  define m :: real where "m = a * (1 / 2 ^ 1022) * 2 ^ 1023"
  have "m = a * 2"
    unfolding m_def e by simp
  moreover have "1 / 2 \<le> a"
    using h by (simp only: a_def)
  ultimately have "1 \<le> m"
    by linarith
  then show "(1::real) \<le> (1 - 1 / 2 ^ 53) * (1 / 2 ^ 1022) * 2 ^ 1023"
    by (simp only: m_def a_def)
  have "(2::real) ^ 1023 < 2 ^ 1024"
    by (rule power_strict_increasing) simp_all
  then show "(2 ^ 1023 :: real) < overflow_threshold"
    by (simp only: overflow_threshold_def)
qed

lemma in_binary64_range:
  assumes "1 / 16 \<le> \<bar>r\<bar>" "\<bar>r\<bar> \<le> 1"
  shows "normal exact_arith (1 / 2 ^ 1022) (2 ^ 1023) (Some r)"
proof -
  have "(2::real) ^ 4 \<le> 2 ^ 1022"
    by (rule power_increasing) simp_all
  then have "(1 / 2 ^ 1022 :: real) \<le> 1 / 2 ^ 4"
    by (simp only: frac_le [OF zero_le_one _ zero_less_power [OF zero_less_numeral]])
  then have lo: "(1 / 2 ^ 1022 :: real) \<le> 1 / 16"
    by simp
  have hi: "(1::real) \<le> 2 ^ 1023"
    by (rule one_le_power) simp
  from assms lo hi show ?thesis
    unfolding exact_normal by (intro exI [of _ r] conjI) (simp, linarith, linarith)
qed

lemma inexact_arith_fields:
  "f_lit inexact_arith = Some"
  "f_add inexact_arith = lift2 (\<lambda>x y. x + y)"
  "f_sub inexact_arith = lift2 (\<lambda>x y. x - y)"
  "f_mul inexact_arith = lift2 (\<lambda>x y. x * y)"
  "f_div inexact_arith = exact_div"
  "f_pow inexact_arith = exact_pow"
  "np_pow inexact_arith = inexact_np_pow"
  "np_abs inexact_arith = map_option abs"
  "f_gt inexact_arith = exact_gt"
  "np_linspace inexact_arith = exact_linspace"
  by (simp_all add: inexact_arith_def exact_arith_def)

lemma inexact_finite: "is_finite inexact_arith x = (\<exists>r. x = Some r)"
  by (cases x) (simp_all add: inexact_arith_def exact_arith_def)

lemma inexact_finite_Some: "is_finite inexact_arith (Some r)"
  by (simp add: inexact_arith_def exact_arith_def)

lemma inexact_real_of: "real_of inexact_arith (Some r) = r"
  by (simp add: inexact_arith_def exact_arith_def)

lemma inexact_normal:
  "normal inexact_arith lo hi x = (\<exists>r. x = Some r \<and> lo \<le> \<bar>r\<bar> \<and> \<bar>r\<bar> \<le> hi)"
  by (cases x) (simp_all add: normal_def inexact_arith_def exact_arith_def)

lemma close_to_inexact: "1 / 1024 \<le> u \<Longrightarrow> close_to u r (r * pow_excess)"
proof -
  assume u: "1 / 1024 \<le> u"
  have "\<bar>r * pow_excess - r\<bar> = 1 / 1024 * \<bar>r\<bar>"
    by (simp add: pow_excess_def algebra_simps abs_mult)
  also have "\<dots> \<le> u * \<bar>r\<bar>"
    using u by (intro mult_right_mono) auto
  finally show ?thesis
    by (simp add: close_to_def)
qed

lemma inexact_arith_standard_model:
  assumes "1 / 1024 \<le> u" "u < 1" "0 < lo" "lo \<le> 1 / 2" "1 \<le> (1 - u) * lo * hi"
    and "hi < overflow_threshold"
  shows "standard_model inexact_arith u lo hi"
proof -
  have u0: "0 \<le> u"
    using assms(1) by simp
  have sub: "accurate inexact_arith u lo hi (\<lambda>x y. Inr (f_sub inexact_arith x y)) (\<lambda>x y. True)
               (\<lambda>x y. x - y)"
    unfolding accurate_def inexact_finite using u0
    by (auto simp: inexact_arith_fields inexact_real_of lift2_def close_to_refl)
  have mul: "accurate inexact_arith u lo hi (\<lambda>x y. Inr (f_mul inexact_arith x y)) (\<lambda>x y. True)
               (\<lambda>x y. x * y)"
    unfolding accurate_def inexact_finite using u0
    by (auto simp: inexact_arith_fields inexact_real_of lift2_def close_to_refl)
  have dv: "accurate inexact_arith u lo hi (f_div inexact_arith) (\<lambda>x y. y \<noteq> 0) (\<lambda>x y. x / y)"
    unfolding accurate_def inexact_finite using u0
    by (auto simp: inexact_arith_fields inexact_real_of exact_div_def lift2_def close_to_refl)
  have pw: "accurate inexact_arith u lo hi (f_pow inexact_arith) (\<lambda>x y. 0 < x) (\<lambda>x y. x powr y)"
    unfolding accurate_def inexact_finite using u0 assms(6)
    by (auto simp: inexact_arith_fields inexact_real_of exact_pow_def real_power_def close_to_refl
        split: if_splits)
  have np: "accurate inexact_arith u lo hi (\<lambda>x y. Inr (np_pow inexact_arith x y)) (\<lambda>x y. 0 < x)
               (\<lambda>x y. x powr y)"
    unfolding accurate_def inexact_finite using close_to_inexact [OF assms(1)]
    by (auto simp: inexact_arith_fields inexact_real_of inexact_np_pow_def exact_np_pow_def
        real_power_def)
  have one: "is_finite inexact_arith (f_lit inexact_arith 1)"
    "real_of inexact_arith (f_lit inexact_arith 1) = 1"
    by (simp_all add: inexact_arith_def exact_arith_def)
  show ?thesis
    unfolding standard_model_def
    by (intro conjI u0 assms(2-5) one sub mul dv pw np)
qed

lemma inexact_parameters:
  "plot_parameters inexact_arith (Some (1 / 2)) (Some 1) (Some 1) (Some 1) =
     Inr \<lparr>Beta = Some 1, xi = Some 1, Q = Some (1 / 4), kBar = Some (1 / 16)\<rparr>"
proof -
  have "plot_parameters inexact_arith (Some (1 / 2)) (Some 1) (Some 1) (Some 1) =
      plot_parameters exact_arith (Some (1 / 2)) (Some 1) (Some 1) (Some 1)"
    by (simp add: plot_parameters_def inexact_arith_fields exact_arith_fields)
  then show ?thesis
    by (simp only: example_parameters)
qed

lemma inexact_accumulation:
  "accumulation inexact_arith (Some (1 / 4)) (Some (1 / 2)) (Some (1 / 16)) = Some (1025 / 16384)"
  by (simp add: accumulation_def inexact_arith_fields inexact_np_pow_def exact_np_pow_def
      real_power_def lift2_def sqrt_sixteenth pow_excess_def)

lemma inexact_step:
  "plot1_step inexact_arith (Some (1 / 2)) (Some 1)
     \<lparr>agent = ag\<lparr>solution := [\<lparr>cFunc = map_option (\<lambda>m. m - 1)\<rparr>]\<rparr>, kt = Some 1, ktp1 = k,
      drawn = ds\<rparr> =
   Inr \<lparr>agent = ag\<lparr>solution := [\<lparr>cFunc = map_option (\<lambda>m. m - 1)\<rparr>]\<rparr>, kt = Some 1,
        ktp1 = Some 1,
        drawn = ds @ [Arrow (Some 1) k (Some 0) (lift2 (\<lambda>x y. x - y) (Some 1) k),
                      Arrow (Some 1) (Some 1) (Some 0) (Some 0)]\<rparr>"
proof -
  have "plot1_step inexact_arith (Some (1 / 2)) (Some 1)
     \<lparr>agent = ag\<lparr>solution := [\<lparr>cFunc = map_option (\<lambda>m. m - 1)\<rparr>]\<rparr>, kt = Some 1, ktp1 = k,
      drawn = ds\<rparr> =
    plot1_step exact_arith (Some (1 / 2)) (Some 1)
     \<lparr>agent = ag\<lparr>solution := [\<lparr>cFunc = map_option (\<lambda>m. m - 1)\<rparr>]\<rparr>, kt = Some 1, ktp1 = k,
      drawn = ds\<rparr>"
    by (simp add: plot1_step_def inexact_arith_fields exact_arith_fields)
  then show ?thesis
    by (simp only: exact_step)
qed

lemma plot1_inexact_runs:
  "\<exists>st. plot1 inexact_arith solve_olg fresh_olg (Some (1 / 2)) (Some 1) (Some 1) (Some 1) (Some 1) =
     Inr st"
  by (simp add: plot1_def inexact_parameters bind_err_def make_solved_agent_def solve_olg_def
      Let_def eval_nat_numeral inexact_step inexact_arith_fields)

lemma inexact_range:
  "(1 / 1024 :: real) \<le> 1 / 2 ^ 10" "(1 / 2 ^ 10 :: real) < 1"
  "(1::real) \<le> (1 - 1 / 2 ^ 10) * (1 / 2 ^ 1022) * 2 ^ 1023"
proof -
  show "(1 / 1024 :: real) \<le> 1 / 2 ^ 10" "(1 / 2 ^ 10 :: real) < 1"
    by simp_all
  have h: "(1 / 2 :: real) \<le> 1 - 1 / 2 ^ 10"
    by simp
  have e: "(2::real) ^ 1023 = 2 ^ 1022 * 2"
    by (simp only: power_Suc2 [symmetric]) simp
  define a :: real where "a = 1 - 1 / 2 ^ 10"
  define m :: real where "m = a * (1 / 2 ^ 1022) * 2 ^ 1023"
  have "m = a * 2"
    unfolding m_def e by simp
  moreover have "1 / 2 \<le> a"
    using h by (simp only: a_def)
  ultimately have "1 \<le> m"
    by linarith
  then show "(1::real) \<le> (1 - 1 / 2 ^ 10) * (1 / 2 ^ 1022) * 2 ^ 1023"
    by (simp only: m_def a_def)
qed

lemma in_binary64_range_inexact:
  assumes "1 / 16 \<le> \<bar>r\<bar>" "\<bar>r\<bar> \<le> 1"
  shows "normal inexact_arith (1 / 2 ^ 1022) (2 ^ 1023) (Some r)"
proof -
  have "(2::real) ^ 4 \<le> 2 ^ 1022"
    by (rule power_increasing) simp_all
  then have "(1 / 2 ^ 1022 :: real) \<le> 1 / 2 ^ 4"
    by (simp only: frac_le [OF zero_le_one _ zero_less_power [OF zero_less_numeral]])
  then have lo: "(1 / 2 ^ 1022 :: real) \<le> 1 / 16"
    by simp
  have hi: "(1::real) \<le> 2 ^ 1023"
    by (rule one_le_power) simp
  from assms lo hi show ?thesis
    unfolding inexact_normal by (intro exI [of _ r] conjI) (simp, linarith, linarith)
qed

text \<open>
  With the inexact power, at \<open>Epsilon = 1/2\<close> and \<open>Q = 1/4\<close>: the marker is at
  \<open>kBar = 1/16\<close>, the plotted map takes the value \<open>1025/16384\<close> there, not \<open>1/16\<close>, and the
  bound holds with \<open>u = 2^-10\<close>.
\<close>

theorem steady_state_marker_is_near_fixed_point_witness:
  "standard_model inexact_arith (1 / 2 ^ 10) (1 / 2 ^ 1022) (2 ^ 1023) \<and>
   plot_parameters inexact_arith (Some (1 / 2)) (Some 1) (Some 1) (Some 1) =
     Inr \<lparr>Beta = Some 1, xi = Some 1, Q = Some (1 / 4), kBar = Some (1 / 16)\<rparr> \<and>
   is_finite inexact_arith (Some (1 / 2)) \<and>
   0 < real_of inexact_arith (Some (1 / 2)) \<and>
   real_of inexact_arith (Some (1 / 2)) \<le> 1 - 1 / 2 ^ 1022 \<and>
   is_finite inexact_arith (Some (1 / 4)) \<and>
   0 < real_of inexact_arith (Some (1 / 4)) \<and>
   normal inexact_arith (1 / 2 ^ 1022) (2 ^ 1023) (Some (1 / 16)) \<and>
   accumulation inexact_arith (Some (1 / 4)) (Some (1 / 2)) (Some (1 / 16)) =
     Some (1025 / 16384) \<and>
   normal inexact_arith (1 / 2 ^ 1022) (2 ^ 1023) (Some (1025 / 16384)) \<and>
   Some (1025 / 16384) \<noteq> Some (1 / 16 :: real) \<and>
   (\<exists>e. f_div inexact_arith (f_lit inexact_arith 1)
           (f_sub inexact_arith (f_lit inexact_arith 1) (Some (1 / 2))) = Inr e \<and>
        f_pow inexact_arith (Some (1 / 4)) e = Inr (Some (1 / 16))) \<and>
   \<bar>ln (real_of inexact_arith (Some (1025 / 16384)) / real_of inexact_arith (Some (1 / 16)))\<bar>
     \<le> (2 * \<bar>ln (real_of inexact_arith (Some (1 / 4)))\<bar> + 3) * (1 / 2 ^ 10 / (1 - 1 / 2 ^ 10)) \<and>
   (\<exists>st arrows.
      plot1 inexact_arith solve_olg fresh_olg (Some (1 / 2)) (Some 1) (Some 1) (Some 1) (Some 1) =
        Inr st \<and>
      drawn st =
        [Curve (kt_range inexact_arith)
           (map (accumulation inexact_arith (Some (1 / 4)) (Some (1 / 2))) (kt_range inexact_arith))
           ''Capital accumulation curve'',
         Curve (kt_range inexact_arith) (kt_range inexact_arith) ''45 Degree line''] @ arrows @
        [Point (Some (1 / 16)) (Some (1 / 16)) ''ro'',
         Point (Some 1) (f_lit inexact_arith (5 / 10000)) ''co''])"
proof -
  let ?p = "\<lparr>Beta = Some 1, xi = Some 1, Q = Some (1 / 4), kBar = Some (1 / 16 :: real)\<rparr>"
  have sm: "standard_model inexact_arith (1 / 2 ^ 10) (1 / 2 ^ 1022) (2 ^ 1023)"
    by (rule inexact_arith_standard_model
        [OF inexact_range(1,2) binary64_range(3,4) inexact_range(3) binary64_range(6)])
  note run = inexact_parameters
  have nE: "is_finite inexact_arith (Some (1 / 2))"
    and nQ: "is_finite inexact_arith (Some (1 / 4))"
    by (rule inexact_finite_Some)+
  have nK: "normal inexact_arith (1 / 2 ^ 1022) (2 ^ 1023) (Some (1 / 16))"
    by (rule in_binary64_range_inexact) simp_all
  have nY: "normal inexact_arith (1 / 2 ^ 1022) (2 ^ 1023) (Some (1025 / 16384))"
    by (rule in_binary64_range_inexact) simp_all
  have pE: "0 < real_of inexact_arith (Some (1 / 2))"
    and pQ: "0 < real_of inexact_arith (Some (1 / 4))"
    by (simp_all add: inexact_real_of)
  have lE: "real_of inexact_arith (Some (1 / 2)) \<le> 1 - 1 / 2 ^ 1022"
    using binary64_range(4) by (simp add: inexact_real_of)
  note acc = inexact_accumulation
  have ne: "Some (1025 / 16384) \<noteq> Some (1 / 16 :: real)"
    by simp
  have nQ': "is_finite inexact_arith (Q ?p)"
    and pQ': "0 < real_of inexact_arith (Q ?p)"
    and nK': "normal inexact_arith (1 / 2 ^ 1022) (2 ^ 1023) (kBar ?p)"
    and nY': "normal inexact_arith (1 / 2 ^ 1022) (2 ^ 1023)
               (accumulation inexact_arith (Q ?p) (Some (1 / 2)) (kBar ?p))"
    using nQ pQ nK nY by (simp_all add: acc)
  note t = steady_state_marker_is_near_fixed_point [OF sm run nE pE lE nQ' pQ' nK' nY',
      where solve = solve_olg and fresh = fresh_olg and Initialk = "Some 1",
      unfolded olg_parameters.select_convs acc]
  have c1: "\<exists>e. f_div inexact_arith (f_lit inexact_arith 1)
           (f_sub inexact_arith (f_lit inexact_arith 1) (Some (1 / 2))) = Inr e \<and>
        f_pow inexact_arith (Some (1 / 4)) e = Inr (Some (1 / 16))"
    using t by blast
  have c2: "\<bar>ln (real_of inexact_arith (Some (1025 / 16384)) / real_of inexact_arith (Some (1 / 16)))\<bar>
     \<le> (2 * \<bar>ln (real_of inexact_arith (Some (1 / 4)))\<bar> + 3) * (1 / 2 ^ 10 / (1 - 1 / 2 ^ 10))"
    using t by blast
  obtain st where st:
    "plot1 inexact_arith solve_olg fresh_olg (Some (1 / 2)) (Some 1) (Some 1) (Some 1) (Some 1) = Inr st"
    using plot1_inexact_runs by blast
  from t st have "\<exists>arrows. drawn st =
        [Curve (kt_range inexact_arith)
           (map (accumulation inexact_arith (Some (1 / 4)) (Some (1 / 2))) (kt_range inexact_arith))
           ''Capital accumulation curve'',
         Curve (kt_range inexact_arith) (kt_range inexact_arith) ''45 Degree line''] @ arrows @
        [Point (Some (1 / 16)) (Some (1 / 16)) ''ro'',
         Point (Some 1) (f_lit inexact_arith (5 / 10000)) ''co'']"
    by blast
  with st have c3: "\<exists>st arrows.
      plot1 inexact_arith solve_olg fresh_olg (Some (1 / 2)) (Some 1) (Some 1) (Some 1) (Some 1) =
        Inr st \<and>
      drawn st =
        [Curve (kt_range inexact_arith)
           (map (accumulation inexact_arith (Some (1 / 4)) (Some (1 / 2))) (kt_range inexact_arith))
           ''Capital accumulation curve'',
         Curve (kt_range inexact_arith) (kt_range inexact_arith) ''45 Degree line''] @ arrows @
        [Point (Some (1 / 16)) (Some (1 / 16)) ''ro'',
         Point (Some 1) (f_lit inexact_arith (5 / 10000)) ''co'']"
    by blast
  show ?thesis
    by (intro conjI sm run nE pE lE nQ pQ nK acc nY ne c1 c2 c3)
qed

text \<open>
  The parameter block does not return for every \<open>Epsilon\<close> between \<open>0\<close> and \<open>1\<close> and all
  positive \<open>DiscFac\<close>, \<open>PopGrowth\<close> and \<open>YearsPerGeneration\<close>. At \<open>Epsilon = 63/64\<close>,
  \<open>DiscFac = 1\<close>, \<open>PopGrowth = 1/2\<close> and 30 years per generation every intermediate value is
  a power of two: \<open>xi = 2^-30\<close>, \<open>Q = 2^23\<close>, the exponent is \<open>64\<close>, and \<open>Q**64 = 2^1472\<close> is
  beyond the largest binary64 number, so \<^verbatim>\<open>**\<close> raises \<^verbatim>\<open>OverflowError\<close> and \<open>plot1\<close>
  draws nothing.
\<close>

theorem parameter_block_overflows:
  "plot_parameters exact_arith (Some (63 / 64)) (Some 1) (Some (1 / 2)) (Some 30) =
     Inl OverflowError \<and>
   plot1 exact_arith solve_olg fresh_olg (Some (63 / 64)) (Some 1) (Some (1 / 2)) (Some 30) (Some 1) =
     Inl OverflowError"
  by (simp add: plot1_def overflow_example bind_err_def)

section \<open>Alternative-Combos-Of-Parameter-Values: the two summary functions\<close>





text \<open>
  C1. \<open>calcLorenzDistance(SomeTypes)\<close> is documented to measure the types it is given.
  The body pools the asset holdings of the global \<open>MyTypes\<close> instead: with one type
  holding \<open>[1, 1, 1, 1, 1]\<close> in \<open>MyTypes\<close> and one holding \<open>[0, 0, 0, 0, 10]\<close> passed as
  \<open>SomeTypes\<close>, the Lorenz shares that enter the distance are those of
  \<open>[1, 1, 1, 1, 1]\<close>.
\<close>

theorem calcLorenzDistance_reads_global_MyTypes:
  "calcLorenzDistance get_lorenz_shares
     [\<lparr>aLvl = [1, 1, 1, 1, 1], MPCnow = []\<rparr>] [\<lparr>aLvl = [0, 0, 0, 0, 10], MPCnow = []\<rparr>] =
   bind_err (np_broadcast (\<lambda>x y. x - y) lorenz_SCF
               (get_lorenz_shares [1, 1, 1, 1, 1] [2 / 10, 4 / 10, 6 / 10, 8 / 10]))
     (\<lambda>d. Inr (sqrt (sum_list (map (\<lambda>x. x ^ 2) d))))"
  by (simp add: calcLorenzDistance_def np_concatenate_def bind_err_def Let_def)

section \<open>Order of the toolkit calls and propagation of exceptions\<close>

subsection \<open>One call, three calls\<close>

lemma method_call_Inl:
  "toolkit m ag = Inl e \<Longrightarrow>
   method_call toolkit i m ag evs = (Inl e, evs @ [Invoke i m, Raise i m e])"
  by (simp add: method_call_def)

lemma method_call_Inr:
  "toolkit m ag = Inr ag' \<Longrightarrow>
   method_call toolkit i m ag evs = (Inr ag', evs @ [Invoke i m, Return i m])"
  by (simp add: method_call_def)

lemma solve_and_simulate_shape:
  assumes "solve_and_simulate toolkit i ag evs = (r, evs')"
  shows "\<exists>sfx. evs' = evs @ sfx \<and> run_shape i (failure r) sfx"
proof (cases "toolkit Solve ag")
  case (Inl e)
  from assms show ?thesis
    by (simp add: solve_and_simulate_def method_call_def Inl run_shape_def failure_def) auto
next
  case s: (Inr ag1)
  show ?thesis
  proof (cases "toolkit InitializeSim ag1")
    case (Inl e)
    from assms show ?thesis
      by (simp add: solve_and_simulate_def method_call_def s Inl
          run_shape_def failure_def) auto
  next
    case t: (Inr ag2)
    show ?thesis
    proof (cases "toolkit Simulate ag2")
      case (Inl e)
      from assms show ?thesis
        by (simp add: solve_and_simulate_def method_call_def s t
            Inl run_shape_def failure_def) auto
    next
      case (Inr ag3)
      from assms show ?thesis
        by (simp add: solve_and_simulate_def method_call_def s t
            Inr run_shape_def failure_def) (auto simp: completed_calls_def)
    qed
  qed
qed

subsection \<open>Properties of a single run\<close>

lemma invoked_on_append: "invoked_on i (xs @ ys) = invoked_on i xs @ invoked_on i ys"
  by (induction i xs rule: invoked_on.induct) simp_all

lemma run_shape_invoked_self:
  "run_shape i f sfx \<Longrightarrow> prefix (invoked_on i sfx) [Solve, InitializeSim, Simulate]"
  by (auto simp: run_shape_def completed_calls_def split: option.splits)


lemma run_shape_agent_of:
  "run_shape i f sfx \<Longrightarrow> ev \<in> set sfx \<Longrightarrow> agent_of ev = i"
  by (auto simp: run_shape_def completed_calls_def split: option.splits)

lemma run_shape_invoked_other:
  "run_shape i f sfx \<Longrightarrow> j \<noteq> i \<Longrightarrow> invoked_on j sfx = []"
  by (auto simp: run_shape_def completed_calls_def split: option.splits)

lemma solve_before_simulate_append:
  assumes "solve_before_simulate xs" "solve_before_simulate ys"
  shows "solve_before_simulate (xs @ ys)"
  unfolding solve_before_simulate_def
proof (intro allI impI)
  fix pre post i
  assume eq: "xs @ ys = pre @ Invoke i Simulate # post"
  then consider us where "xs = pre @ us" "us @ ys = Invoke i Simulate # post"
    | us where "xs @ us = pre" "ys = us @ Invoke i Simulate # post"
    by (auto simp: append_eq_append_conv2)
  then show "Return i Solve \<in> set pre"
  proof cases
    case 1
    show ?thesis
    proof (cases us)
      case Nil
      with 1 have "ys = [] @ Invoke i Simulate # post" by simp
      with assms(2) have "Return i Solve \<in> set []"
        unfolding solve_before_simulate_def by blast
      then show ?thesis by simp
    next
      case (Cons u us')
      with 1 have "xs = pre @ Invoke i Simulate # us'" by simp
      with assms(1) show ?thesis
        unfolding solve_before_simulate_def by blast
    qed
  next
    case 2
    with assms(2) have "Return i Solve \<in> set us"
      unfolding solve_before_simulate_def by blast
    with 2 show ?thesis by auto
  qed
qed

lemma solve_before_simulate_Nil: "solve_before_simulate []"
  by (simp add: solve_before_simulate_def)

lemma run_shape_solve_before_simulate:
  "run_shape i f sfx \<Longrightarrow> solve_before_simulate sfx"
  unfolding run_shape_def solve_before_simulate_def completed_calls_def
  by (auto simp: Cons_eq_append_conv append_eq_Cons_conv split: option.splits)

lemma run_shape_raise_ends_run:
  "run_shape i f sfx \<Longrightarrow> raise_ends_run f sfx"
  unfolding run_shape_def raise_ends_run_def completed_calls_def
  by (cases f) (auto simp: Cons_eq_append_conv append_eq_Cons_conv)

lemma run_shape_failure_raised:
  "run_shape i (Some e) sfx \<Longrightarrow> \<exists>pre m. sfx = pre @ [Raise i m e]"
  unfolding run_shape_def by auto

lemma raise_ends_run_Nil: "raise_ends_run f []"
  by (simp add: raise_ends_run_def)

lemma raise_ends_run_prepend:
  assumes "\<forall>ev \<in> set xs. \<not> is_Raise ev" "raise_ends_run f ys"
  shows "raise_ends_run f (xs @ ys)"
  unfolding raise_ends_run_def
proof (intro allI impI)
  fix pre post j m e
  assume eq: "xs @ ys = pre @ Raise j m e # post"
  then consider us where "xs = pre @ us" "us @ ys = Raise j m e # post"
    | us where "xs @ us = pre" "ys = us @ Raise j m e # post"
    by (auto simp: append_eq_append_conv2)
  then show "post = [] \<and> f = Some e"
  proof cases
    case 1
    show ?thesis
    proof (cases us)
      case Nil
      with 1 have "ys = [] @ Raise j m e # post" by simp
      with assms(2) show ?thesis unfolding raise_ends_run_def by blast
    next
      case (Cons u us')
      with 1 have "Raise j m e \<in> set xs" by simp
      with assms(1) show ?thesis by fastforce
    qed
  next
    case 2
    with assms(2) show ?thesis unfolding raise_ends_run_def by blast
  qed
qed

lemma no_raise_completed: "\<forall>ev \<in> set (completed_calls i). \<not> is_Raise ev"
  by (simp add: completed_calls_def)

subsection \<open>The loop over \<open>MyTypes\<close>\<close>

lemma for_ThisType_log:
  assumes "for_ThisType toolkit i ags evs = (r, evs')"
  shows "\<exists>sfx. evs' = evs @ sfx \<and>
           (\<forall>j. prefix (invoked_on j sfx) [Solve, InitializeSim, Simulate]) \<and>
           (\<forall>j. j < i \<or> i + length ags \<le> j \<longrightarrow> invoked_on j sfx = []) \<and>
           solve_before_simulate sfx \<and>
           raise_ends_run (failure r) sfx \<and>
           (\<forall>e. r = Inl e \<longrightarrow> (\<exists>pre j m. sfx = pre @ [Raise j m e])) \<and>
           sorted (map agent_of sfx) \<and> (\<forall>ev \<in> set sfx. i \<le> agent_of ev) \<and>
           (\<forall>ags'. r = Inr ags' \<longrightarrow>
              length ags' = length ags \<and>
              sfx = concat (map completed_calls [i..<i + length ags]))"
  using assms
proof (induction ags arbitrary: i evs r evs')
  case Nil
  then show ?case
    by (auto simp: solve_before_simulate_Nil raise_ends_run_Nil)
next
  case (Cons ThisType rest)
  obtain r1 evs1 where one: "solve_and_simulate toolkit i ThisType evs = (r1, evs1)"
    by (cases "solve_and_simulate toolkit i ThisType evs") auto
  from solve_and_simulate_shape [OF one] obtain s1
    where s1: "evs1 = evs @ s1" "run_shape i (failure r1) s1" by blast
  have a1: "\<forall>ev \<in> set s1. agent_of ev = i"
    using run_shape_agent_of [OF s1(2)] by blast
  have srt1: "sorted (map agent_of s1)"
    using a1 by (simp add: sorted_wrt_iff_nth_less sorted_map)
  show ?case
  proof (cases r1)
    case (Inl e)
    with Cons.prems one have res: "r = Inl e" "evs' = evs1" by auto
    have f: "failure r = failure r1" "failure r1 = Some e"
      using res Inl by (simp_all add: failure_def)
    have "prefix (invoked_on j s1) [Solve, InitializeSim, Simulate]" for j
      using run_shape_invoked_self [OF s1(2)] run_shape_invoked_other [OF s1(2), of j]
      by (cases "j = i") auto
    moreover have "invoked_on j s1 = []" if "j < i \<or> i + length (ThisType # rest) \<le> j" for j
      using run_shape_invoked_other [OF s1(2), of j] that by auto
    moreover have "\<exists>pre j m. s1 = pre @ [Raise j m e]"
      using run_shape_failure_raised s1(2) f(2) by fastforce
    ultimately show ?thesis
      using res s1 run_shape_solve_before_simulate [OF s1(2)]
        run_shape_raise_ends_run [OF s1(2)] f a1 srt1 by auto
  next
    case (Inr ag)
    obtain r2 evs2 where two: "for_ThisType toolkit (Suc i) rest evs1 = (r2, evs2)"
      by (cases "for_ThisType toolkit (Suc i) rest evs1") auto
    from Cons.IH [OF two] obtain s2 where s2: "evs2 = evs1 @ s2"
      and p1: "\<And>j. prefix (invoked_on j s2) [Solve, InitializeSim, Simulate]"
      and p2: "\<And>j. j < Suc i \<or> Suc i + length rest \<le> j \<Longrightarrow> invoked_on j s2 = []"
      and p3: "solve_before_simulate s2"
      and p4: "raise_ends_run (failure r2) s2"
      and p6: "\<And>e. r2 = Inl e \<Longrightarrow> \<exists>pre j m. s2 = pre @ [Raise j m e]"
      and p7: "sorted (map agent_of s2)" "\<forall>ev \<in> set s2. Suc i \<le> agent_of ev"
      and p5: "\<And>ags'. r2 = Inr ags' \<Longrightarrow>
                 length ags' = length rest \<and>
                 s2 = concat (map completed_calls [Suc i..<Suc i + length rest])"
      by blast
    have c1: "s1 = completed_calls i"
      using s1(2) Inr by (simp add: run_shape_def failure_def)
    have evs': "evs' = evs @ (s1 @ s2)"
      using Cons.prems one two Inr s1 s2 by (auto split: sum.splits)
    have fr: "failure r = failure r2"
      using Cons.prems one two Inr by (auto simp: failure_def split: sum.splits)
    have q1: "prefix (invoked_on j (s1 @ s2)) [Solve, InitializeSim, Simulate]" for j
    proof (cases "j = i")
      case True
      then show ?thesis
        using p2 [of i] by (simp add: invoked_on_append c1 completed_calls_def)
    next
      case False
      then show ?thesis
        using p1 [of j] run_shape_invoked_other [OF s1(2), of j] by (simp add: invoked_on_append)
    qed
    have q2: "invoked_on j (s1 @ s2) = []" if "j < i \<or> i + length (ThisType # rest) \<le> j" for j
      using that p2 [of j] run_shape_invoked_other [OF s1(2), of j]
      by (auto simp: invoked_on_append)
    have q3: "solve_before_simulate (s1 @ s2)"
      by (rule solve_before_simulate_append [OF run_shape_solve_before_simulate [OF s1(2)] p3])
    have nr: "\<forall>ev \<in> set s1. \<not> is_Raise ev"
      unfolding c1 by (rule no_raise_completed)
    have q4: "raise_ends_run (failure r) (s1 @ s2)"
      unfolding fr by (rule raise_ends_run_prepend [OF nr p4])
    have q7: "sorted (map agent_of (s1 @ s2))" "\<forall>ev \<in> set (s1 @ s2). i \<le> agent_of ev"
      using a1 srt1 p7 by (auto simp: sorted_append)
    show ?thesis
    proof (cases r2)
      case e: (Inl e)
      with Cons.prems one two Inr have r: "r = Inl e" by auto
      from p6 [OF e] obtain pre j m where "s2 = pre @ [Raise j m e]" by blast
      then have "s1 @ s2 = (s1 @ pre) @ [Raise j m e]" by simp
      then have "\<exists>pre j m. s1 @ s2 = pre @ [Raise j m e]" by blast
      with evs' q1 q2 q3 q4 q7 r show ?thesis by auto
    next
      case k: (Inr rest')
      with Cons.prems one two Inr have r: "r = Inr (ag # rest')" by auto
      have "[i..<i + length (ThisType # rest)] = i # [Suc i..<Suc i + length rest]"
        by (simp add: upt_conv_Cons del: upt_Suc)
      then have "s1 @ s2 = concat (map completed_calls [i..<i + length (ThisType # rest)])"
        using p5 [OF k] c1 by (simp del: upt_Suc)
      moreover have "length (ag # rest') = length (ThisType # rest)"
        using p5 [OF k] by simp
      ultimately show ?thesis
        using evs' q1 q2 q3 q4 q7 r by auto
    qed
  qed
qed

subsection \<open>The cells of the life-cycle notebook\<close>

lemma solve_cell_events:
  assumes "solve_cell new_agent toolkit params st = (r, st')"
  shows "(\<exists>e. r = Inl e \<and> lc_events st' = lc_events st) \<or>
         (\<exists>e. r = Inl e \<and> lc_events st' = lc_events st @ [Invoke Agent Solve, Raise Agent Solve e]) \<or>
         (r = Inr () \<and> Agent_obj st' \<noteq> None \<and>
            lc_events st' = lc_events st @ [Invoke Agent Solve, Return Agent Solve])"
proof (cases "new_agent (dict_objects st ! params)")
  case (Inl e)
  with assms show ?thesis by (auto simp: solve_cell_def)
next
  case n: (Inr ag)
  show ?thesis
  proof (cases "toolkit Solve ag")
    case (Inl e)
    with assms n show ?thesis by (auto simp: solve_cell_def method_call_def)
  next
    case (Inr ag')
    with assms n show ?thesis by (auto simp: solve_cell_def method_call_def)
  qed
qed

lemma simulate_Agent_cell_events:
  assumes "simulate_Agent_cell toolkit st = (r, st')" "Agent_obj st \<noteq> None"
  shows "(\<exists>e. r = Inl e \<and>
            lc_events st' = lc_events st @ [Invoke Agent InitializeSim, Raise Agent InitializeSim e]) \<or>
         (\<exists>e. r = Inl e \<and>
            lc_events st' = lc_events st @ [Invoke Agent InitializeSim, Return Agent InitializeSim,
                                           Invoke Agent Simulate, Raise Agent Simulate e]) \<or>
         (r = Inr () \<and>
            lc_events st' = lc_events st @ [Invoke Agent InitializeSim, Return Agent InitializeSim,
                                           Invoke Agent Simulate, Return Agent Simulate])"
proof -
  from assms(2) obtain ag where ag: "Agent_obj st = Some ag" by auto
  show ?thesis
  proof (cases "toolkit InitializeSim ag")
    case (Inl e)
    with assms ag show ?thesis by (auto simp: simulate_Agent_cell_def method_call_def)
  next
    case i: (Inr ag1)
    show ?thesis
    proof (cases "toolkit Simulate ag1")
      case (Inl e)
      with assms ag i show ?thesis by (auto simp: simulate_Agent_cell_def method_call_def)
    next
      case (Inr ag2)
      with assms ag i show ?thesis by (auto simp: simulate_Agent_cell_def method_call_def)
    qed
  qed
qed

lemma no_transitory_cell_events:
  assumes "no_transitory_cell new_agent toolkit params st = (r, st')"
  shows "(\<exists>e. r = Inl e \<and> lc_events st' = lc_events st) \<or>
         (\<exists>sfx. lc_events st' = lc_events st @ sfx \<and> run_shape Agent_nt (failure r) sfx)"
proof -
  define store1 where "store1 = dict_objects st @ [dict_objects st ! params]"
  define a where "a = length (dict_objects st)"
  show ?thesis
  proof (cases "bind_err (dict_get (store1 ! params) ''TranShkStd'') py_len")
    case (Inl e)
    with assms show ?thesis
      by (auto simp: no_transitory_cell_def copy_dict_def store1_def Let_def)
  next
    case n: (Inr n)
    define store2 where
      "store2 = update_dict a ''TranShkStd'' (PyList (replicate n (PyFloat 0))) store1"
    show ?thesis
    proof (cases "new_agent (store2 ! a)")
      case (Inl e)
      with assms n show ?thesis
        by (auto simp: no_transitory_cell_def copy_dict_def store1_def store2_def a_def Let_def)
    next
      case c: (Inr ag)
      obtain r1 evs1 where run: "solve_and_simulate toolkit Agent_nt ag (lc_events st) = (r1, evs1)"
        by (cases "solve_and_simulate toolkit Agent_nt ag (lc_events st)") auto
      from solve_and_simulate_shape [OF run] obtain sfx
        where sfx: "evs1 = lc_events st @ sfx" "run_shape Agent_nt (failure r1) sfx" by blast
      have "lc_events st' = evs1 \<and> failure r = failure r1"
        using assms n c run
        by (cases r1)
          (auto simp: no_transitory_cell_def copy_dict_def store1_def store2_def a_def Let_def
            failure_def)
      with sfx show ?thesis by auto
    qed
  qed
qed

lemma solve_cell_captured:
  "solve_cell new_agent toolkit params st = (r, st') \<Longrightarrow> captured st' = captured st"
  by (auto simp: solve_cell_def split: sum.splits prod.splits)

lemma simulate_Agent_cell_captured:
  "simulate_Agent_cell toolkit st = (r, st') \<Longrightarrow> captured st' = captured st"
  by (auto simp: simulate_Agent_cell_def split: option.splits sum.splits prod.splits)

lemma no_transitory_cell_captured:
  "no_transitory_cell new_agent toolkit params st = (r, st') \<Longrightarrow> captured st' = captured st"
  by (auto simp: no_transitory_cell_def copy_dict_def Let_def split: sum.splits prod.splits)

lemma capture_cases:
  assumes "capture body st = (r, st')"
  shows "r = Inr () \<and>
         ((\<exists>st1. body st = (Inr (), st1) \<and> st' = st1) \<or>
          (\<exists>e st1. body st = (Inl e, st1) \<and> st' = st1\<lparr>captured := captured st1 @ [e]\<rparr>))"
  using assms by (auto simp: capture_def split: sum.splits prod.splits)

lemma capture_completes: "fst (capture body st) = Inr ()"
  by (cases "body st") (auto simp: capture_def split: sum.splits)

lemma run_cells_capture_step:
  assumes "run_cells (capture body # cs) st = (r, st')"
  shows "\<exists>st1. capture body st = (Inr (), st1) \<and> run_cells cs st1 = (r, st')"
proof -
  obtain st1 where c: "capture body st = (Inr (), st1)"
    using capture_completes [of body st] by (metis prod.collapse)
  with assms have "run_cells cs st1 = (r, st')"
    by simp
  with c show ?thesis by blast
qed

lemma run_cells_step:
  "run_cells (c # cs) st = (r, st') \<Longrightarrow>
   (\<exists>e. c st = (Inl e, st') \<and> r = Inl e) \<or> (\<exists>u st1. c st = (Inr u, st1) \<and> run_cells cs st1 = (r, st'))"
  by (cases "c st") (auto split: sum.splits)

lemma capture_simulate_Agent_cell_events:
  assumes "capture (simulate_Agent_cell toolkit) st = (r, st')" "Agent_obj st \<noteq> None"
  shows "r = Inr () \<and>
         (\<exists>A cA. lc_events st' = lc_events st @ A \<and> captured st' = captured st @ cA \<and>
            ((A = [Invoke Agent InitializeSim, Return Agent InitializeSim,
                   Invoke Agent Simulate, Return Agent Simulate] \<and> cA = []) \<or>
             (\<exists>e. A = [Invoke Agent InitializeSim, Raise Agent InitializeSim e] \<and> cA = [e]) \<or>
             (\<exists>e. A = [Invoke Agent InitializeSim, Return Agent InitializeSim,
                   Invoke Agent Simulate, Raise Agent Simulate e] \<and> cA = [e])))"
proof -
  from capture_cases [OF assms(1)] have r: "r = Inr ()"
    by simp
  from capture_cases [OF assms(1)] consider
    st1 where "simulate_Agent_cell toolkit st = (Inr (), st1)" "st' = st1"
    | e st1 where "simulate_Agent_cell toolkit st = (Inl e, st1)"
        "st' = st1\<lparr>captured := captured st1 @ [e]\<rparr>"
    by blast
  then show ?thesis
  proof cases
    case 1
    from simulate_Agent_cell_events [OF 1(1) assms(2)] simulate_Agent_cell_captured [OF 1(1)] 1(2) r
    show ?thesis by simp
  next
    case 2
    from simulate_Agent_cell_events [OF 2(1) assms(2)] simulate_Agent_cell_captured [OF 2(1)] 2(2) r
    show ?thesis by auto
  qed
qed

lemma capture_no_transitory_cell_events:
  assumes "capture (no_transitory_cell new_agent toolkit params) st = (r, st')"
  shows "r = Inr () \<and>
         (\<exists>B cB. lc_events st' = lc_events st @ B \<and> captured st' = captured st @ cB \<and>
            ((B = [] \<and> (\<exists>e. cB = [e])) \<or>
             (B = completed_calls Agent_nt \<and> cB = []) \<or>
             (\<exists>e. run_shape Agent_nt (Some e) B \<and> cB = [e])))"
proof -
  from capture_cases [OF assms(1)] have r: "r = Inr ()"
    by simp
  from capture_cases [OF assms(1)] consider
    st1 where "no_transitory_cell new_agent toolkit params st = (Inr (), st1)" "st' = st1"
    | e st1 where "no_transitory_cell new_agent toolkit params st = (Inl e, st1)"
        "st' = st1\<lparr>captured := captured st1 @ [e]\<rparr>"
    by blast
  then show ?thesis
  proof cases
    case 1
    from no_transitory_cell_events [OF 1(1)] no_transitory_cell_captured [OF 1(1)] 1(2) r
    show ?thesis by (auto simp: failure_def run_shape_def)
  next
    case 2
    from no_transitory_cell_events [OF 2(1)] no_transitory_cell_captured [OF 2(1)] 2(2) r
    show ?thesis by (auto simp: failure_def)
  qed
qed

lemma lc_notebook_events:
  assumes "lc_notebook new_agent toolkit regressions regressions_nt params st = (r, st')"
  shows "(\<exists>e. r = Inl e \<and> lc_events st' = lc_events st \<and> captured st' = captured st) \<or>
         (\<exists>e. r = Inl e \<and> captured st' = captured st \<and>
            lc_events st' = lc_events st @ [Invoke Agent Solve, Raise Agent Solve e]) \<or>
         (\<exists>A B cA cB.
            lc_events st' = lc_events st @ A @ B \<and> captured st' = captured st @ cA @ cB \<and>
            ((A = completed_calls Agent \<and> cA = []) \<or>
             (\<exists>e. A = [Invoke Agent Solve, Return Agent Solve,
                       Invoke Agent InitializeSim, Raise Agent InitializeSim e] \<and> cA = [e]) \<or>
             (\<exists>e. A = [Invoke Agent Solve, Return Agent Solve,
                       Invoke Agent InitializeSim, Return Agent InitializeSim,
                       Invoke Agent Simulate, Raise Agent Simulate e] \<and> cA = [e])) \<and>
            ((B = [] \<and> ((\<exists>e. r = Inl e \<and> cB = []) \<or> (\<exists>e. cB = [e]))) \<or>
             (B = completed_calls Agent_nt \<and> cB = []) \<or>
             (\<exists>e. run_shape Agent_nt (Some e) B \<and> cB = [e])))"
proof -
  let ?c1 = "solve_cell new_agent toolkit params"
  let ?c2 = "capture (simulate_Agent_cell toolkit)"
  let ?c3 = "regression_cells regressions"
  let ?c4 = "capture (no_transitory_cell new_agent toolkit params)"
  let ?c5 = "regression_cells regressions_nt"
  from assms have run: "run_cells [?c1, ?c2, ?c3, ?c4, ?c5] st = (r, st')"
    by (simp add: lc_notebook_def)
  from run_cells_step [OF run] consider
    e where "?c1 st = (Inl e, st')" "r = Inl e"
    | u st1 where "?c1 st = (Inr u, st1)" "run_cells [?c2, ?c3, ?c4, ?c5] st1 = (r, st')"
    by blast
  then show ?thesis
  proof cases
    case 1
    from solve_cell_events [OF 1(1)] solve_cell_captured [OF 1(1)] 1(2) show ?thesis
      by auto
  next
    case 2
    from solve_cell_events [OF 2(1)] solve_cell_captured [OF 2(1)]
    have st1: "Agent_obj st1 \<noteq> None"
      "lc_events st1 = lc_events st @ [Invoke Agent Solve, Return Agent Solve]"
      "captured st1 = captured st"
      by auto
    from run_cells_capture_step [OF 2(2)]
    obtain st2 where c2: "?c2 st1 = (Inr (), st2)"
      and rest: "run_cells [?c3, ?c4, ?c5] st2 = (r, st')"
      by blast
    from capture_simulate_Agent_cell_events [OF c2 st1(1)] obtain A0 cA where
      a0: "lc_events st2 = lc_events st1 @ A0" "captured st2 = captured st1 @ cA"
        "(A0 = [Invoke Agent InitializeSim, Return Agent InitializeSim,
                   Invoke Agent Simulate, Return Agent Simulate] \<and> cA = []) \<or>
             (\<exists>e. A0 = [Invoke Agent InitializeSim, Raise Agent InitializeSim e] \<and> cA = [e]) \<or>
             (\<exists>e. A0 = [Invoke Agent InitializeSim, Return Agent InitializeSim,
                   Invoke Agent Simulate, Raise Agent Simulate e] \<and> cA = [e])"
      by blast
    define A where "A = [Invoke Agent Solve, Return Agent Solve] @ A0"
    have A: "lc_events st2 = lc_events st @ A" "captured st2 = captured st @ cA"
      using a0 st1 by (simp_all add: A_def)
    have shapeA: "(A = completed_calls Agent \<and> cA = []) \<or>
             (\<exists>e. A = [Invoke Agent Solve, Return Agent Solve,
                       Invoke Agent InitializeSim, Raise Agent InitializeSim e] \<and> cA = [e]) \<or>
             (\<exists>e. A = [Invoke Agent Solve, Return Agent Solve,
                       Invoke Agent InitializeSim, Return Agent InitializeSim,
                       Invoke Agent Simulate, Raise Agent Simulate e] \<and> cA = [e])"
      using a0(3) by (auto simp: A_def completed_calls_def)
    from run_cells_step [OF rest] consider
      e where "?c3 st2 = (Inl e, st')" "r = Inl e"
      | u st3 where "?c3 st2 = (Inr u, st3)" "run_cells [?c4, ?c5] st3 = (r, st')"
      by blast
    then show ?thesis
    proof cases
      case 1
      from 1(1) have "st' = st2"
        by (simp add: regression_cells_def)
      with A 1(2) have "lc_events st' = lc_events st @ A @ [] \<and>
          captured st' = captured st @ cA @ [] \<and> (\<exists>e. r = Inl e \<and> ([]::py_error list) = [])"
        by simp
      with shapeA show ?thesis
        by blast
    next
      case 2
      from 2(1) have st3: "st3 = st2"
        by (simp add: regression_cells_def)
      from run_cells_capture_step [OF 2(2)]
      obtain st4 where c4: "?c4 st3 = (Inr (), st4)"
        and rest4: "run_cells [?c5] st4 = (r, st')"
        by blast
      from run_cells_step [OF rest4] have "st' = st4"
        by (auto simp: regression_cells_def)
      with capture_no_transitory_cell_events [OF c4] st3 A obtain B cB where
        B: "lc_events st' = lc_events st @ A @ B" "captured st' = captured st @ cA @ cB"
          "(B = [] \<and> (\<exists>e. cB = [e])) \<or>
             (B = completed_calls Agent_nt \<and> cB = []) \<or>
             (\<exists>e. run_shape Agent_nt (Some e) B \<and> cB = [e])"
        by auto
      from B(3) have "(B = [] \<and> ((\<exists>e. r = Inl e \<and> cB = []) \<or> (\<exists>e. cB = [e]))) \<or>
             (B = completed_calls Agent_nt \<and> cB = []) \<or>
             (\<exists>e. run_shape Agent_nt (Some e) B \<and> cB = [e])"
        by blast
      with B(1,2) shapeA show ?thesis
        by blast
    qed
  qed
qed












lemma raise_in_append:
  assumes "xs @ ys = pre @ Raise j m e # post"
  shows "(\<exists>post1. xs = pre @ Raise j m e # post1 \<and> post = post1 @ ys) \<or>
         (\<exists>pre2. ys = pre2 @ Raise j m e # post \<and> pre = xs @ pre2)"
  using assms by (auto simp: append_eq_append_conv2 append_eq_Cons_conv Cons_eq_append_conv)

lemma lc_notebook_raises:
  assumes "lc_notebook new_agent toolkit regressions regressions_nt params st = (r, st')"
  shows "\<exists>sfx cs. lc_events st' = lc_events st @ sfx \<and> captured st' = captured st @ cs \<and>
           (\<forall>pre post j m e. sfx = pre @ Raise j m e # post \<longrightarrow>
              (\<forall>ev \<in> set post. agent_of ev \<noteq> j) \<and>
              (if j = Agent \<and> m = Solve then post = [] \<and> r = Inl e else e \<in> set cs))"
proof -
  from lc_notebook_events [OF assms] consider
    (a) "\<exists>e. r = Inl e \<and> lc_events st' = lc_events st \<and> captured st' = captured st"
    | (b) "\<exists>e. r = Inl e \<and> captured st' = captured st \<and>
            lc_events st' = lc_events st @ [Invoke Agent Solve, Raise Agent Solve e]"
    | (c) "\<exists>A B cA cB.
            lc_events st' = lc_events st @ A @ B \<and> captured st' = captured st @ cA @ cB \<and>
            ((A = completed_calls Agent \<and> cA = []) \<or>
             (\<exists>e. A = [Invoke Agent Solve, Return Agent Solve,
                       Invoke Agent InitializeSim, Raise Agent InitializeSim e] \<and> cA = [e]) \<or>
             (\<exists>e. A = [Invoke Agent Solve, Return Agent Solve,
                       Invoke Agent InitializeSim, Return Agent InitializeSim,
                       Invoke Agent Simulate, Raise Agent Simulate e] \<and> cA = [e])) \<and>
            ((B = [] \<and> ((\<exists>e. r = Inl e \<and> cB = []) \<or> (\<exists>e. cB = [e]))) \<or>
             (B = completed_calls Agent_nt \<and> cB = []) \<or>
             (\<exists>e. run_shape Agent_nt (Some e) B \<and> cB = [e]))"
    by blast
  then show ?thesis
  proof cases
    case a
    then have 1: "lc_events st' = lc_events st @ []" "captured st' = captured st @ []"
      by simp_all
    show ?thesis
      by (intro exI [of _ "[]"] conjI 1) simp
  next
    case b
    then obtain e where 2: "lc_events st' = lc_events st @ [Invoke Agent Solve, Raise Agent Solve e]"
        "r = Inl e" "captured st' = captured st @ []"
      by auto
    have "\<forall>pre post j m e'. [Invoke Agent Solve, Raise Agent Solve e] = pre @ Raise j m e' # post \<longrightarrow>
              (\<forall>ev \<in> set post. agent_of ev \<noteq> j) \<and>
              (if j = Agent \<and> m = Solve then post = [] \<and> r = Inl e' else e' \<in> set [])"
      using 2(2) by (auto simp: Cons_eq_append_conv)
    with 2(1,3) show ?thesis
      by blast
  next
    case c
    then obtain A B cA cB where 3: "lc_events st' = lc_events st @ A @ B"
        "captured st' = captured st @ cA @ cB"
        "(A = completed_calls Agent \<and> cA = []) \<or>
         (\<exists>e. A = [Invoke Agent Solve, Return Agent Solve,
                   Invoke Agent InitializeSim, Raise Agent InitializeSim e] \<and> cA = [e]) \<or>
         (\<exists>e. A = [Invoke Agent Solve, Return Agent Solve,
                   Invoke Agent InitializeSim, Return Agent InitializeSim,
                   Invoke Agent Simulate, Raise Agent Simulate e] \<and> cA = [e])"
        "(B = [] \<and> ((\<exists>e. r = Inl e \<and> cB = []) \<or> (\<exists>e. cB = [e]))) \<or>
         (B = completed_calls Agent_nt \<and> cB = []) \<or>
         (\<exists>e. run_shape Agent_nt (Some e) B \<and> cB = [e])"
      by blast
    have "(\<forall>ev \<in> set post. agent_of ev \<noteq> j) \<and>
          (if j = Agent \<and> m = Solve then post = [] \<and> r = Inl e else e \<in> set (cA @ cB))"
      if eq: "A @ B = pre @ Raise j m e # post" for pre post j m e
    proof -
      from raise_in_append [OF eq] consider
        post1 where "A = pre @ Raise j m e # post1" "post = post1 @ B"
        | pre2 where "B = pre2 @ Raise j m e # post"
        by blast
      then show ?thesis
      proof cases
        case 1
        from 3(3) 1(1) have a: "post1 = [] \<and> j = Agent \<and> m \<noteq> Solve \<and> cA = [e]"
          by (auto simp: completed_calls_def Cons_eq_append_conv append_eq_Cons_conv)
        have "agent_of ev = Agent_nt" if "ev \<in> set B" for ev
          using 3(4) that run_shape_agent_of [of Agent_nt _ B ev]
          by (auto simp: completed_calls_def)
        with a 1(2) show ?thesis
          by auto
      next
        case 2
        from 3(4) 2 obtain e' where b: "run_shape Agent_nt (Some e') B" "cB = [e']"
          by (auto simp: completed_calls_def Cons_eq_append_conv append_eq_Cons_conv)
        from run_shape_raise_ends_run [OF b(1)] 2 have "post = [] \<and> e' = e"
          unfolding raise_ends_run_def by blast
        moreover from run_shape_agent_of [OF b(1), of "Raise j m e"] 2 have "j = Agent_nt"
          by simp
        ultimately show ?thesis
          using b(2) by simp
      qed
    qed
    with 3(1,2) show ?thesis
      by blast
  qed
qed

lemma solve_cell_raise_ends_run:
  assumes "solve_cell new_agent toolkit params st = (r, st')"
  shows "\<exists>sfx. lc_events st' = lc_events st @ sfx \<and> raise_ends_run (failure r) sfx"
proof -
  from solve_cell_events [OF assms] consider
    "lc_events st' = lc_events st @ []"
    | e where "r = Inl e" "lc_events st' = lc_events st @ [Invoke Agent Solve, Raise Agent Solve e]"
    | "r = Inr ()" "lc_events st' = lc_events st @ [Invoke Agent Solve, Return Agent Solve]"
    by auto
  then show ?thesis
  proof cases
    case 1
    with raise_ends_run_Nil show ?thesis by blast
  next
    case 2
    have "raise_ends_run (failure r) [Invoke Agent Solve, Raise Agent Solve e]"
      using 2(1) by (auto simp: raise_ends_run_def failure_def Cons_eq_append_conv)
    with 2(2) show ?thesis by blast
  next
    case 3
    have "raise_ends_run (failure r) [Invoke Agent Solve, Return Agent Solve]"
      by (auto simp: raise_ends_run_def Cons_eq_append_conv)
    with 3(2) show ?thesis by blast
  qed
qed

lemma simulate_Agent_cell_raise_ends_run:
  assumes "simulate_Agent_cell toolkit st = (r, st')"
  shows "\<exists>sfx. lc_events st' = lc_events st @ sfx \<and> raise_ends_run (failure r) sfx"
proof (cases "Agent_obj st")
  case None
  with assms have "lc_events st' = lc_events st @ []"
    by (auto simp: simulate_Agent_cell_def)
  with raise_ends_run_Nil show ?thesis by blast
next
  case (Some ag)
  then have ne: "Agent_obj st \<noteq> None" by simp
  from simulate_Agent_cell_events [OF assms ne] consider
    e where "r = Inl e"
      "lc_events st' = lc_events st @ [Invoke Agent InitializeSim, Raise Agent InitializeSim e]"
    | e where "r = Inl e"
      "lc_events st' = lc_events st @ [Invoke Agent InitializeSim, Return Agent InitializeSim,
                                           Invoke Agent Simulate, Raise Agent Simulate e]"
    | "r = Inr ()"
      "lc_events st' = lc_events st @ [Invoke Agent InitializeSim, Return Agent InitializeSim,
                                           Invoke Agent Simulate, Return Agent Simulate]"
    by auto
  then show ?thesis
  proof cases
    case 1
    have "raise_ends_run (failure r) [Invoke Agent InitializeSim, Raise Agent InitializeSim e]"
      using 1(1) by (auto simp: raise_ends_run_def failure_def Cons_eq_append_conv)
    with 1(2) show ?thesis by blast
  next
    case 2
    have "raise_ends_run (failure r) [Invoke Agent InitializeSim, Return Agent InitializeSim,
                                           Invoke Agent Simulate, Raise Agent Simulate e]"
      using 2(1) by (auto simp: raise_ends_run_def failure_def Cons_eq_append_conv)
    with 2(2) show ?thesis by blast
  next
    case 3
    have "raise_ends_run (failure r) [Invoke Agent InitializeSim, Return Agent InitializeSim,
                                           Invoke Agent Simulate, Return Agent Simulate]"
      by (auto simp: raise_ends_run_def Cons_eq_append_conv)
    with 3(2) show ?thesis by blast
  qed
qed

lemma no_transitory_cell_raise_ends_run:
  assumes "no_transitory_cell new_agent toolkit params st = (r, st')"
  shows "\<exists>sfx. lc_events st' = lc_events st @ sfx \<and> raise_ends_run (failure r) sfx"
  using no_transitory_cell_events [OF assms]
proof
  assume "\<exists>e. r = Inl e \<and> lc_events st' = lc_events st"
  then have "lc_events st' = lc_events st @ [] \<and> raise_ends_run (failure r) []"
    by (auto simp: raise_ends_run_Nil)
  then show ?thesis by blast
next
  assume "\<exists>sfx. lc_events st' = lc_events st @ sfx \<and> run_shape Agent_nt (failure r) sfx"
  then obtain s where s: "lc_events st' = lc_events st @ s" "run_shape Agent_nt (failure r) s"
    by blast
  from s(1) run_shape_raise_ends_run [OF s(2)] show ?thesis
    by blast
qed

lemma plot1_solve_raises:
  "plot_parameters A Epsilon DiscFac PopGrowth YearsPerGeneration = Inr p \<Longrightarrow>
   make_solved_agent A solve fresh (Beta p) = Inl e \<Longrightarrow>
   plot1 A solve fresh Epsilon DiscFac PopGrowth YearsPerGeneration Initialk = Inl e"
  by (simp add: plot1_def bind_err_def)

lemma plot3_solve_raises:
  "plot_parameters A Epsilon DiscFac (f_lit A 1) YearsPerGeneration = Inr p \<Longrightarrow>
   f_div A (f_mul A z (f_add A (f_lit A 1) (f_mul A Rfree (Beta p))))
     (f_mul A Rfree (f_add A (f_lit A 1) (Beta p))) = Inr transfers \<Longrightarrow>
   make_solved_agent A solve fresh (Beta p) = Inl e \<Longrightarrow>
   plot3 A solve fresh find_root fuel Epsilon DiscFac z Rfree YearsPerGeneration = Some (Inl e)"
  by (simp add: plot3_def Let_def)

lemma savrate_solve_raises:
  "solve PFsavrate = Inl e \<Longrightarrow> savrate_solve_cell solve PFsavrate = Inl e"
  by (simp add: savrate_solve_cell_def bind_err_def)

lemma capture_result:
  "body st = (r, st') \<Longrightarrow>
   capture body st =
     (Inr (), case r of Inl e \<Rightarrow> st'\<lparr>captured := captured st' @ [e]\<rparr> | Inr u \<Rightarrow> st')"
  by (cases r) (simp_all add: capture_def)

lemma failing_run:
  "fst (lc_notebook example_new_agent failing_toolkit no_failure no_failure 0 lc_start) = Inr () \<and>
   lc_events (snd (lc_notebook example_new_agent failing_toolkit no_failure no_failure 0 lc_start)) =
     [Invoke Agent Solve, Return Agent Solve,
      Invoke Agent InitializeSim, Return Agent InitializeSim,
      Invoke Agent Simulate, Raise Agent Simulate ToolkitError,
      Invoke Agent_nt Solve, Return Agent_nt Solve,
      Invoke Agent_nt InitializeSim, Return Agent_nt InitializeSim,
      Invoke Agent_nt Simulate, Return Agent_nt Simulate] \<and>
   captured (snd (lc_notebook example_new_agent failing_toolkit no_failure no_failure 0 lc_start)) =
     [ToolkitError]"
  by (simp add: lc_notebook_def solve_cell_def simulate_Agent_cell_def no_transitory_cell_def
      capture_def regression_cells_def no_failure_def example_new_agent_def failing_toolkit_def
      lc_start_def method_call_def solve_and_simulate_def copy_dict_def update_dict_def
      bind_err_def dict_get_def Let_def)

lemma lc_start_solve_fails:
  "fst (solve_cell example_new_agent (\<lambda>m ag. Inl ToolkitError) 0 lc_start) = Inl ToolkitError"
  by (simp add: solve_cell_def example_new_agent_def lc_start_def method_call_def)

lemma lc_start_simulate_fails:
  "fst (simulate_Agent_cell failing_toolkit (lc_start\<lparr>Agent_obj := Some Map.empty\<rparr>)) =
     Inl ToolkitError"
  by (simp add: simulate_Agent_cell_def failing_toolkit_def lc_start_def method_call_def)

lemma lc_start_nt_fails:
  "fst (no_transitory_cell example_new_agent
          (\<lambda>m ag. if m = Simulate then Inl ToolkitError else Inr ag) 0 lc_start) =
     Inl ToolkitError"
  by (simp add: no_transitory_cell_def example_new_agent_def lc_start_def method_call_def
      solve_and_simulate_def copy_dict_def update_dict_def bind_err_def dict_get_def Let_def)

lemma example_transfers:
  "f_div exact_arith
     (f_mul exact_arith (Some 0)
        (f_add exact_arith (f_lit exact_arith 1) (f_mul exact_arith (Some 1) (Some 1))))
     (f_mul exact_arith (Some 1) (f_add exact_arith (f_lit exact_arith 1) (Some 1))) =
   Inr (Some 0)"
  by (simp add: exact_arith_fields lift2_def exact_div_def)

text \<open>
  C4. No notebook wraps a call of the toolkit in a handler, so a call that raises ends the
  statements of its cell: in the loop over \<open>MyTypes\<close> and in the bodies of the three
  life-cycle cells the raising call is the last event and its exception is the outcome of
  the body, and the loop fails only in this way. The exception reaches the caller of the
  loop, of \<open>Agent.solve()\<close>, and of \<open>solve()\<close> in \<open>plot1\<close>, \<open>plot3\<close> and the saving-rate
  notebook. The two life-cycle cells headed by \<^verbatim>\<open>%%capture\<close> complete whatever their
  body raised, the exception going to the captured output. In a top-to-bottom run of the
  life-cycle notebook, therefore, an agent receives no call after one of its calls raised;
  an exception of \<open>Agent.solve()\<close> ends the run and is its outcome, every other one is
  captured and the run goes on.
\<close>

theorem toolkit_exceptions_end_the_cell_body:
  assumes "simulate_cell toolkit MyTypes = (r, evs)"
    and "solve_cell new_agent1 toolkit1 params1 st1 = (r1, st1')"
    and "simulate_Agent_cell toolkit2 st2 = (r2, st2')"
    and "no_transitory_cell new_agent3 toolkit3 params3 st3 = (r3, st3')"
    and "lc_notebook new_agent4 toolkit4 regressions regressions_nt params4 st4 = (r4, st4')"
  shows "raise_ends_run (failure r) evs \<and>
         (\<forall>e. r = Inl e \<longrightarrow> (\<exists>pre j m. evs = pre @ [Raise j m e])) \<and>
         (\<exists>sfx. lc_events st1' = lc_events st1 @ sfx \<and> raise_ends_run (failure r1) sfx) \<and>
         (\<exists>sfx. lc_events st2' = lc_events st2 @ sfx \<and> raise_ends_run (failure r2) sfx) \<and>
         (\<exists>sfx. lc_events st3' = lc_events st3 @ sfx \<and> raise_ends_run (failure r3) sfx) \<and>
         capture (simulate_Agent_cell toolkit2) st2 =
           (Inr (), case r2 of Inl e \<Rightarrow> st2'\<lparr>captured := captured st2' @ [e]\<rparr> | Inr u \<Rightarrow> st2') \<and>
         capture (no_transitory_cell new_agent3 toolkit3 params3) st3 =
           (Inr (), case r3 of Inl e \<Rightarrow> st3'\<lparr>captured := captured st3' @ [e]\<rparr> | Inr u \<Rightarrow> st3') \<and>
         (\<exists>sfx cs. lc_events st4' = lc_events st4 @ sfx \<and> captured st4' = captured st4 @ cs \<and>
            (\<forall>pre post j m e. sfx = pre @ Raise j m e # post \<longrightarrow>
               (\<forall>ev \<in> set post. agent_of ev \<noteq> j) \<and>
               (if j = Agent \<and> m = Solve then post = [] \<and> r4 = Inl e else e \<in> set cs))) \<and>
         (\<forall>e m ag i evs0. toolkit m ag = Inl e \<longrightarrow>
            method_call toolkit i m ag evs0 = (Inl e, evs0 @ [Invoke i m, Raise i m e])) \<and>
         (\<forall>e p. plot_parameters A Epsilon DiscFac PopGrowth YearsPerGeneration = Inr p \<longrightarrow>
            make_solved_agent A solve fresh (Beta p) = Inl e \<longrightarrow>
            plot1 A solve fresh Epsilon DiscFac PopGrowth YearsPerGeneration Initialk = Inl e) \<and>
         (\<forall>e p transfers.
            plot_parameters A Epsilon DiscFac (f_lit A 1) YearsPerGeneration = Inr p \<longrightarrow>
            f_div A (f_mul A z (f_add A (f_lit A 1) (f_mul A Rfree (Beta p))))
              (f_mul A Rfree (f_add A (f_lit A 1) (Beta p))) = Inr transfers \<longrightarrow>
            make_solved_agent A solve fresh (Beta p) = Inl e \<longrightarrow>
            plot3 A solve fresh find_root fuel Epsilon DiscFac z Rfree YearsPerGeneration =
              Some (Inl e)) \<and>
         (\<forall>e. solve' PFsavrate = Inl e \<longrightarrow> savrate_solve_cell solve' PFsavrate = Inl e)"
proof -
  from assms(1) have loop: "for_ThisType toolkit 0 MyTypes [] = (r, evs)"
    by (simp add: simulate_cell_def)
  from for_ThisType_log [OF loop] obtain sfx where sfx: "evs = [] @ sfx"
    and a': "raise_ends_run (failure r) sfx"
    and b': "\<forall>e. r = Inl e \<longrightarrow> (\<exists>pre j m. sfx = pre @ [Raise j m e])"
    by blast
  have a: "raise_ends_run (failure r) evs"
    and b: "\<forall>e. r = Inl e \<longrightarrow> (\<exists>pre j m. evs = pre @ [Raise j m e])"
    using sfx a' b' by simp_all
  note c1 = solve_cell_raise_ends_run [OF assms(2)]
  note c2 = simulate_Agent_cell_raise_ends_run [OF assms(3)]
  note c3 = no_transitory_cell_raise_ends_run [OF assms(4)]
  note k2 = capture_result [of "simulate_Agent_cell toolkit2" st2 r2 st2', OF assms(3)]
  note k3 = capture_result [of "no_transitory_cell new_agent3 toolkit3 params3" st3 r3 st3',
      OF assms(4)]
  note c4 = lc_notebook_raises [OF assms(5)]
  have d: "\<forall>e m ag i evs0. toolkit m ag = Inl e \<longrightarrow>
            method_call toolkit i m ag evs0 = (Inl e, evs0 @ [Invoke i m, Raise i m e])"
    by (simp add: method_call_def)
  have e1: "\<forall>e p. plot_parameters A Epsilon DiscFac PopGrowth YearsPerGeneration = Inr p \<longrightarrow>
            make_solved_agent A solve fresh (Beta p) = Inl e \<longrightarrow>
            plot1 A solve fresh Epsilon DiscFac PopGrowth YearsPerGeneration Initialk = Inl e"
    by (intro allI impI) (rule plot1_solve_raises)
  have e2: "\<forall>e p transfers.
            plot_parameters A Epsilon DiscFac (f_lit A 1) YearsPerGeneration = Inr p \<longrightarrow>
            f_div A (f_mul A z (f_add A (f_lit A 1) (f_mul A Rfree (Beta p))))
              (f_mul A Rfree (f_add A (f_lit A 1) (Beta p))) = Inr transfers \<longrightarrow>
            make_solved_agent A solve fresh (Beta p) = Inl e \<longrightarrow>
            plot3 A solve fresh find_root fuel Epsilon DiscFac z Rfree YearsPerGeneration =
              Some (Inl e)"
    by (intro allI impI) (rule plot3_solve_raises)
  have e3: "\<forall>e. solve' PFsavrate = Inl e \<longrightarrow> savrate_solve_cell solve' PFsavrate = Inl e"
    using savrate_solve_raises by blast
  show ?thesis
    by (intro conjI a b c1 c2 c3 k2 k3 c4 d e1 e2 e3)
qed

theorem toolkit_exceptions_end_the_cell_body_witness:
  "simulate_cell (\<lambda>m ag. if m = InitializeSim then Inl ToolkitError else Inr ag) [(), ()] =
     (Inl ToolkitError,
      [Invoke 0 Solve, Return 0 Solve, Invoke 0 InitializeSim, Raise 0 InitializeSim ToolkitError]) \<and>
   raise_ends_run (Some ToolkitError)
     [Invoke (0::nat) Solve, Return 0 Solve, Invoke 0 InitializeSim,
      Raise 0 InitializeSim ToolkitError] \<and>
   (\<exists>st'. solve_cell example_new_agent (\<lambda>m ag. Inl ToolkitError) 0 lc_start =
             (Inl ToolkitError, st') \<and>
      (\<exists>sfx. lc_events st' = lc_events (lc_start :: dict lc_state) @ sfx \<and>
         raise_ends_run (Some ToolkitError) sfx)) \<and>
   (\<exists>st'. simulate_Agent_cell failing_toolkit (lc_start\<lparr>Agent_obj := Some Map.empty\<rparr>) =
             (Inl ToolkitError, st') \<and>
      (\<exists>sfx. lc_events st' =
           lc_events ((lc_start :: dict lc_state)\<lparr>Agent_obj := Some Map.empty\<rparr>) @ sfx \<and>
         raise_ends_run (Some ToolkitError) sfx) \<and>
      capture (simulate_Agent_cell failing_toolkit) (lc_start\<lparr>Agent_obj := Some Map.empty\<rparr>) =
        (Inr (), st'\<lparr>captured := captured st' @ [ToolkitError]\<rparr>)) \<and>
   (\<exists>st'. no_transitory_cell example_new_agent
             (\<lambda>m ag. if m = Simulate then Inl ToolkitError else Inr ag) 0 lc_start =
             (Inl ToolkitError, st') \<and>
      (\<exists>sfx. lc_events st' = lc_events (lc_start :: dict lc_state) @ sfx \<and>
         raise_ends_run (Some ToolkitError) sfx) \<and>
      capture (no_transitory_cell example_new_agent
             (\<lambda>m ag. if m = Simulate then Inl ToolkitError else Inr ag) 0) lc_start =
        (Inr (), st'\<lparr>captured := captured st' @ [ToolkitError]\<rparr>)) \<and>
   (\<exists>st'. lc_notebook example_new_agent failing_toolkit no_failure no_failure 0 lc_start =
             (Inr (), st') \<and>
      (\<exists>cs. captured st' = captured (lc_start :: dict lc_state) @ cs \<and>
         lc_events st' = lc_events (lc_start :: dict lc_state) @
           [Invoke Agent Solve, Return Agent Solve, Invoke Agent InitializeSim,
            Return Agent InitializeSim, Invoke Agent Simulate] @
           Raise Agent Simulate ToolkitError # completed_calls Agent_nt \<and>
         (\<forall>ev \<in> set (completed_calls Agent_nt). agent_of ev \<noteq> Agent) \<and>
         ToolkitError \<in> set cs)) \<and>
   plot_parameters exact_arith (Some (1 / 2)) (Some 1) (Some 1) (Some 1) =
     Inr \<lparr>Beta = Some 1, xi = Some 1, Q = Some (1 / 4), kBar = Some (1 / 16)\<rparr> \<and>
   make_solved_agent exact_arith (\<lambda>ag. Inl ToolkitError) fresh_olg (Some 1) = Inl ToolkitError \<and>
   plot1 exact_arith (\<lambda>ag. Inl ToolkitError) fresh_olg (Some (1 / 2)) (Some 1) (Some 1) (Some 1)
     (Some 1) = Inl ToolkitError \<and>
   plot3 exact_arith (\<lambda>ag. Inl ToolkitError) fresh_olg (\<lambda>f x0. x0) 0 (Some (1 / 2)) (Some 1)
     (Some 0) (Some 1) (Some 1) = Some (Inl ToolkitError) \<and>
   savrate_solve_cell (\<lambda>ag. Inl ToolkitError) fresh_example = Inl ToolkitError"
proof -
  let ?tk = "\<lambda>(m::tk_method) (ag::unit). if m = InitializeSim then Inl ToolkitError else Inr ag"
  let ?tk1 = "\<lambda>(m::tk_method) (ag::dict). (Inl ToolkitError :: py_error + dict)"
  let ?tk3 = "\<lambda>(m::tk_method) (ag::dict). if m = Simulate then Inl ToolkitError else Inr ag"
  let ?st2 = "(lc_start :: dict lc_state)\<lparr>Agent_obj := Some Map.empty\<rparr>"
  let ?solve = "\<lambda>ag::real option PFagent. (Inl ToolkitError :: py_error + real option PFagent)"
  let ?solve' = "\<lambda>ag::real PFagent. (Inl ToolkitError :: py_error + real PFagent)"
  let ?p = "\<lparr>Beta = Some 1, xi = Some 1, Q = Some (1 / 4), kBar = Some (1 / 16 :: real)\<rparr>"
  have h1: "simulate_cell ?tk [(), ()] =
     (Inl ToolkitError,
      [Invoke 0 Solve, Return 0 Solve, Invoke 0 InitializeSim, Raise 0 InitializeSim ToolkitError])"
    by (simp add: simulate_cell_def solve_and_simulate_def method_call_def)
  obtain st1 where h2: "solve_cell example_new_agent ?tk1 0 lc_start = (Inl ToolkitError, st1)"
    using lc_start_solve_fails by (metis prod.collapse)
  obtain st2 where h3: "simulate_Agent_cell failing_toolkit ?st2 = (Inl ToolkitError, st2)"
    using lc_start_simulate_fails by (metis prod.collapse)
  obtain st3 where h4:
    "no_transitory_cell example_new_agent ?tk3 0 lc_start = (Inl ToolkitError, st3)"
    using lc_start_nt_fails by (metis prod.collapse)
  obtain st4 where h5:
    "lc_notebook example_new_agent failing_toolkit no_failure no_failure 0 lc_start = (Inr (), st4)"
    using failing_run by (metis prod.collapse)
  have ev4: "lc_events st4 =
     [Invoke Agent Solve, Return Agent Solve, Invoke Agent InitializeSim,
      Return Agent InitializeSim, Invoke Agent Simulate] @
     Raise Agent Simulate ToolkitError # completed_calls Agent_nt"
    using failing_run h5 by (simp add: completed_calls_def)
  have ev0: "lc_events (lc_start :: dict lc_state) = []"
    by (simp add: lc_start_def)
  have p: "plot_parameters exact_arith (Some (1 / 2)) (Some 1) (Some 1) (Some 1) = Inr ?p"
    by (rule example_parameters)
  have p3: "plot_parameters exact_arith (Some (1 / 2)) (Some 1) (f_lit exact_arith 1) (Some 1) =
      Inr ?p"
    using p by (simp add: exact_arith_fields)
  have tr: "f_div exact_arith
     (f_mul exact_arith (Some 0)
        (f_add exact_arith (f_lit exact_arith 1) (f_mul exact_arith (Some 1) (Beta ?p))))
     (f_mul exact_arith (Some 1) (f_add exact_arith (f_lit exact_arith 1) (Beta ?p))) =
     Inr (Some 0)"
    using example_transfers by simp
  have ms0: "make_solved_agent exact_arith ?solve fresh_olg (Some 1) = Inl ToolkitError"
    by (simp add: make_solved_agent_def)
  have ms: "make_solved_agent exact_arith ?solve fresh_olg (Beta ?p) = Inl ToolkitError"
    by (simp add: make_solved_agent_def)
  have sv: "?solve' fresh_example = Inl ToolkitError"
    by simp
  note t = toolkit_exceptions_end_the_cell_body [OF h1 h2 h3 h4 h5,
      where A = exact_arith and Epsilon = "Some (1 / 2)" and DiscFac = "Some 1"
        and PopGrowth = "Some 1" and YearsPerGeneration = "Some 1"
        and solve = ?solve and fresh = fresh_olg and Initialk = "Some 1" and z = "Some 0"
        and Rfree = "Some 1" and find_root = "\<lambda>f x0. x0" and fuel = 0
        and solve' = ?solve' and PFsavrate = fresh_example]
  have f1: "failure (Inl ToolkitError :: py_error + unit list) = Some ToolkitError"
    and f2: "failure (Inl ToolkitError :: py_error + unit) = Some ToolkitError"
    by (simp_all add: failure_def)
  have a: "raise_ends_run (Some ToolkitError)
     [Invoke (0::nat) Solve, Return 0 Solve, Invoke 0 InitializeSim,
      Raise 0 InitializeSim ToolkitError]"
    using t [THEN conjunct1] unfolding f1 .
  note t2 = t [THEN conjunct2, THEN conjunct2]
  have b1: "\<exists>sfx. lc_events st1 = lc_events (lc_start :: dict lc_state) @ sfx \<and>
      raise_ends_run (Some ToolkitError) sfx"
    using t2 [THEN conjunct1] unfolding f2 .
  note t3 = t2 [THEN conjunct2]
  have b2: "\<exists>sfx. lc_events st2 = lc_events ?st2 @ sfx \<and> raise_ends_run (Some ToolkitError) sfx"
    using t3 [THEN conjunct1] unfolding f2 .
  note t4 = t3 [THEN conjunct2]
  have b3: "\<exists>sfx. lc_events st3 = lc_events (lc_start :: dict lc_state) @ sfx \<and>
      raise_ends_run (Some ToolkitError) sfx"
    using t4 [THEN conjunct1] unfolding f2 .
  note t5 = t4 [THEN conjunct2]
  have k2: "capture (simulate_Agent_cell failing_toolkit) ?st2 =
        (Inr (), st2\<lparr>captured := captured st2 @ [ToolkitError]\<rparr>)"
    using t5 [THEN conjunct1] by simp
  note t6 = t5 [THEN conjunct2]
  have k3: "capture (no_transitory_cell example_new_agent ?tk3 0) lc_start =
        (Inr (), st3\<lparr>captured := captured st3 @ [ToolkitError]\<rparr>)"
    using t6 [THEN conjunct1] by simp
  note t7 = t6 [THEN conjunct2]
  from t7 [THEN conjunct1] obtain sfx cs where
    run: "lc_events st4 = lc_events (lc_start :: dict lc_state) @ sfx"
      "captured st4 = captured (lc_start :: dict lc_state) @ cs"
      "\<forall>pre post j m e. sfx = pre @ Raise j m e # post \<longrightarrow>
               (\<forall>ev \<in> set post. agent_of ev \<noteq> j) \<and>
               (if j = Agent \<and> m = Solve then post = [] \<and> (Inr () :: py_error + unit) = Inl e
                else e \<in> set cs)"
    by blast
  from run(1) ev0 ev4 have sfx: "sfx =
     [Invoke Agent Solve, Return Agent Solve, Invoke Agent InitializeSim,
      Return Agent InitializeSim, Invoke Agent Simulate] @
     Raise Agent Simulate ToolkitError # completed_calls Agent_nt"
    by simp
  from run(3) [rule_format, OF sfx]
  have w: "(\<forall>ev \<in> set (completed_calls Agent_nt). agent_of ev \<noteq> Agent) \<and> ToolkitError \<in> set cs"
    by simp
  note rest = t7 [THEN conjunct2, THEN conjunct2]
  have g1: "plot1 exact_arith ?solve fresh_olg (Some (1 / 2)) (Some 1) (Some 1) (Some 1)
     (Some 1) = Inl ToolkitError"
    using rest [THEN conjunct1, rule_format, OF p ms] .
  have g2: "plot3 exact_arith ?solve fresh_olg (\<lambda>f x0. x0) 0 (Some (1 / 2)) (Some 1)
     (Some 0) (Some 1) (Some 1) = Some (Inl ToolkitError)"
    using rest [THEN conjunct2, THEN conjunct1, rule_format, OF p3 tr ms] .
  have g3: "savrate_solve_cell ?solve' fresh_example = Inl ToolkitError"
    using rest [THEN conjunct2, THEN conjunct2, rule_format, OF sv] .
  have c1: "\<exists>st'. solve_cell example_new_agent ?tk1 0 lc_start =
             (Inl ToolkitError, st') \<and>
      (\<exists>sfx. lc_events st' = lc_events (lc_start :: dict lc_state) @ sfx \<and>
         raise_ends_run (Some ToolkitError) sfx)"
    by (rule exI [of _ st1]) (intro conjI h2 b1)
  have c2: "\<exists>st'. simulate_Agent_cell failing_toolkit ?st2 =
             (Inl ToolkitError, st') \<and>
      (\<exists>sfx. lc_events st' = lc_events ?st2 @ sfx \<and>
         raise_ends_run (Some ToolkitError) sfx) \<and>
      capture (simulate_Agent_cell failing_toolkit) ?st2 =
        (Inr (), st'\<lparr>captured := captured st' @ [ToolkitError]\<rparr>)"
    using h3 b2 k2 by blast
  have c3: "\<exists>st'. no_transitory_cell example_new_agent ?tk3 0 lc_start =
             (Inl ToolkitError, st') \<and>
      (\<exists>sfx. lc_events st' = lc_events (lc_start :: dict lc_state) @ sfx \<and>
         raise_ends_run (Some ToolkitError) sfx) \<and>
      capture (no_transitory_cell example_new_agent ?tk3 0) lc_start =
        (Inr (), st'\<lparr>captured := captured st' @ [ToolkitError]\<rparr>)"
    using h4 b3 k3 by blast
  from ev4 ev0 have ev4': "lc_events st4 = lc_events (lc_start :: dict lc_state) @
           [Invoke Agent Solve, Return Agent Solve, Invoke Agent InitializeSim,
            Return Agent InitializeSim, Invoke Agent Simulate] @
           Raise Agent Simulate ToolkitError # completed_calls Agent_nt"
    by simp
  have c4: "\<exists>st'. lc_notebook example_new_agent failing_toolkit no_failure no_failure 0 lc_start =
             (Inr (), st') \<and>
      (\<exists>cs. captured st' = captured (lc_start :: dict lc_state) @ cs \<and>
         lc_events st' = lc_events (lc_start :: dict lc_state) @
           [Invoke Agent Solve, Return Agent Solve, Invoke Agent InitializeSim,
            Return Agent InitializeSim, Invoke Agent Simulate] @
           Raise Agent Simulate ToolkitError # completed_calls Agent_nt \<and>
         (\<forall>ev \<in> set (completed_calls Agent_nt). agent_of ev \<noteq> Agent) \<and>
         ToolkitError \<in> set cs)"
    by (rule exI [of _ st4], rule conjI [OF h5], rule exI [of _ cs])
      (intro conjI run(2) ev4' w [THEN conjunct1] w [THEN conjunct2])
  show ?thesis
    by (intro conjI h1 a c1 c2 c3 c4 p ms0 g1 g2 g3)
qed

text \<open>
  The exception does not always reach the caller: with a toolkit whose \<open>simulate\<close>
  fails, the body of the \<open>Agent_nt\<close> cell ends with the exception but the cell, being
  captured, completes; and with a toolkit whose \<open>simulate\<close> fails for \<open>Agent\<close>
  only, the whole run completes, with the six calls on \<open>Agent_nt\<close> logged after the call
  that raised.
\<close>

theorem captured_exception_does_not_propagate:
  "fst (no_transitory_cell example_new_agent
          (\<lambda>m ag. if m = Simulate then Inl ToolkitError else Inr ag) 0 lc_start) =
     Inl ToolkitError \<and>
   fst (capture (no_transitory_cell example_new_agent
          (\<lambda>m ag. if m = Simulate then Inl ToolkitError else Inr ag) 0) lc_start) = Inr () \<and>
   fst (lc_notebook example_new_agent failing_toolkit no_failure no_failure 0 lc_start) = Inr () \<and>
   lc_events (snd (lc_notebook example_new_agent failing_toolkit no_failure no_failure 0 lc_start)) =
     [Invoke Agent Solve, Return Agent Solve,
      Invoke Agent InitializeSim, Return Agent InitializeSim,
      Invoke Agent Simulate, Raise Agent Simulate ToolkitError,
      Invoke Agent_nt Solve, Return Agent_nt Solve,
      Invoke Agent_nt InitializeSim, Return Agent_nt InitializeSim,
      Invoke Agent_nt Simulate, Return Agent_nt Simulate] \<and>
   captured (snd (lc_notebook example_new_agent failing_toolkit no_failure no_failure 0 lc_start)) =
     [ToolkitError] \<and>
   \<not> raise_ends_run
       (failure (fst (lc_notebook example_new_agent failing_toolkit no_failure no_failure 0 lc_start)))
       (lc_events (snd (lc_notebook example_new_agent failing_toolkit no_failure no_failure 0
                          lc_start)))"
proof -
  have a: "fst (no_transitory_cell example_new_agent
          (\<lambda>m ag. if m = Simulate then Inl ToolkitError else Inr ag) 0 lc_start) =
     Inl ToolkitError"
    by (rule lc_start_nt_fails)
  have b: "fst (capture (no_transitory_cell example_new_agent
          (\<lambda>m ag. if m = Simulate then Inl ToolkitError else Inr ag) 0) lc_start) = Inr ()"
    by (rule capture_completes)
  let ?run = "lc_notebook example_new_agent failing_toolkit no_failure no_failure 0 lc_start"
  note c = failing_run
  have "\<not> raise_ends_run (failure (fst ?run)) (lc_events (snd ?run))"
  proof
    assume "raise_ends_run (failure (fst ?run)) (lc_events (snd ?run))"
    then have "\<forall>pre post j m e.
        [Invoke Agent Solve, Return Agent Solve,
         Invoke Agent InitializeSim, Return Agent InitializeSim,
         Invoke Agent Simulate, Raise Agent Simulate ToolkitError,
         Invoke Agent_nt Solve, Return Agent_nt Solve,
         Invoke Agent_nt InitializeSim, Return Agent_nt InitializeSim,
         Invoke Agent_nt Simulate, Return Agent_nt Simulate] = pre @ Raise j m e # post \<longrightarrow>
        post = []"
      unfolding raise_ends_run_def using c by simp
    from this [rule_format, of "[Invoke Agent Solve, Return Agent Solve,
         Invoke Agent InitializeSim, Return Agent InitializeSim,
         Invoke Agent Simulate]" Agent Simulate ToolkitError
         "[Invoke Agent_nt Solve, Return Agent_nt Solve,
         Invoke Agent_nt InitializeSim, Return Agent_nt InitializeSim,
         Invoke Agent_nt Simulate, Return Agent_nt Simulate]"]
    show False by simp
  qed
  with a b c show ?thesis
    by (intro conjI) simp_all
qed

section \<open>The solved policy is only read\<close>

lemma plot1_step_agent:
  "plot1_step A Epsilon x st = Inr st' \<Longrightarrow> agent st' = agent st"
  by (auto simp: plot1_step_def bind_err_def Let_def split: sum.splits)

lemma plot1_path_agent:
  "plot1_path n A Epsilon x st = Inr st' \<Longrightarrow> agent st' = agent st"
proof (induction n arbitrary: st)
  case 0
  then show ?case by simp
next
  case (Suc n)
  then obtain st1 where "plot1_step A Epsilon x st = Inr st1" "plot1_path n A Epsilon x st1 = Inr st'"
    by (auto simp: bind_err_def split: sum.splits)
  with Suc.IH [of st1] plot1_step_agent [of A Epsilon x st st1] show ?case
    by simp
qed

lemma plot3_step_agent:
  "plot3_step A Epsilon z b transfers x st = Inr st' \<Longrightarrow> agent st' = agent st"
  by (auto simp: plot3_step_def bind_err_def Let_def split: sum.splits)

lemma plot3_path_agent:
  "plot3_path fuel A kBar_new Epsilon z b transfers x st = Some (Inr st') \<Longrightarrow>
   agent st' = agent st"
proof (induction fuel arbitrary: st)
  case 0
  then show ?case by (auto split: if_splits)
next
  case (Suc n)
  show ?case
  proof (cases "f_gt A (np_abs A (f_sub A kBar_new (kt st))) (f_lit A (15 / 10000))")
    case False
    with Suc.prems show ?thesis by simp
  next
    case True
    with Suc.prems obtain st1 where "plot3_step A Epsilon z b transfers x st = Inr st1"
      "plot3_path n A kBar_new Epsilon z b transfers x st1 = Some (Inr st')"
      by (auto split: sum.splits)
    with Suc.IH [of st1] plot3_step_agent [of A Epsilon z b transfers x st st1] show ?thesis
      by simp
  qed
qed

text \<open>
  C6. After \<open>solve()\<close> the notebooks only read the solution. In \<open>plot1\<close> and \<open>plot3\<close> the
  agent after all arrows are drawn is the very object that \<open>solve()\<close> returned, solution
  included; in the two saving-rate cells the agent after the cell is the solved agent, and
  the only use of its solution is the evaluation of \<open>solution[0].cFunc\<close> at numbers (at
  \<open>4\<close>, and at every entry of \<open>m_t\<close>).
\<close>

theorem solution_untouched_after_solve:
  "(plot1 A solve fresh Epsilon DiscFac PopGrowth YearsPerGeneration Initialk = Inr st \<longrightarrow>
      (\<exists>p. plot_parameters A Epsilon DiscFac PopGrowth YearsPerGeneration = Inr p \<and>
         make_solved_agent A solve fresh (Beta p) = Inr (agent st))) \<and>
   (plot3 A solve fresh find_root fuel Epsilon DiscFac z Rfree YearsPerGeneration = Some (Inr st3) \<longrightarrow>
      (\<exists>p. plot_parameters A Epsilon DiscFac (f_lit A 1) YearsPerGeneration = Inr p \<and>
         make_solved_agent A solve fresh (Beta p) = Inr (agent st3))) \<and>
   (savrate_solve_cell solve' PFsavrate = Inr (ag, test_c) \<longrightarrow>
      solve' PFsavrate = Inr ag \<and> eval_cFunc ag 4 = Inr test_c) \<and>
   (savrate_plot_cell ag' = Inr (ag'', rates) \<longrightarrow> ag'' = ag')"
proof (intro conjI impI)
  assume "plot1 A solve fresh Epsilon DiscFac PopGrowth YearsPerGeneration Initialk = Inr st"
  then obtain p ag st1 cs where p: "plot_parameters A Epsilon DiscFac PopGrowth YearsPerGeneration = Inr p"
    and ag: "make_solved_agent A solve fresh (Beta p) = Inr ag"
    and path: "plot1_path 3 A Epsilon (xi p)
        \<lparr>agent = ag, kt = Initialk, ktp1 = f_lit A 0, drawn = cs\<rparr> = Inr st1"
    and st: "agent st = agent st1"
    unfolding plot1_def bind_err_def Let_def by (auto split: sum.splits)
  from plot1_path_agent [OF path] st have "agent st = ag" by simp
  with p ag show "\<exists>p. plot_parameters A Epsilon DiscFac PopGrowth YearsPerGeneration = Inr p \<and>
         make_solved_agent A solve fresh (Beta p) = Inr (agent st)"
    by simp
next
  assume "plot3 A solve fresh find_root fuel Epsilon DiscFac z Rfree YearsPerGeneration = Some (Inr st3)"
  then obtain p ag st1 kn tr cs where
    p: "plot_parameters A Epsilon DiscFac (f_lit A 1) YearsPerGeneration = Inr p"
    and ag: "make_solved_agent A solve fresh (Beta p) = Inr ag"
    and path: "plot3_path fuel A kn Epsilon z (Beta p) tr (xi p)
        \<lparr>agent = ag, kt = kBar p, ktp1 = kBar p, drawn = cs\<rparr> = Some (Inr st1)"
    and st: "agent st3 = agent st1"
    unfolding plot3_def Let_def by (auto split: sum.splits option.splits)
  from plot3_path_agent [OF path] st have "agent st3 = ag" by simp
  with p ag show "\<exists>p. plot_parameters A Epsilon DiscFac (f_lit A 1) YearsPerGeneration = Inr p \<and>
         make_solved_agent A solve fresh (Beta p) = Inr (agent st3)"
    by simp
next
  assume "savrate_solve_cell solve' PFsavrate = Inr (ag, test_c)"
  then show "solve' PFsavrate = Inr ag" "eval_cFunc ag 4 = Inr test_c"
    by (auto simp: savrate_solve_cell_def bind_err_def split: sum.splits)
next
  assume "savrate_plot_cell ag' = Inr (ag'', rates)"
  then show "ag'' = ag'"
    by (auto simp: savrate_plot_cell_def bind_err_def split: sum.splits list.splits)
qed

lemma sav_rate_t_succeeds: "\<exists>rates. sav_rate_t consumption = Inr rates"
proof -
  have "\<exists>num. np_broadcast (\<lambda>x y. x - y)
          (map (\<lambda>c. c + lab_income_t) (map (\<lambda>a. a * (savrate_Rfree - 1) / hd savrate_PermGroFac) a_tm1))
          (map consumption (map (\<lambda>a. a * savrate_Rfree / hd savrate_PermGroFac + 1) a_tm1)) = Inr num \<and>
          length num = length a_tm1"
    by (simp add: np_broadcast_def)
  then obtain num where num: "np_broadcast (\<lambda>x y. x - y)
          (map (\<lambda>c. c + lab_income_t) (map (\<lambda>a. a * (savrate_Rfree - 1) / hd savrate_PermGroFac) a_tm1))
          (map consumption (map (\<lambda>a. a * savrate_Rfree / hd savrate_PermGroFac + 1) a_tm1)) = Inr num"
     "length num = length a_tm1"
    by blast
  have "\<exists>rates. np_broadcast np_divide num
      (map (\<lambda>c. c + lab_income_t) (map (\<lambda>a. a * (savrate_Rfree - 1) / hd savrate_PermGroFac) a_tm1))
      = Inr rates"
    using num(2) by (simp add: np_broadcast_def)
  with num(1) show ?thesis
    by (simp add: sav_rate_t_def cap_income_t_eq m_t_eq Let_def)
qed

lemma plot3_example_runs:
  "\<exists>st. plot3 exact_arith solve_olg fresh_olg (\<lambda>f x0. x0) 0 (Some (1 / 2)) (Some 1) (Some 0)
          (Some 1) (Some 1) = Some (Inr st)"
proof -
  have p: "plot_parameters exact_arith (Some (1 / 2)) (Some 1) (Some 1) (Some 1) =
     Inr \<lparr>Beta = Some 1, xi = Some 1, Q = Some (1 / 4), kBar = Some (1 / 16)\<rparr>"
    by (rule example_parameters)
  have t: "exact_div (Some 0) (Some 2) = Inr (Some 0)"
    using exact_div_Some [of 2 0] by simp
  show ?thesis
    by (simp add: plot3_def exact_arith_fields p t lift2_def make_solved_agent_def solve_olg_def
        exact_gt_def Let_def)
qed

theorem solution_untouched_after_solve_witness:
  "(\<exists>st. plot1 exact_arith solve_olg fresh_olg (Some (1 / 2)) (Some 1) (Some 1) (Some 1) (Some 1) =
           Inr st \<and>
      (\<exists>p. plot_parameters exact_arith (Some (1 / 2)) (Some 1) (Some 1) (Some 1) = Inr p \<and>
         make_solved_agent exact_arith solve_olg fresh_olg (Beta p) = Inr (agent st))) \<and>
   (\<exists>st3. plot3 exact_arith solve_olg fresh_olg (\<lambda>f x0. x0) 0 (Some (1 / 2)) (Some 1) (Some 0)
            (Some 1) (Some 1) = Some (Inr st3) \<and>
      (\<exists>p. plot_parameters exact_arith (Some (1 / 2)) (Some 1) (f_lit exact_arith 1) (Some 1) =
              Inr p \<and>
         make_solved_agent exact_arith solve_olg fresh_olg (Beta p) = Inr (agent st3))) \<and>
   savrate_solve_cell solve_example fresh_example =
      Inr (fresh_example\<lparr>solution := [\<lparr>cFunc = \<lambda>m. m / 2\<rparr>]\<rparr>, 2) \<and>
   solve_example fresh_example = Inr (fresh_example\<lparr>solution := [\<lparr>cFunc = \<lambda>m. m / 2\<rparr>]\<rparr>) \<and>
   (\<exists>rates. savrate_plot_cell (fresh_example\<lparr>solution := [\<lparr>cFunc = \<lambda>m. m / 2\<rparr>]\<rparr>) =
      Inr (fresh_example\<lparr>solution := [\<lparr>cFunc = \<lambda>m. m / 2\<rparr>]\<rparr>, rates))"
proof -
  let ?ag = "fresh_example\<lparr>solution := [\<lparr>cFunc = \<lambda>m. m / 2\<rparr>]\<rparr>"
  obtain st where h1:
    "plot1 exact_arith solve_olg fresh_olg (Some (1 / 2)) (Some 1) (Some 1) (Some 1) (Some 1) = Inr st"
    using plot1_example_runs by blast
  obtain st3 where h2:
    "plot3 exact_arith solve_olg fresh_olg (\<lambda>f x0. x0) 0 (Some (1 / 2)) (Some 1) (Some 0)
       (Some 1) (Some 1) = Some (Inr st3)"
    using plot3_example_runs by blast
  have h3: "savrate_solve_cell solve_example fresh_example = Inr (?ag, 2)"
    by (simp add: savrate_solve_cell_def solve_example_def bind_err_def eval_cFunc_def)
  obtain ag'' rates where h4: "savrate_plot_cell ?ag = Inr (ag'', rates)"
    using sav_rate_t_succeeds [of "\<lambda>m. m / 2"]
    by (auto simp: savrate_plot_cell_def bind_err_def)
  note t = solution_untouched_after_solve
    [where A = exact_arith and solve = solve_olg and fresh = fresh_olg and Epsilon = "Some (1 / 2)"
       and DiscFac = "Some 1" and PopGrowth = "Some 1" and YearsPerGeneration = "Some 1"
       and Initialk = "Some 1" and st = st and find_root = "\<lambda>f x0. x0" and fuel = 0
       and z = "Some 0" and Rfree = "Some 1" and ?st3.0 = st3 and solve' = solve_example
       and PFsavrate = fresh_example and ag = ?ag and test_c = 2 and ag' = ?ag and ag'' = ag''
       and rates = rates]
  from t h1 have c1: "\<exists>p. plot_parameters exact_arith (Some (1 / 2)) (Some 1) (Some 1) (Some 1) =
           Inr p \<and>
         make_solved_agent exact_arith solve_olg fresh_olg (Beta p) = Inr (agent st)"
    by blast
  from t h2 have c2: "\<exists>p. plot_parameters exact_arith (Some (1 / 2)) (Some 1) (f_lit exact_arith 1)
           (Some 1) = Inr p \<and>
         make_solved_agent exact_arith solve_olg fresh_olg (Beta p) = Inr (agent st3)"
    by blast
  from t h3 have c3: "solve_example fresh_example = Inr ?ag"
    by blast
  from t h4 have c4: "ag'' = ?ag"
    by blast
  from h1 c1 h2 c2 h3 c3 h4 c4 show ?thesis
    by blast
qed

section \<open>The parameter dictionaries of the life-cycle notebook\<close>

lemma no_transitory_cell_store:
  assumes that: "params < length (dict_objects st)"
    and run: "no_transitory_cell new_agent toolkit params st = (r, st')"
  shows "params_no_transitory st' = Some (length (dict_objects st)) \<and>
         ((\<exists>e. bind_err (dict_get (dict_objects st ! params) ''TranShkStd'') py_len = Inl e) \<and>
            dict_objects st' = dict_objects st @ [dict_objects st ! params] \<or>
          (\<exists>n. bind_err (dict_get (dict_objects st ! params) ''TranShkStd'') py_len = Inr n \<and>
             dict_objects st' = dict_objects st @
               [(dict_objects st ! params)(''TranShkStd'' \<mapsto> PyList (replicate n (PyFloat 0)))] \<and>
             (r = Inr () \<longrightarrow>
                (\<exists>ag. new_agent ((dict_objects st ! params)
                          (''TranShkStd'' \<mapsto> PyList (replicate n (PyFloat 0)))) = Inr ag))))"
proof -
  define store1 where "store1 = dict_objects st @ [dict_objects st ! params]"
  define a where "a = length (dict_objects st)"
  have p: "store1 ! params = dict_objects st ! params"
    using that by (simp add: store1_def nth_append)
  show ?thesis
  proof (cases "bind_err (dict_get (store1 ! params) ''TranShkStd'') py_len")
    case (Inl e)
    with run p show ?thesis
      by (auto simp: no_transitory_cell_def copy_dict_def store1_def Let_def)
  next
    case n: (Inr n)
    define store2 where
      "store2 = update_dict a ''TranShkStd'' (PyList (replicate n (PyFloat 0))) store1"
    have s2: "store2 = dict_objects st @
        [(dict_objects st ! params)(''TranShkStd'' \<mapsto> PyList (replicate n (PyFloat 0)))]"
      by (simp add: store2_def update_dict_def store1_def a_def)
    have s2a: "store2 ! a =
        (dict_objects st ! params)(''TranShkStd'' \<mapsto> PyList (replicate n (PyFloat 0)))"
      by (simp add: s2 a_def)
    have n': "bind_err (dict_get (dict_objects st ! params) ''TranShkStd'') py_len = Inr n"
      using n p by simp
    show ?thesis
    proof (cases "new_agent (store2 ! a)")
      case (Inl e)
      with run p n have "dict_objects st' = store2 \<and> r = Inl e \<and> params_no_transitory st' = Some a"
        by (auto simp: no_transitory_cell_def copy_dict_def store1_def store2_def a_def Let_def)
      with n' s2 show ?thesis by (auto simp: a_def)
    next
      case c: (Inr ag)
      obtain r1 evs1 where run3: "solve_and_simulate toolkit Agent_nt ag (lc_events st) = (r1, evs1)"
        by (cases "solve_and_simulate toolkit Agent_nt ag (lc_events st)") auto
      have "dict_objects st' = store2 \<and> params_no_transitory st' = Some a"
        using run n c run3
        by (cases r1)
          (auto simp: no_transitory_cell_def copy_dict_def store1_def store2_def a_def Let_def)
      with n' s2 s2a c show ?thesis by (auto simp: a_def)
    qed
  qed
qed

text \<open>
  C5. The cell that builds \<open>Agent_nt\<close> leaves every dictionary object that existed
  before it as it was, \<open>params\<close> among them: \<open>params_no_transitory\<close> is a new object.
  When \<open>params["TranShkStd"]\<close> is a list, the new dictionary holds a list of zeros of
  the same length at \<open>"TranShkStd"\<close> and agrees with \<open>params\<close> at every other key, and it
  is the dictionary whose entries the constructor of \<open>Agent_nt\<close> receives.
\<close>

theorem params_unchanged_by_no_transitory_cell:
  assumes "params < length (dict_objects st)"
    and "no_transitory_cell new_agent toolkit params st = (r, st')"
  shows "(\<forall>a < length (dict_objects st). dict_objects st' ! a = dict_objects st ! a) \<and>
         dict_objects st' ! params = dict_objects st ! params \<and>
         params_no_transitory st' = Some (length (dict_objects st)) \<and>
         (\<forall>v. (dict_objects st ! params) ''TranShkStd'' = Some (PyList v) \<longrightarrow>
            (dict_objects st' ! length (dict_objects st)) ''TranShkStd'' =
               Some (PyList (replicate (length v) (PyFloat 0))) \<and>
            (\<forall>k. k \<noteq> ''TranShkStd'' \<longrightarrow>
               (dict_objects st' ! length (dict_objects st)) k = (dict_objects st ! params) k) \<and>
            (r = Inr () \<longrightarrow>
               (\<exists>ag. new_agent (dict_objects st' ! length (dict_objects st)) = Inr ag)))"
proof -
  note s = no_transitory_cell_store [OF assms(1) assms(2)]
  from s have pnt: "params_no_transitory st' = Some (length (dict_objects st))"
    by blast
  from s have pre: "\<exists>d. dict_objects st' = dict_objects st @ [d]"
    by blast
  then have old: "\<forall>a < length (dict_objects st). dict_objects st' ! a = dict_objects st ! a"
    by (auto simp: nth_append)
  have new: "(dict_objects st' ! length (dict_objects st)) ''TranShkStd'' =
               Some (PyList (replicate (length v) (PyFloat 0))) \<and>
            (\<forall>k. k \<noteq> ''TranShkStd'' \<longrightarrow>
               (dict_objects st' ! length (dict_objects st)) k = (dict_objects st ! params) k) \<and>
            (r = Inr () \<longrightarrow>
               (\<exists>ag. new_agent (dict_objects st' ! length (dict_objects st)) = Inr ag))"
    if v: "(dict_objects st ! params) ''TranShkStd'' = Some (PyList v)" for v
  proof -
    have len: "bind_err (dict_get (dict_objects st ! params) ''TranShkStd'') py_len = Inr (length v)"
      using v by (simp add: bind_err_def dict_get_def)
    from s len have
      "dict_objects st' = dict_objects st @
         [(dict_objects st ! params)(''TranShkStd'' \<mapsto> PyList (replicate (length v) (PyFloat 0)))] \<and>
       (r = Inr () \<longrightarrow>
          (\<exists>ag. new_agent ((dict_objects st ! params)
             (''TranShkStd'' \<mapsto> PyList (replicate (length v) (PyFloat 0)))) = Inr ag))"
      by (cases r) auto
    then show ?thesis by auto
  qed
  from old assms(1) pnt new show ?thesis by blast
qed

theorem params_unchanged_by_no_transitory_cell_witness:
  "0 < length (dict_objects (lc_start :: unit lc_state)) \<and>
   (\<exists>st'. no_transitory_cell (\<lambda>d. Inr ()) (\<lambda>m ag. Inr ag) 0 lc_start = (Inr (), st') \<and>
      dict_objects st' ! 0 = dict_objects (lc_start :: unit lc_state) ! 0 \<and>
      (dict_objects st' ! 0) ''TranShkStd'' = Some (PyList [PyFloat (1 / 10), PyFloat (2 / 10)]) \<and>
      params_no_transitory st' = Some 1 \<and>
      (dict_objects st' ! 1) ''TranShkStd'' = Some (PyList [PyFloat 0, PyFloat 0]) \<and>
      (dict_objects st' ! 1) ''AgentCount'' = (dict_objects (lc_start :: unit lc_state) ! 0) ''AgentCount'')"
proof -
  have h1: "0 < length (dict_objects (lc_start :: unit lc_state))"
    by (simp add: lc_start_def)
  have "fst (no_transitory_cell (\<lambda>d. Inr ()) (\<lambda>m ag. Inr ag) 0 lc_start) = Inr ()"
    by (simp add: no_transitory_cell_def lc_start_def method_call_def solve_and_simulate_def
        copy_dict_def update_dict_def bind_err_def dict_get_def Let_def)
  then obtain st' where h2:
    "no_transitory_cell (\<lambda>d. Inr ()) (\<lambda>m ag. Inr ag) 0 lc_start = (Inr (), st')"
    by (metis prod.collapse)
  have v: "(dict_objects (lc_start :: unit lc_state) ! 0) ''TranShkStd'' = Some (PyList [PyFloat (1 / 10), PyFloat (2 / 10)])"
    by (simp add: lc_start_def)
  have len: "length (dict_objects (lc_start :: unit lc_state)) = 1"
    by (simp add: lc_start_def)
  note t = params_unchanged_by_no_transitory_cell [OF h1 h2]
  from t have a: "dict_objects st' ! 0 = dict_objects (lc_start :: unit lc_state) ! 0"
    by blast
  from t len have b: "params_no_transitory st' = Some 1"
    by simp
  from t v len have c: "(dict_objects st' ! 1) ''TranShkStd'' = Some (PyList [PyFloat 0, PyFloat 0])"
    by (simp add: eval_nat_numeral)
  from t v len have d: "(dict_objects st' ! 1) ''AgentCount'' = (dict_objects (lc_start :: unit lc_state) ! 0) ''AgentCount''"
    by simp
  from h1 h2 a v b c d show ?thesis
    by (intro conjI exI [of _ st']) simp_all
qed

section \<open>DiamondOLG: the pay-as-you-go steady state\<close>

lemma beta_bound: "((19/20::real) ^ 30) / (1 + (19/20) ^ 30) < 1768 / 10000"
  by (simp add: field_simps)

lemma poly_pos:
  assumes "0 \<le> (u::real)" "0 < q" "q \<le> 1061 / 10000"
  shows "0 < u ^ 5 - q * u ^ 2 + 1 / 50"
proof -
  consider "u \<le> 43 / 100" | "43 / 100 \<le> u" "u \<le> 48 / 100" | "48 / 100 \<le> u"
    by linarith
  then show ?thesis
  proof cases
    case 1
    have "u ^ 2 \<le> (43 / 100) ^ 2"
      using assms(1) 1 by (intro power_mono) auto
    then have "q * u ^ 2 \<le> (1061 / 10000) * (43 / 100) ^ 2"
      using assms by (intro mult_mono) auto
    also have "(1061 / 10000) * (43 / 100) ^ 2 < (1 / 50 :: real)"
      by (simp add: power2_eq_square)
    finally have b: "q * u ^ 2 < 1 / 50" .
    have "0 \<le> u ^ 5" using assms(1) by simp
    with b show ?thesis by linarith
  next
    case 2
    have "u ^ 2 \<le> (48 / 100) ^ 2"
      using assms(1) 2 by (intro power_mono) auto
    then have "q * u ^ 2 \<le> (1061 / 10000) * (48 / 100) ^ 2"
      using assms by (intro mult_mono) auto
    also have "(1061 / 10000) * (48 / 100) ^ 2 < (1 / 50 :: real) + (43 / 100) ^ 5"
      by (simp add: power2_eq_square eval_nat_numeral)
    finally have b: "q * u ^ 2 < 1 / 50 + (43 / 100) ^ 5" .
    have "(43 / 100) ^ 5 \<le> u ^ 5"
      using 2 by (intro power_mono) auto
    with b show ?thesis by linarith
  next
    case 3
    have "(48 / 100) ^ 3 \<le> u ^ 3"
      using 3 by (intro power_mono) auto
    moreover have "(1061 / 10000 :: real) \<le> (48 / 100) ^ 3"
      by (simp add: eval_nat_numeral)
    ultimately have "q \<le> u ^ 3" using assms(3) by linarith
    then have "q * u ^ 2 \<le> u ^ 3 * u ^ 2"
      by (intro mult_right_mono) auto
    also have "u ^ 3 * u ^ 2 = u ^ 5" by (simp add: power_add [symmetric])
    finally have "q * u ^ 2 \<le> u ^ 5" .
    then show ?thesis by linarith
  qed
qed

lemma powr_fifth:
  assumes "0 < (k::real)"
  shows "(k powr (1 / 5)) ^ 5 = k" "(k powr (1 / 5)) ^ 2 = k powr (2 / 5)"
proof -
  have pos: "0 \<le> k powr (1 / 5)" by simp
  have "(k powr (1 / 5)) ^ 5 = (k powr (1 / 5)) powr 5"
    using powr_numeral [OF pos, of "Num.Bit1 (Num.Bit0 Num.One)"] by simp
  also have "\<dots> = k powr (1 / 5 * 5)"
    by (simp only: powr_powr)
  finally show "(k powr (1 / 5)) ^ 5 = k"
    using assms by simp
  have "(k powr (1 / 5)) ^ 2 = (k powr (1 / 5)) powr 2"
    using powr_numeral [OF pos, of "Num.Bit0 Num.One"] by simp
  also have "\<dots> = k powr (1 / 5 * 2)"
    by (simp only: powr_powr)
  finally show "(k powr (1 / 5)) ^ 2 = k powr (2 / 5)"
    by simp
qed

text \<open>
  Within the sliders' range of \<open>plot3\<close> the pay-as-you-go accumulation map need not have
  a steady state. At \<open>Epsilon = 0.4\<close>, \<open>DiscFac = 0.95\<close>, \<open>z = 0.02\<close>, \<open>Rfree = 1\<close> and 30
  years per generation, in exact arithmetic, the transfers are \<open>0.02\<close>, while
  \<open>Q*k^Epsilon - k\<close> stays below that: the residual handed to the root finder has no zero,
  so whatever the root finder reports as \<open>kBar_new\<close> there is not a steady state.
\<close>

lemma two_fifths_not_int: "(2 / 5 :: real) \<notin> \<int>"
proof
  assume "(2 / 5 :: real) \<in> \<int>"
  then obtain i :: int where "(2 / 5 :: real) = of_int i"
    by (auto elim: Ints_cases)
  then have "of_int (5 * i) = (2 :: real)" by simp
  then have "5 * i = 2" using of_int_eq_iff [of "5 * i" 2] by simp
  then show False by presburger
qed

lemma payg_no_steady_state_example:
  "\<exists>p. plot_parameters exact_arith (Some (2 / 5)) (Some (19 / 20)) (f_lit exact_arith 1) (Some 30) =
          Inr p \<and>
     f_div exact_arith
       (f_mul exact_arith (Some (1 / 50))
          (f_add exact_arith (f_lit exact_arith 1) (f_mul exact_arith (Some 1) (Beta p))))
       (f_mul exact_arith (Some 1) (f_add exact_arith (f_lit exact_arith 1) (Beta p))) =
       Inr (Some (1 / 50)) \<and>
     (\<forall>k. residual exact_arith (Q p) (Some (2 / 5)) (Some (1 / 50)) k \<noteq> Some 0)"
proof -
  define b :: real where "b = (19 / 20) ^ 30"
  define q :: real where "q = (1 - 2 / 5) * (b / (1 + b)) / 1"
  define kb where "kb = q powr (1 / (1 - 2 / 5))"
  have b: "0 < b" by (simp add: b_def)
  have b1: "b \<le> 1"
    unfolding b_def by (rule power_le_one) simp_all
  have q: "0 < q" "q \<le> 1061 / 10000"
  proof -
    show "0 < q" using b by (simp add: q_def)
    define t where "t = b / (1 + b)"
    have "t < 1768 / 10000"
      unfolding t_def b_def by (rule beta_bound)
    moreover have "q = 3 / 5 * t"
      unfolding q_def t_def [symmetric] by simp
    ultimately show "q \<le> 1061 / 10000"
      by linarith
  qed
  have pb: "(19 / 20 :: real) powr 30 = b"
    by (simp add: b_def)
  have s1: "exact_pow (Some (19 / 20)) (Some 30) = Inr (Some b)"
    using exact_pow_pos [of "19 / 20" 30] below_threshold [OF b1] pb by simp
  have s2: "exact_pow (Some 1) (Some 30) = Inr (Some 1)"
    using exact_pow_pos [of 1 30] below_threshold [of 1] by simp
  have s3: "exact_div (Some b) (Some (1 + b)) = Inr (Some (b / (1 + b)))"
    using b by (intro exact_div_Some) simp
  have s4: "exact_div (Some ((1 - 2 / 5) * (b / (1 + b)))) (Some 1) = Inr (Some q)"
    using exact_div_Some [of 1 "(1 - 2 / 5) * (b / (1 + b))"] by (simp add: q_def)
  have s5: "exact_div (Some 1) (Some (1 - 2 / 5)) = Inr (Some (1 / (1 - 2 / 5)))"
    by (intro exact_div_Some) simp
  have "kb \<le> 1"
    unfolding kb_def using q by (intro powr_le1) auto
  then have s6: "exact_pow (Some q) (Some (1 / (1 - 2 / 5))) = Inr (Some kb)"
    using exact_pow_pos [of q "1 / (1 - 2 / 5)"] below_threshold [of kb] q(1)
    by (simp add: kb_def)
  have P: "plot_parameters exact_arith (Some (2 / 5)) (Some (19 / 20)) (f_lit exact_arith 1) (Some 30) =
      Inr \<lparr>Beta = Some b, xi = Some 1, Q = Some q, kBar = Some kb\<rparr>"
    unfolding plot_parameters_def exact_arith_fields lift2_def
    by (simp only: option.case s1 s2 s3 s4 s5 s6 bind_err_def sum.case)
  have "1 / 50 * (1 + 1 * b) / (1 * (1 + b)) = 1 / 50"
    using b by (simp add: field_simps)
  then have T: "exact_div (Some (1 / 50 * (1 + 1 * b))) (Some (1 * (1 + b))) = Inr (Some (1 / 50))"
    using exact_div_Some [of "1 * (1 + b)" "1 / 50 * (1 + 1 * b)"] b by simp
  have R: "residual exact_arith (Some q) (Some (2 / 5)) (Some (1 / 50)) k \<noteq> Some 0" for k
  proof (cases k)
    case None
    then show ?thesis
      by (simp add: residual_def exact_arith_fields lift2_def exact_np_pow_def)
  next
    case (Some x)
    show ?thesis
    proof (cases "0 < x")
      case True
      define v where "v = x powr (1 / 5)"
      have v: "0 \<le> v" by (simp add: v_def)
      have "0 < v ^ 5 - q * v ^ 2 + 1 / 50"
        by (rule poly_pos [OF v q])
      then have "0 < x - q * x powr (2 / 5) + 1 / 50"
        unfolding v_def powr_fifth [OF True] .
      then show ?thesis
        using True Some
        by (simp add: residual_def exact_arith_fields lift2_def exact_np_pow_def real_power_def)
    next
      case False
      with Some two_fifths_not_int show ?thesis
        by (cases "x = 0")
          (simp_all add: residual_def exact_arith_fields lift2_def exact_np_pow_def real_power_def)
    qed
  qed
  have T': "f_div exact_arith
       (f_mul exact_arith (Some (1 / 50))
          (f_add exact_arith (f_lit exact_arith 1) (f_mul exact_arith (Some 1) (Some b))))
       (f_mul exact_arith (Some 1) (f_add exact_arith (f_lit exact_arith 1) (Some b))) =
       Inr (Some (1 / 50))"
    using T by (simp add: exact_arith_fields lift2_def)
  from P T' R show ?thesis by simp
qed

end
